(* ===== verification/Gateway_Prelude.thy ===== *)
theory Gateway_Prelude
  imports Complex_Main "HOL-Library.Word" "HOL-Library.AList" "HOL-Library.Log_Nat"
begin

text \<open>
  Shared vocabulary of the development: names for the machine types of the C++ sources, the
  collections of simplification rules the component proofs use, and the generic lemmas on lists,
  association lists and machine words that more than one component needs.
\<close>

unbundle bit_operations_syntax

section \<open>Machine types\<close>

type_synonym u8 = "8 word"
type_synonym u16 = "16 word"
type_synonym u32 = "32 word"
type_synonym u64 = "64 word"

text \<open>
  \<open>unordered_map\<close> members are association lists: lookups and updates are those of
  \<open>HOL-Library.AList\<close>, and the order of the list stands for the unspecified iteration order.
\<close>

type_synonym ('k, 'v) umap = "('k \<times> 'v) list"

section \<open>Collections of rules\<close>

named_theorems result_simps \<open>evaluation of the tri-state result type\<close>
named_theorems byte_simps \<open>splitting words into bytes and joining them\<close>
named_theorems fp_exact \<open>floating-point operations that do not round\<close>
named_theorems store_simps \<open>reads of the tag store after an operation\<close>

section \<open>Association lists\<close>

lemma map_of_update [simp]: "map_of (AList.update k v al) = (map_of al)(k \<mapsto> v)"
  by (rule update_conv')

lemma map_of_delete [simp]: "map_of (AList.delete k al) = (map_of al)(k := None)"
  by (rule delete_conv')

lemma distinct_keys_update [simp, intro]:
  "distinct (map fst al) \<Longrightarrow> distinct (map fst (AList.update k v al))"
  by (rule distinct_update)

text \<open>\<open>unordered_map::emplace\<close> keeps the entry that is already there.\<close>

definition emplace :: "'k \<Rightarrow> 'v \<Rightarrow> ('k, 'v) umap \<Rightarrow> ('k, 'v) umap" where
  "emplace k v al = (if map_of al k = None then al @ [(k, v)] else al)"

lemma map_of_emplace [simp]:
  "map_of (emplace k v al) = (if map_of al k = None then (map_of al)(k \<mapsto> v) else map_of al)"
  by (auto simp: emplace_def map_add_def fun_eq_iff split: option.splits)

lemma keys_emplace: "set (map fst (emplace k v al)) = insert k (set (map fst al))"
  by (auto simp: emplace_def map_of_eq_None_iff)

lemma distinct_keys_emplace [simp, intro]:
  "distinct (map fst al) \<Longrightarrow> distinct (map fst (emplace k v al))"
  by (auto simp: emplace_def map_of_eq_None_iff)

section \<open>Lists\<close>

lemma nth_map_upt_self: "map (\<lambda>i. xs ! i) [0..<length xs] = xs"
  by (rule map_nth)

lemma take_Suc_snoc: "n < length xs \<Longrightarrow> take (Suc n) xs = take n xs @ [xs ! n]"
  by (rule take_Suc_conv_app_nth)

section \<open>Bytes of a word\<close>

text \<open>
  Big-endian composition of two bytes and its two projections, as the sources write them with
  shifts and masks.
\<close>

definition hi8 :: "u16 \<Rightarrow> u8" where
  "hi8 w = ucast (drop_bit 8 w)"

definition lo8 :: "u16 \<Rightarrow> u8" where
  "lo8 w = ucast w"

definition join8 :: "u8 \<Rightarrow> u8 \<Rightarrow> u16" where
  "join8 h l = push_bit 8 (ucast h) OR ucast l"

lemma bit_hi8: "bit (hi8 w) n \<longleftrightarrow> n < 8 \<and> bit w (n + 8)"
  by (auto simp: hi8_def bit_simps add.commute)

lemma bit_lo8: "bit (lo8 w) n \<longleftrightarrow> n < 8 \<and> bit w n"
  by (auto simp: lo8_def bit_simps)

lemma bit_join8: "bit (join8 h l) n \<longleftrightarrow> n < 16 \<and> (if n < 8 then bit l n else bit h (n - 8))"
  by (auto simp: join8_def bit_simps dest: bit_imp_le_length)

lemma join8_hi8_lo8 [simp, byte_simps]: "join8 (hi8 w) (lo8 w) = w"
  by (rule bit_word_eqI) (auto simp: bit_join8 bit_hi8 bit_lo8)

lemma hi8_join8 [simp, byte_simps]: "hi8 (join8 h l) = h"
  by (rule bit_word_eqI) (auto simp: bit_join8 bit_hi8)

lemma lo8_join8 [simp, byte_simps]: "lo8 (join8 h l) = l"
  by (rule bit_word_eqI) (auto simp: bit_join8 bit_lo8)

lemma unat_join8: "unat (join8 h l) = unat h * 256 + unat l"
proof -
  have "push_bit 8 (ucast h :: u16) AND ucast l = 0"
    by (rule bit_word_eqI) (auto simp: bit_simps dest: bit_imp_le_length)
  then have "join8 h l = push_bit 8 (ucast h) + ucast l"
    by (simp add: join8_def disjunctive_add_eq_or)
  moreover have "unat h < 256" "unat l < 256"
    using unsigned_less [of h] unsigned_less [of l] by simp_all
  ultimately show ?thesis
    by (simp add: unat_word_ariths push_bit_eq_mult unsigned_ucast_eq take_bit_eq_mod)
qed

end
