(* ===== verification/Text_Util.thy ===== *)
theory Text_Util
  imports Gateway_Prelude
begin

text \<open>
  The parts of the C++ library that the text formats of the program rely on, in the "C" locale:
  \<open>std::isspace\<close>, extraction of words and integers from a stream with \<open>>>\<close>, \<open>std::getline\<close>,
  \<open>std::stoi\<close>, decimal output, and searching and trimming of string views.
\<close>

section \<open>Characters\<close>

definition is_space :: "char \<Rightarrow> bool" where
  "is_space c \<longleftrightarrow> (let n = of_char c :: nat in 9 \<le> n \<and> n \<le> 13 \<or> n = 32)"

definition is_digit :: "char \<Rightarrow> bool" where
  "is_digit c \<longleftrightarrow> (let n = of_char c :: nat in 48 \<le> n \<and> n \<le> 57)"

definition digit_value :: "char \<Rightarrow> nat" where
  "digit_value c = of_char c - 48"

definition digit_char :: "nat \<Rightarrow> char" where
  "digit_char n = char_of (48 + n)"

lemma digit_char_props:
  assumes "n < 10"
  shows "is_digit (digit_char n)" "digit_value (digit_char n) = n" "\<not> is_space (digit_char n)"
    "digit_char n \<noteq> CHR ''-''" "digit_char n \<noteq> CHR ''+''"
proof -
  have o: "of_char (digit_char n) = 48 + n" using assms by (simp add: digit_char_def)
  show "is_digit (digit_char n)" "digit_value (digit_char n) = n" "\<not> is_space (digit_char n)"
    using assms by (simp_all add: is_digit_def digit_value_def is_space_def o)
  show "digit_char n \<noteq> CHR ''-''" "digit_char n \<noteq> CHR ''+''" using o by auto
qed

section \<open>Trimming and words\<close>

definition ltrim :: "string \<Rightarrow> string" where
  "ltrim s = dropWhile is_space s"

definition trim :: "string \<Rightarrow> string" where
  "trim s = rev (dropWhile is_space (rev (dropWhile is_space s)))"

text \<open>\<open>in >> word\<close>: skip white space, take characters up to the next white space; fails when there is
  none.\<close>

definition read_word :: "string \<Rightarrow> (string \<times> string) option" where
  "read_word s = (let r = ltrim s in
     if r = [] then None else Some (takeWhile (\<lambda>c. \<not> is_space c) r, dropWhile (\<lambda>c. \<not> is_space c) r))"

lemma ltrim_space [simp]: "is_space c \<Longrightarrow> ltrim (c # s) = ltrim s"
  by (simp add: ltrim_def)

lemma ltrim_word [simp]: "\<not> is_space c \<Longrightarrow> ltrim (c # s) = c # s"
  by (simp add: ltrim_def)

lemma is_space_blank [simp]: "is_space CHR '' ''"
  by (simp add: is_space_def)

definition no_space :: "string \<Rightarrow> bool" where
  "no_space s \<longleftrightarrow> list_all (\<lambda>c. \<not> is_space c) s"

lemma read_word_token:
  assumes "w \<noteq> []" "no_space w" "is_space c"
  shows "read_word (w @ c # s) = Some (w, c # s)"
proof -
  have "ltrim (w @ c # s) = w @ c # s"
    using assms(1,2) by (cases w) (auto simp: no_space_def)
  moreover have "takeWhile (\<lambda>c. \<not> is_space c) (w @ c # s) = w" "dropWhile (\<lambda>c. \<not> is_space c) (w @ c # s) = c # s"
    using assms(2,3) by (auto simp: no_space_def list_all_iff takeWhile_append dropWhile_append)
  ultimately show ?thesis using assms(1) by (simp add: read_word_def)
qed

lemma read_word_skip: "is_space c \<Longrightarrow> read_word (c # s) = read_word s"
  by (simp add: read_word_def)

lemma trim_id:
  assumes "s \<noteq> []" "\<not> is_space (hd s)" "\<not> is_space (last s)"
  shows "trim s = s"
proof -
  have "dropWhile is_space s = s" using assms by (cases s) auto
  moreover have "dropWhile is_space (rev s) = rev s"
    using assms by (cases "rev s") (auto simp: last_rev)
  ultimately show ?thesis by (simp add: trim_def)
qed

lemma trim_Nil [simp]: "trim [] = []"
  by (simp add: trim_def)

lemma trim_skip [simp]: "is_space c \<Longrightarrow> trim (c # s) = trim s"
  by (simp add: trim_def)

lemma trim_skip_end: "is_space c \<Longrightarrow> trim (s @ [c]) = trim s"
proof (cases "\<forall>x\<in>set s. is_space x")
  case True
  then have a: "dropWhile is_space s = []" by simp
  show "is_space c \<Longrightarrow> trim (s @ [c]) = trim s" by (simp add: trim_def dropWhile_append a True)
next
  case False
  then show "is_space c \<Longrightarrow> trim (s @ [c]) = trim s" by (auto simp: trim_def dropWhile_append)
qed

section \<open>Decimal integers\<close>

fun show_nat :: "nat \<Rightarrow> string" where
  "show_nat n = (if n < 10 then [digit_char n] else show_nat (n div 10) @ [digit_char (n mod 10)])"

declare show_nat.simps [simp del]

definition show_int :: "int \<Rightarrow> string" where
  "show_int i = (if i < 0 then CHR ''-'' # show_nat (nat (- i)) else show_nat (nat i))"

definition digits_value :: "string \<Rightarrow> nat" where
  "digits_value ds = foldl (\<lambda>v c. v * 10 + digit_value c) 0 ds"

text \<open>An optional sign and a run of digits, with the rest of the input.\<close>

fun read_sign :: "string \<Rightarrow> bool \<times> string" where
  "read_sign (c # s) = (if c = CHR ''-'' then (True, s) else if c = CHR ''+'' then (False, s) else (False, c # s))"
| "read_sign [] = (False, [])"

definition read_digits :: "string \<Rightarrow> (int \<times> string) option" where
  "read_digits s = (case read_sign (ltrim s) of (neg, r) \<Rightarrow>
     let ds = takeWhile is_digit r in
     if ds = [] then None
     else Some ((if neg then - int (digits_value ds) else int (digits_value ds)), dropWhile is_digit r))"

text \<open>\<open>in >> n\<close> for an integer type with the given bounds: a value out of range fails.\<close>

definition read_int :: "int \<Rightarrow> int \<Rightarrow> string \<Rightarrow> (int \<times> string) option" where
  "read_int lo hi s = (case read_digits s of
     Some (v, r) \<Rightarrow> if lo \<le> v \<and> v \<le> hi then Some (v, r) else None
   | None \<Rightarrow> None)"

abbreviation read_int64 :: "string \<Rightarrow> (int \<times> string) option" where
  "read_int64 \<equiv> read_int (- (2 ^ 63)) (2 ^ 63 - 1)"

text \<open>\<open>std::stoi\<close>: white space, a sign and digits; what follows is ignored. It throws (here \<open>None\<close>) when
  there is no number or the number is out of the range of \<open>int\<close>.\<close>

definition stoi :: "string \<Rightarrow> int option" where
  "stoi s = map_option fst (read_int (- (2 ^ 31)) (2 ^ 31 - 1) s)"

lemma show_nat_digits: "list_all is_digit (show_nat n)" "show_nat n \<noteq> []"
proof -
  have "list_all is_digit (show_nat n) \<and> show_nat n \<noteq> []"
  proof (induction n rule: show_nat.induct)
    case (1 n)
    then show ?case by (subst (1 2) show_nat.simps) (auto simp: digit_char_props)
  qed
  then show "list_all is_digit (show_nat n)" "show_nat n \<noteq> []" by auto
qed

lemma digits_value_snoc: "digits_value (ds @ [c]) = digits_value ds * 10 + digit_value c"
  by (simp add: digits_value_def)

lemma digits_value_show [simp]: "digits_value (show_nat n) = n"
proof (induction n rule: show_nat.induct)
  case (1 n)
  show ?case
  proof (cases "n < 10")
    case True
    then show ?thesis by (simp add: show_nat.simps digits_value_def digit_char_props)
  next
    case False
    then show ?thesis using 1 by (subst show_nat.simps) (simp add: digits_value_snoc digit_char_props)
  qed
qed

lemma is_digit_not_space: "is_digit c \<Longrightarrow> \<not> is_space c"
  by (auto simp: is_digit_def is_space_def Let_def)

lemma is_digit_not_sign: "\<not> is_digit CHR ''-''" "\<not> is_digit CHR ''+''"
  by (simp_all add: is_digit_def)

lemma takeWhile_digits:
  assumes "rest = [] \<or> \<not> is_digit (hd rest)"
  shows "takeWhile is_digit (show_nat n @ rest) = show_nat n" "dropWhile is_digit (show_nat n @ rest) = rest"
  using show_nat_digits [of n] assms
  by (cases rest; auto simp: list_all_iff takeWhile_append dropWhile_append)+

lemma read_digits_show_int:
  assumes "rest = [] \<or> \<not> is_digit (hd rest)"
  shows "read_digits (show_int i @ rest) = Some (i, rest)"
proof -
  obtain c s where s: "show_nat (nat \<bar>i\<bar>) = c # s" "is_digit c"
    using show_nat_digits [of "nat \<bar>i\<bar>"] by (cases "show_nat (nat \<bar>i\<bar>)") auto
  then have c: "\<not> is_space c" "c \<noteq> CHR ''-''" "c \<noteq> CHR ''+''"
    using is_digit_not_space is_digit_not_sign by auto
  note t = takeWhile_digits [OF assms, of "nat \<bar>i\<bar>"]
  have m: "\<not> is_space CHR ''-''" by (simp add: is_space_def)
  show ?thesis
  proof (cases "i < 0")
    case True
    then have a: "nat \<bar>i\<bar> = nat (- i)" by simp
    show ?thesis using True t m show_nat_digits(2) [of "nat (- i)"]
      by (simp add: read_digits_def show_int_def a Let_def)
  next
    case False
    then have a: "nat \<bar>i\<bar> = nat i" by simp
    have "read_sign (ltrim (show_nat (nat i) @ rest)) = (False, show_nat (nat i) @ rest)"
      using s c by (simp add: a)
    then show ?thesis using False t show_nat_digits(2) [of "nat i"]
      by (simp add: read_digits_def show_int_def a Let_def)
  qed
qed

lemma read_int_show_int:
  assumes "lo \<le> i" "i \<le> hi" "rest = [] \<or> \<not> is_digit (hd rest)"
  shows "read_int lo hi (show_int i @ rest) = Some (i, rest)"
  using assms by (simp add: read_int_def read_digits_show_int)

lemma stoi_show_int: "- (2 ^ 31) \<le> i \<Longrightarrow> i \<le> 2 ^ 31 - 1 \<Longrightarrow> stoi (show_int i) = Some i"
  using read_int_show_int [of "- (2 ^ 31)" i "2 ^ 31 - 1" "[]"] by (simp add: stoi_def)

lemma read_int_skip: "is_space c \<Longrightarrow> read_int lo hi (c # s) = read_int lo hi s"
  by (simp add: read_int_def read_digits_def)

lemma show_int_no_space: "no_space (show_int i)" "show_int i \<noteq> []"
  using show_nat_digits is_digit_not_space
  by (auto simp: show_int_def no_space_def list_all_iff is_space_def [of "CHR ''-''"])

section \<open>Hexadecimal bytes\<close>

definition hex_digit :: "nat \<Rightarrow> char" where
  "hex_digit n = char_of (if n < 10 then 48 + n else 87 + n)"

definition hex_byte :: "u8 \<Rightarrow> string" where
  "hex_byte b = [hex_digit (unat b div 16), hex_digit (unat b mod 16)]"

end
