(* ===== verification/Cli_Options.thy ===== *)
theory Cli_Options
  imports Text_Util
begin

text \<open>
  \<open>Src/app/cli_options.cpp\<close>: the command line. \<open>parse_args\<close> is the loop of \<open>parse_cli\<close> over the
  arguments after the program name: options without a value, options with a value (a missing value
  ends the loop, as \<open>break\<close> does), and unknown arguments. \<open>args_ok\<close> is the grammar of command lines
  that give no error.
\<close>

section \<open>Options\<close>

datatype log_level_option = LvTrace | LvDebug | LvInfo | LvWarn | LvError
datatype metrics_export_option = ExNone | ExOStream | ExOtlpHttp

record cli_options =
  cli_project_path :: string
  cli_once :: bool
  cli_watch :: bool
  cli_watch_period_ms :: int
  cli_enable_opcua :: bool
  cli_enable_historian :: bool
  cli_historian_capacity :: nat
  cli_historian_db :: string
  cli_frame_log_path :: string
  cli_log_level :: log_level_option
  cli_log_file :: string
  cli_metrics_export :: metrics_export_option
  cli_traces_export :: metrics_export_option
  cli_otlp_endpoint :: string
  cli_runtime_doctor :: bool
  cli_ua_cert_path :: string
  cli_ua_key_path :: string
  cli_ua_trust_paths :: "string list"
  cli_ua_revocation_paths :: "string list"
  cli_ua_strict_certs :: bool
  cli_ua_accept_untrusted :: bool
  cli_ua_users :: "(string \<times> string) list"
  cli_ua_deny_anonymous :: bool
  cli_ua_allow_anonymous :: bool
  cli_ua_allow_none_password :: bool
  cli_ua_allow_certificate_identity :: bool
  cli_ua_allow_none_certificate :: bool
  cli_help :: bool
  cli_version :: bool
  cli_errors :: "string list"

definition default_cli_options :: cli_options where
  "default_cli_options = \<lparr>cli_project_path = [], cli_once = False, cli_watch = False, cli_watch_period_ms = 1000,
     cli_enable_opcua = True, cli_enable_historian = True, cli_historian_capacity = 4096, cli_historian_db = [],
     cli_frame_log_path = [], cli_log_level = LvInfo, cli_log_file = [], cli_metrics_export = ExNone,
     cli_traces_export = ExNone, cli_otlp_endpoint = [], cli_runtime_doctor = False, cli_ua_cert_path = [],
     cli_ua_key_path = [], cli_ua_trust_paths = [], cli_ua_revocation_paths = [], cli_ua_strict_certs = False,
     cli_ua_accept_untrusted = False, cli_ua_users = [], cli_ua_deny_anonymous = False,
     cli_ua_allow_anonymous = False, cli_ua_allow_none_password = False,
     cli_ua_allow_certificate_identity = False, cli_ua_allow_none_certificate = False, cli_help = False,
     cli_version = False, cli_errors = []\<rparr>"

definition parse_log_level :: "string \<Rightarrow> log_level_option option" where
  "parse_log_level s =
     (if s = ''trace'' then Some LvTrace else if s = ''debug'' then Some LvDebug
      else if s = ''info'' then Some LvInfo else if s = ''warn'' \<or> s = ''warning'' then Some LvWarn
      else if s = ''error'' then Some LvError else None)"

definition parse_metrics_export :: "string \<Rightarrow> metrics_export_option option" where
  "parse_metrics_export s =
     (if s = ''none'' then Some ExNone else if s = ''ostream'' \<or> s = ''stdout'' then Some ExOStream
      else if s = ''otlp'' \<or> s = ''otlp-http'' then Some ExOtlpHttp else None)"

section \<open>Arguments\<close>

definition cli_error :: "string \<Rightarrow> cli_options \<Rightarrow> cli_options" where
  "cli_error m o' = o'\<lparr>cli_errors := cli_errors o' @ [m]\<rparr>"

text \<open>Options without a value.\<close>

definition cli_flags :: "(string \<times> (cli_options \<Rightarrow> cli_options)) list" where
  "cli_flags = [
     (''--help'', cli_help_update (\<lambda>_. True)), (''-h'', cli_help_update (\<lambda>_. True)),
     (''--version'', cli_version_update (\<lambda>_. True)), (''-V'', cli_version_update (\<lambda>_. True)),
     (''--once'', cli_once_update (\<lambda>_. True)), (''--watch'', cli_watch_update (\<lambda>_. True)),
     (''--runtime-doctor'', cli_runtime_doctor_update (\<lambda>_. True)),
     (''--ua-strict-certs'', cli_ua_strict_certs_update (\<lambda>_. True)),
     (''--ua-accept-untrusted'', cli_ua_accept_untrusted_update (\<lambda>_. True)),
     (''--ua-deny-anonymous'', cli_ua_deny_anonymous_update (\<lambda>_. True)),
     (''--ua-allow-anonymous'', cli_ua_allow_anonymous_update (\<lambda>_. True)),
     (''--ua-allow-none-password'', cli_ua_allow_none_password_update (\<lambda>_. True)),
     (''--ua-allow-certificate-identity'', cli_ua_allow_certificate_identity_update (\<lambda>_. True)),
     (''--ua-allow-none-certificate'', cli_ua_allow_none_certificate_update (\<lambda>_. True)),
     (''--no-opcua'', cli_enable_opcua_update (\<lambda>_. False)),
     (''--no-historian'', cli_enable_historian_update (\<lambda>_. False))]"

definition cli_user :: "string \<Rightarrow> cli_options \<Rightarrow> cli_options" where
  "cli_user cred o' =
     (let user = takeWhile (\<lambda>c. c \<noteq> CHR '':'') cred
      in if CHR '':'' \<notin> set cred \<or> user = [] then cli_error ''--ua-user expects user:pass (non-empty user)'' o'
         else o'\<lparr>cli_ua_users := cli_ua_users o' @ [(user, drop (length user + 1) cred)]\<rparr>)"

definition cli_period :: "string \<Rightarrow> cli_options \<Rightarrow> cli_options" where
  "cli_period s o' = (case stoi s of
     Some n \<Rightarrow> o'\<lparr>cli_watch_period_ms := n\<rparr>
   | None \<Rightarrow> cli_error ''invalid --period-ms value'' o')"

definition cli_capacity :: "string \<Rightarrow> cli_options \<Rightarrow> cli_options" where
  "cli_capacity s o' = (case stoi s of
     Some n \<Rightarrow> if n < 1 then cli_error ''--historian-capacity must be >= 1'' o'
               else o'\<lparr>cli_historian_capacity := nat n\<rparr>
   | None \<Rightarrow> cli_error ''invalid --historian-capacity value'' o')"

definition cli_level :: "string \<Rightarrow> cli_options \<Rightarrow> cli_options" where
  "cli_level s o' = (case parse_log_level s of
     Some l \<Rightarrow> o'\<lparr>cli_log_level := l\<rparr>
   | None \<Rightarrow> cli_error ''invalid --log-level (use trace|debug|info|warn|error)'' o')"

definition cli_metrics :: "string \<Rightarrow> cli_options \<Rightarrow> cli_options" where
  "cli_metrics s o' = (case parse_metrics_export s of
     Some m \<Rightarrow> o'\<lparr>cli_metrics_export := m\<rparr>
   | None \<Rightarrow> cli_error ''invalid --metrics-export (use none|ostream|otlp)'' o')"

definition cli_traces :: "string \<Rightarrow> cli_options \<Rightarrow> cli_options" where
  "cli_traces s o' = (case parse_metrics_export s of
     Some m \<Rightarrow> o'\<lparr>cli_traces_export := m\<rparr>
   | None \<Rightarrow> cli_error ''invalid --traces-export (use none|ostream|otlp)'' o')"

text \<open>Options with a value: what is missing without one, and the effect of the value.\<close>

definition cli_valued :: "(string \<times> string \<times> (string \<Rightarrow> cli_options \<Rightarrow> cli_options)) list" where
  "cli_valued = [
     (''--ua-user'', ''user:pass'', cli_user),
     (''--ua-cert'', ''a path'', \<lambda>v. cli_ua_cert_path_update (\<lambda>_. v)),
     (''--ua-key'', ''a path'', \<lambda>v. cli_ua_key_path_update (\<lambda>_. v)),
     (''--ua-trust'', ''a path'', \<lambda>v. cli_ua_trust_paths_update (\<lambda>vs. vs @ [v])),
     (''--ua-crl'', ''a path'', \<lambda>v. cli_ua_revocation_paths_update (\<lambda>vs. vs @ [v])),
     (''--project'', ''a path'', \<lambda>v. cli_project_path_update (\<lambda>_. v)),
     (''--period-ms'', ''a number'', cli_period),
     (''--historian-capacity'', ''a number'', cli_capacity),
     (''--historian-db'', ''a path'', \<lambda>v. cli_historian_db_update (\<lambda>_. v)),
     (''--frame-log'', ''a path'', \<lambda>v. cli_frame_log_path_update (\<lambda>_. v)),
     (''--log-level'', ''a value'', cli_level),
     (''--log-file'', ''a path'', \<lambda>v. cli_log_file_update (\<lambda>_. v)),
     (''--metrics-export'', ''a value'', cli_metrics),
     (''--traces-export'', ''a value'', cli_traces),
     (''--otlp-endpoint'', ''a URL'', \<lambda>v. cli_otlp_endpoint_update (\<lambda>_. v))]"

fun parse_args :: "string list \<Rightarrow> cli_options \<Rightarrow> cli_options" where
  "parse_args [] o' = o'"
| "parse_args (arg # args) o' = (case map_of cli_flags arg of
     Some f \<Rightarrow> parse_args args (f o')
   | None \<Rightarrow> (case map_of cli_valued arg of
       Some (needs, set_value) \<Rightarrow> (case args of
         [] \<Rightarrow> cli_error (arg @ '' requires '' @ needs) o'
       | v # rest \<Rightarrow> parse_args rest (set_value v o'))
     | None \<Rightarrow> parse_args args (cli_error (''unknown argument: '' @ arg) o')))"

definition parse_cli :: "string list \<Rightarrow> cli_options" where
  "parse_cli args =
     (let o' = parse_args args default_cli_options
      in if cli_watch_period_ms o' < 10 then cli_error ''--period-ms must be >= 10'' o' else o')"

section \<open>Command lines without errors\<close>

definition value_ok :: "string \<Rightarrow> string \<Rightarrow> bool" where
  "value_ok arg v \<longleftrightarrow>
     (arg = ''--ua-user'' \<longrightarrow> (\<exists>user pass. v = user @ '':'' @ pass \<and> user \<noteq> [] \<and> CHR '':'' \<notin> set user)) \<and>
     (arg = ''--period-ms'' \<longrightarrow> stoi v \<noteq> None) \<and>
     (arg = ''--historian-capacity'' \<longrightarrow> (\<exists>n. stoi v = Some n \<and> 1 \<le> n)) \<and>
     (arg = ''--log-level'' \<longrightarrow> parse_log_level v \<noteq> None) \<and>
     (arg = ''--metrics-export'' \<or> arg = ''--traces-export'' \<longrightarrow> parse_metrics_export v \<noteq> None)"

fun args_ok :: "string list \<Rightarrow> bool" where
  "args_ok [] = True"
| "args_ok (arg # args) =
     (if arg \<in> fst ` set cli_flags then args_ok args
      else arg \<in> fst ` set cli_valued \<and> (case args of [] \<Rightarrow> False | v # rest \<Rightarrow> value_ok arg v \<and> args_ok rest))"

lemma cli_error_fields [simp]: "cli_errors (cli_error m o') = cli_errors o' @ [m]"
  "cli_watch_period_ms (cli_error m o') = cli_watch_period_ms o'" "cli_historian_capacity (cli_error m o') = cli_historian_capacity o'"
  "cli_ua_users (cli_error m o') = cli_ua_users o'"
  by (simp_all add: cli_error_def)

text \<open>Every flag leaves the errors, the period, the capacity and the users alone.\<close>

lemma cli_flag_fields:
  "map_of cli_flags arg = Some f \<Longrightarrow> cli_errors (f o') = cli_errors o' \<and> cli_watch_period_ms (f o') = cli_watch_period_ms o' \<and>
     cli_historian_capacity (f o') = cli_historian_capacity o' \<and> cli_ua_users (f o') = cli_ua_users o'"
  by (drule map_of_SomeD) (auto simp: cli_flags_def)

lemma colon_split:
  "CHR '':'' \<in> set v \<and> takeWhile (\<lambda>c. c \<noteq> CHR '':'') v \<noteq> [] \<longleftrightarrow>
   (\<exists>user pass. v = user @ '':'' @ pass \<and> user \<noteq> [] \<and> CHR '':'' \<notin> set user)" (is "?l \<longleftrightarrow> ?r")
proof
  assume a: ?l
  then obtain u p where v: "v = u @ CHR '':'' # p" "CHR '':'' \<notin> set u" by (meson split_list_first)
  with a have "u \<noteq> []" by auto
  with v show ?r by (intro exI [of _ u] exI [of _ p]) simp
next
  assume ?r
  then obtain u p where v: "v = u @ CHR '':'' # p" "u \<noteq> []" "CHR '':'' \<notin> set u" by auto
  then show ?l by (cases u) auto
qed

lemma cli_user_errors: "cli_errors (cli_user v o') = [] \<longleftrightarrow> cli_errors o' = [] \<and> value_ok ''--ua-user'' v"
proof -
  have "value_ok ''--ua-user'' v \<longleftrightarrow> CHR '':'' \<in> set v \<and> takeWhile (\<lambda>c. c \<noteq> CHR '':'') v \<noteq> []"
    unfolding colon_split by (simp add: value_ok_def)
  then show ?thesis by (simp add: cli_user_def Let_def)
qed

lemma cli_valued_errors:
  assumes "map_of cli_valued arg = Some (needs, g)"
  shows "cli_errors (g v o') = [] \<longleftrightarrow> cli_errors o' = [] \<and> value_ok arg v"
proof (cases "arg = ''--ua-user''")
  case True
  then show ?thesis using assms cli_user_errors by (simp add: cli_valued_def)
next
  case False
  then show ?thesis using map_of_SomeD [OF assms] unfolding cli_valued_def
    by (simp only: set_simps insert_iff empty_iff prod.inject simp_thms, elim disjE conjE)
      (simp_all add: value_ok_def cli_period_def cli_capacity_def cli_level_def cli_metrics_def cli_traces_def not_less
        split: option.split)
qed

lemma parse_args_errors: "cli_errors (parse_args args o') = [] \<longleftrightarrow> cli_errors o' = [] \<and> args_ok args"
proof (induction args o' rule: parse_args.induct)
  case (2 arg args o')
  show ?case
  proof (cases "map_of cli_flags arg")
    case (Some f)
    then show ?thesis using "2.IH"(3) [OF Some] cli_flag_fields [OF Some] map_of_SomeD [OF Some] by force
  next
    case None
    then have nf: "arg \<notin> fst ` set cli_flags" by (simp add: map_of_eq_None_iff)
    show ?thesis
    proof (cases "map_of cli_valued arg")
      case v: None
      then have "arg \<notin> fst ` set cli_valued" by (simp add: map_of_eq_None_iff)
      then show ?thesis using None nf v "2.IH"(1) [OF None v] by simp
    next
      case v: (Some ng)
      obtain needs g where ng: "ng = (needs, g)" by (cases ng)
      have "arg \<in> fst ` set cli_valued" using map_of_SomeD [OF v] by force
      then show ?thesis using None nf v cli_valued_errors [OF v [unfolded ng]] "2.IH"(2) [OF None v ng [symmetric]]
        by (cases args) (auto simp: ng)
    qed
  qed
qed simp


text \<open>The values that reach the application are within their bounds.\<close>

definition cli_sane :: "cli_options \<Rightarrow> bool" where
  "cli_sane o' \<longleftrightarrow> 1 \<le> cli_historian_capacity o' \<and> cli_historian_capacity o' < 2 ^ 31 \<and> cli_watch_period_ms o' < 2 ^ 31 \<and>
     list_all (\<lambda>(user, pass). user \<noteq> [] \<and> CHR '':'' \<notin> set user) (cli_ua_users o')"

lemma stoi_range: "stoi s = Some n \<Longrightarrow> - (2 ^ 31) \<le> n \<and> n < 2 ^ 31"
  by (auto simp: stoi_def read_int_def split: option.splits if_splits prod.splits)

lemma cli_valued_sane:
  assumes "map_of cli_valued arg = Some (needs, g)" "cli_sane o'" shows "cli_sane (g v o')"
  using map_of_SomeD [OF assms(1)] assms(2)
  by (auto simp: cli_valued_def cli_sane_def cli_user_def cli_period_def cli_capacity_def cli_level_def cli_metrics_def
      cli_traces_def Let_def nat_less_iff dest: stoi_range [simplified] set_takeWhileD split: option.splits)

lemma parse_args_sane: "cli_sane o' \<Longrightarrow> cli_sane (parse_args args o')"
proof (induction args o' rule: parse_args.induct)
  case (2 arg args o')
  then show ?case
    using cli_valued_sane cli_flag_fields [of arg]
    by (auto simp: cli_sane_def split: option.split list.split)
qed simp

text \<open>
  Whatever the command line, the options have a historian capacity of at least one, and users
  with a name free of colons; without errors the watch period is at least 10 ms.
\<close>

theorem parse_cli_bounds:
  "cli_sane (parse_cli args) \<and> (cli_errors (parse_cli args) = [] \<longrightarrow> 10 \<le> cli_watch_period_ms (parse_cli args))"
proof -
  have "cli_sane (parse_args args default_cli_options)"
    by (rule parse_args_sane) (simp add: cli_sane_def default_cli_options_def)
  then show ?thesis by (auto simp: parse_cli_def cli_sane_def Let_def)
qed

theorem parse_cli_bounds_witness:
  "cli_sane (parse_cli []) \<and> cli_errors (parse_cli []) = [] \<and> 10 \<le> cli_watch_period_ms (parse_cli [])"
  using parse_cli_bounds [of "[]"] by (simp add: parse_cli_def default_cli_options_def Let_def)

end
