(* ===== verification/Floating.thy ===== *)
theory Floating
  imports Gateway_Prelude
begin

text \<open>
  The floating-point arithmetic of the C++ \<open>float\<close> and \<open>double\<close> types (IEEE 754 binary32 and
  binary64, round to nearest, ties to even), as the codec of \<open>Src/core/translator.cpp\<close> uses it:
  \<open>+\<close>, \<open>-\<close>, \<open>*\<close>, \<open>/\<close>, comparisons, \<open>std::isfinite\<close>, \<open>std::round\<close>, \<open>std::abs\<close>, conversions
  between the two formats and the integers, and the bit patterns \<open>std::memcpy\<close> moves.
  A finite number is a sign, a mantissa and an exponent, standing for \<open>m * 2 ^ e\<close>; every operation is
  computed exactly on natural numbers and rounded once. All quiet and signalling NaNs are one
  value: no operation of the codec reads the payload of one, and the encoder rejects it.
\<close>

section \<open>Formats and values\<close>

datatype fp = FNaN | FInf bool | FNum bool nat int

record fp_format =
  prec :: nat
  emin :: int
  emax :: int

definition binary64 :: fp_format where
  "binary64 = \<lparr>prec = 53, emin = -1074, emax = 971\<rparr>"

definition binary32 :: fp_format where
  "binary32 = \<lparr>prec = 24, emin = -149, emax = 104\<rparr>"

definition canonical :: "fp_format \<Rightarrow> nat \<Rightarrow> int \<Rightarrow> bool" where
  "canonical f m e \<longleftrightarrow> m < 2 ^ prec f \<and> emin f \<le> e \<and> e \<le> emax f \<and>
     (2 ^ (prec f - 1) \<le> m \<or> e = emin f)"

fun fp_wf :: "fp_format \<Rightarrow> fp \<Rightarrow> bool" where
  "fp_wf f (FNum s m e) = canonical f m e"
| "fp_wf f x = True"

fun fp_isfinite :: "fp \<Rightarrow> bool" where
  "fp_isfinite (FNum s m e) = True"
| "fp_isfinite x = False"

definition fp_zero :: "fp_format \<Rightarrow> bool \<Rightarrow> fp" where
  "fp_zero f s = FNum s 0 (emin f)"

section \<open>Rounding\<close>

text \<open>\<open>fp_log2 a b\<close> is the integer part of the binary logarithm of \<open>a / b\<close>.\<close>

definition pow2_le :: "nat \<Rightarrow> int \<Rightarrow> nat \<Rightarrow> bool" where
  "pow2_le b k a \<longleftrightarrow> b * 2 ^ nat k \<le> a * 2 ^ nat (- k)"

definition fp_log2 :: "nat \<Rightarrow> nat \<Rightarrow> int" where
  "fp_log2 a b = (let k = int (floorlog 2 a) - int (floorlog 2 b)
                  in if pow2_le b k a then k else k - 1)"

definition round_half_even :: "nat \<Rightarrow> nat \<Rightarrow> nat" where
  "round_half_even a b = (let q = a div b; r = a mod b
                          in if 2 * r > b \<or> (2 * r = b \<and> odd q) then q + 1 else q)"

definition fp_round :: "fp_format \<Rightarrow> bool \<Rightarrow> nat \<Rightarrow> nat \<Rightarrow> fp" where
  "fp_round f s a b =
     (if a = 0 then fp_zero f s
      else let e = max (fp_log2 a b - int (prec f - 1)) (emin f);
               m = round_half_even (a * 2 ^ nat (- e)) (b * 2 ^ nat e)
           in if m = 2 ^ prec f
              then (if e + 1 > emax f then FInf s else FNum s (2 ^ (prec f - 1)) (e + 1))
              else if e > emax f then FInf s else FNum s m e)"

definition fp_round_dyadic :: "fp_format \<Rightarrow> bool \<Rightarrow> nat \<Rightarrow> int \<Rightarrow> fp" where
  "fp_round_dyadic f s m e = fp_round f s (m * 2 ^ nat e) (2 ^ nat (- e))"

section \<open>Operations\<close>

fun fp_neg :: "fp \<Rightarrow> fp" where
  "fp_neg FNaN = FNaN"
| "fp_neg (FInf s) = FInf (\<not> s)"
| "fp_neg (FNum s m e) = FNum (\<not> s) m e"

fun fp_abs :: "fp \<Rightarrow> fp" where
  "fp_abs FNaN = FNaN"
| "fp_abs (FInf s) = FInf False"
| "fp_abs (FNum s m e) = FNum False m e"

text \<open>The signed integer \<open>x * 2 ^ (-k)\<close> of a finite number with exponent at least \<open>k\<close>.\<close>

definition fp_scaled :: "bool \<Rightarrow> nat \<Rightarrow> int \<Rightarrow> int \<Rightarrow> int" where
  "fp_scaled s m e k = (if s then - 1 else 1) * int (m * 2 ^ nat (e - k))"

fun fp_add :: "fp_format \<Rightarrow> fp \<Rightarrow> fp \<Rightarrow> fp" where
  "fp_add f (FNum s m e) (FNum t n d) =
     (let k = min e d; c = fp_scaled s m e k + fp_scaled t n d k
      in if c = 0 then fp_zero f (s \<and> t)
         else fp_round_dyadic f (c < 0) (nat \<bar>c\<bar>) k)"
| "fp_add f FNaN y = FNaN"
| "fp_add f x FNaN = FNaN"
| "fp_add f (FInf s) (FInf t) = (if s = t then FInf s else FNaN)"
| "fp_add f (FInf s) y = FInf s"
| "fp_add f x (FInf t) = FInf t"

definition fp_sub :: "fp_format \<Rightarrow> fp \<Rightarrow> fp \<Rightarrow> fp" where
  "fp_sub f x y = fp_add f x (fp_neg y)"

fun fp_mul :: "fp_format \<Rightarrow> fp \<Rightarrow> fp \<Rightarrow> fp" where
  "fp_mul f (FNum s m e) (FNum t n d) = fp_round_dyadic f (s \<noteq> t) (m * n) (e + d)"
| "fp_mul f FNaN y = FNaN"
| "fp_mul f x FNaN = FNaN"
| "fp_mul f (FInf s) (FInf t) = FInf (s \<noteq> t)"
| "fp_mul f (FInf s) (FNum t n d) = (if n = 0 then FNaN else FInf (s \<noteq> t))"
| "fp_mul f (FNum s m e) (FInf t) = (if m = 0 then FNaN else FInf (s \<noteq> t))"

fun fp_div :: "fp_format \<Rightarrow> fp \<Rightarrow> fp \<Rightarrow> fp" where
  "fp_div f (FNum s m e) (FNum t n d) =
     (if n = 0 then (if m = 0 then FNaN else FInf (s \<noteq> t))
      else fp_round f (s \<noteq> t) (m * 2 ^ nat (e - d)) (n * 2 ^ nat (d - e)))"
| "fp_div f FNaN y = FNaN"
| "fp_div f x FNaN = FNaN"
| "fp_div f (FInf s) (FInf t) = FNaN"
| "fp_div f (FInf s) (FNum t n d) = FInf (s \<noteq> t)"
| "fp_div f (FNum s m e) (FInf t) = fp_zero f (s \<noteq> t)"

fun fp_less :: "fp \<Rightarrow> fp \<Rightarrow> bool" where
  "fp_less (FNum s m e) (FNum t n d) =
     (let k = min e d in fp_scaled s m e k < fp_scaled t n d k)"
| "fp_less FNaN y = False"
| "fp_less x FNaN = False"
| "fp_less (FInf s) (FInf t) = (s \<and> \<not> t)"
| "fp_less (FInf s) y = s"
| "fp_less x (FInf t) = (\<not> t)"

fun fp_eq :: "fp \<Rightarrow> fp \<Rightarrow> bool" where
  "fp_eq (FNum s m e) (FNum t n d) =
     (let k = min e d in fp_scaled s m e k = fp_scaled t n d k)"
| "fp_eq (FInf s) (FInf t) = (s = t)"
| "fp_eq x y = False"

text \<open>Conversions: \<open>static_cast\<close> between the formats, from and to the integers; \<open>std::round\<close>.\<close>

fun fp_cast :: "fp_format \<Rightarrow> fp \<Rightarrow> fp" where
  "fp_cast f (FNum s m e) = fp_round_dyadic f s m e"
| "fp_cast f x = x"

definition fp_of_int :: "fp_format \<Rightarrow> int \<Rightarrow> fp" where
  "fp_of_int f i = fp_round f (i < 0) (nat \<bar>i\<bar>) 1"

text \<open>Magnitude rounded half away from zero, and truncated.\<close>

definition mag_round :: "nat \<Rightarrow> int \<Rightarrow> nat" where
  "mag_round m e = (m * 2 ^ nat e * 2 + 2 ^ nat (- e)) div (2 * 2 ^ nat (- e))"

definition mag_trunc :: "nat \<Rightarrow> int \<Rightarrow> nat" where
  "mag_trunc m e = (m * 2 ^ nat e) div 2 ^ nat (- e)"

fun fp_roundint :: "fp_format \<Rightarrow> fp \<Rightarrow> fp" where
  "fp_roundint f (FNum s m e) = fp_round f s (mag_round m e) 1"
| "fp_roundint f x = x"

fun fp_to_int :: "fp \<Rightarrow> int" where
  "fp_to_int (FNum s m e) = (if s then - 1 else 1) * int (mag_trunc m e)"
| "fp_to_int x = 0"

text \<open>Bit patterns of the two formats.\<close>

definition fp_of_fields :: "fp_format \<Rightarrow> nat \<Rightarrow> bool \<Rightarrow> nat \<Rightarrow> nat \<Rightarrow> fp" where
  "fp_of_fields f etop s ex fr =
     (if ex = etop then (if fr = 0 then FInf s else FNaN)
      else if ex = 0 then FNum s fr (emin f)
      else FNum s (fr + 2 ^ (prec f - 1)) (emin f + int ex - 1))"

definition fp_of_bits64 :: "u64 \<Rightarrow> fp" where
  "fp_of_bits64 w = (let n = unat w in
     fp_of_fields binary64 2047 (n div 2 ^ 63 = 1) (n div 2 ^ 52 mod 2 ^ 11) (n mod 2 ^ 52))"

definition fp_of_bits32 :: "u32 \<Rightarrow> fp" where
  "fp_of_bits32 w = (let n = unat w in
     fp_of_fields binary32 255 (n div 2 ^ 31 = 1) (n div 2 ^ 23 mod 2 ^ 8) (n mod 2 ^ 23))"

text \<open>Sign, exponent field and fraction field; \<open>etop\<close> is the exponent field of infinities.\<close>

fun fp_fields :: "fp_format \<Rightarrow> nat \<Rightarrow> fp \<Rightarrow> bool \<times> nat \<times> nat" where
  "fp_fields f etop (FNum s m e) =
     (if m < 2 ^ (prec f - 1) then (s, 0, m)
      else (s, nat (e - emin f + 1), m - 2 ^ (prec f - 1)))"
| "fp_fields f etop (FInf s) = (s, etop, 0)"
| "fp_fields f etop FNaN = (False, etop, 2 ^ (prec f - 2))"

definition fp_to_bits64 :: "fp \<Rightarrow> u64" where
  "fp_to_bits64 x = (case fp_fields binary64 2047 x of (s, ex, fr) \<Rightarrow>
     of_nat (of_bool s * 2 ^ 63 + ex * 2 ^ 52 + fr))"

definition fp_to_bits32 :: "fp \<Rightarrow> u32" where
  "fp_to_bits32 x = (case fp_fields binary32 255 x of (s, ex, fr) \<Rightarrow>
     of_nat (of_bool s * 2 ^ 31 + ex * 2 ^ 23 + fr))"

definition fp_one :: fp where "fp_one = FNum False (2 ^ 52) (- 52)"

abbreviation fp_zero64 :: fp where "fp_zero64 \<equiv> FNum False 0 (- 1074)"

section \<open>Exact rounding\<close>

lemma powi2_split: "(2::real) powi k = 2 ^ nat k / 2 ^ nat (- k)"
  by (cases "0 \<le> k") (auto simp: power_int_def field_simps)

lemma pow2_le_iff: "0 < b \<Longrightarrow> pow2_le b k a \<longleftrightarrow> 2 powi k \<le> real a / real b"
proof -
  assume b: "0 < b"
  have "pow2_le b k a \<longleftrightarrow> real (b * 2 ^ nat k) \<le> real (a * 2 ^ nat (- k))"
    unfolding pow2_le_def of_nat_le_iff ..
  also have "\<dots> \<longleftrightarrow> 2 ^ nat k / 2 ^ nat (- k) \<le> real a / real b"
    using b by (simp add: field_simps)
  finally show ?thesis by (simp only: powi2_split)
qed

lemma floorlog_powi_bounds:
  assumes "0 < a"
  shows "2 powi (int (floorlog 2 a) - 1) \<le> real a" and "real a < 2 powi (int (floorlog 2 a))"
proof -
  let ?l = "floorlog 2 a"
  have bd: "2 ^ (?l - 1) \<le> a" "a < 2 ^ ?l"
    using floorlog_bounds [of a 2] assms by auto
  have l: "0 < ?l"
    using floorlog_eq_zero_iff [of 2 a] assms by (cases ?l) auto
  have "(2::real) powi (int ?l - 1) = 2 ^ (?l - 1)"
    using l by (simp add: power_int_def nat_diff_distrib)
  moreover have "real (2 ^ (?l - 1)) \<le> real a"
    using bd(1) unfolding of_nat_le_iff .
  ultimately show "2 powi (int ?l - 1) \<le> real a" by simp
  have "real a < real (2 ^ ?l)"
    using bd(2) unfolding of_nat_less_iff .
  then show "real a < 2 powi (int ?l)" by (simp add: power_int_def)
qed

lemma fp_log2_bounds:
  assumes "0 < a" "0 < b"
  shows "2 powi (fp_log2 a b) \<le> real a / real b" and "real a / real b < 2 powi (fp_log2 a b + 1)"
proof -
  let ?k = "int (floorlog 2 a) - int (floorlog 2 b)"
  note ba = floorlog_powi_bounds [OF assms(1)] and bb = floorlog_powi_bounds [OF assms(2)]
  have "real a < 2 powi (int (floorlog 2 a))" by (rule ba(2))
  also have "\<dots> = 2 powi (?k + 1) * 2 powi (int (floorlog 2 b) - 1)"
    by (simp flip: power_int_add)
  also have "\<dots> \<le> 2 powi (?k + 1) * real b"
    by (rule mult_left_mono [OF bb(1)]) simp
  finally have up: "real a / real b < 2 powi (?k + 1)"
    using assms(2) by (simp add: field_simps)
  have "2 powi (?k - 1) * real b \<le> 2 powi (?k - 1) * 2 powi (int (floorlog 2 b))"
    by (rule mult_left_mono) (use bb(2) in simp_all)
  also have "\<dots> = 2 powi (?k - 1 + int (floorlog 2 b))"
    by (rule power_int_add [symmetric]) simp
  also have "\<dots> = 2 powi (int (floorlog 2 a) - 1)" by simp
  also have "\<dots> \<le> real a" by (rule ba(1))
  finally have lo: "2 powi (?k - 1) \<le> real a / real b"
    using assms(2) by (simp add: field_simps)
  show "2 powi (fp_log2 a b) \<le> real a / real b"
    using lo assms(2) by (auto simp: fp_log2_def Let_def pow2_le_iff)
  show "real a / real b < 2 powi (fp_log2 a b + 1)"
    using up assms(2) by (auto simp: fp_log2_def Let_def pow2_le_iff)
qed

lemma powi2_less_cancel: "(2::real) powi j < 2 powi k \<Longrightarrow> j < k"
  using power_int_increasing [of k j "2::real"] by fastforce

lemma fp_log2_unique:
  assumes "0 < a" "0 < b" "2 powi k \<le> real a / real b" "real a / real b < 2 powi (k + 1)"
  shows "fp_log2 a b = k"
proof -
  note bd = fp_log2_bounds [OF assms(1,2)]
  have "k < fp_log2 a b + 1" "fp_log2 a b < k + 1"
    by (rule powi2_less_cancel, use assms(3,4) bd in linarith)+
  then show ?thesis by simp
qed

lemma round_half_even_exact [simp]: "0 < b \<Longrightarrow> round_half_even (m * b) b = m"
  by (simp add: round_half_even_def Let_def)


lemma dyadic_nat_eq:
  assumes "real a = real b * (real m * 2 powi e)"
  shows "a * 2 ^ nat (- e) = m * (b * 2 ^ nat e)"
proof -
  have "real (a * 2 ^ nat (- e)) = real (m * (b * 2 ^ nat e))"
    by (simp add: assms powi2_split)
  then show ?thesis by (simp only: of_nat_eq_iff)
qed

lemma canonical_log2:
  assumes m: "0 < m" and c: "canonical f m e" and p: "0 < prec f"
    and b: "0 < b" and r: "real a / real b = real m * 2 powi e"
  shows "max (fp_log2 a b - int (prec f - 1)) (emin f) = e"
proof -
  let ?l = "floorlog 2 m"
  have "0 < real a / real b" unfolding r using m by simp
  then have a: "0 < a" by (cases a) auto
  have "fp_log2 a b = int ?l - 1 + e"
  proof (rule fp_log2_unique [OF a b])
    show "2 powi (int ?l - 1 + e) \<le> real a / real b"
      unfolding r using floorlog_powi_bounds(1) [OF m] by (simp add: power_int_add)
    have "real m * 2 powi e < 2 powi (int ?l) * 2 powi e"
      by (rule mult_strict_right_mono [OF floorlog_powi_bounds(2) [OF m]]) simp
    also have "\<dots> = 2 powi (int ?l + e)" by (rule power_int_add [symmetric]) simp
    finally show "real a / real b < 2 powi (int ?l - 1 + e + 1)"
      unfolding r by (simp add: algebra_simps)
  qed
  moreover have "?l \<le> prec f"
    using c by (auto simp: canonical_def intro: floorlog_leI)
  moreover have "2 ^ (prec f - 1) \<le> m \<Longrightarrow> prec f \<le> ?l"
    by (rule floorlog_geI) auto
  ultimately show ?thesis
    using c p by (auto simp: canonical_def max_def of_nat_diff)
qed

lemma fp_round_exact:
  assumes c: "canonical f m e" and p: "0 < prec f"
    and b: "0 < b" and r: "real a = real b * (real m * 2 powi e)"
  shows "fp_round f s a b = FNum s m e"
proof (cases "m = 0")
  case True
  with r c show ?thesis by (auto simp: fp_round_def fp_zero_def canonical_def)
next
  case False
  then have "0 < real a" unfolding r using b by simp
  then have a: "a \<noteq> 0" by simp
  have e: "max (fp_log2 a b - int (prec f - 1)) (emin f) = e"
    by (rule canonical_log2 [OF _ c p b]) (use False r b in simp_all)
  have m: "round_half_even (a * 2 ^ nat (- e)) (b * 2 ^ nat e) = m"
    unfolding dyadic_nat_eq [OF r] using b by simp
  show ?thesis
    using a c unfolding fp_round_def Let_def e m by (auto simp: canonical_def)
qed

lemma fp_round_dyadic_exact:
  assumes "canonical f m e" "0 < prec f" "real n * 2 powi d = real m * 2 powi e"
  shows "fp_round_dyadic f s n d = FNum s m e"
  unfolding fp_round_dyadic_def
proof (rule fp_round_exact [OF assms(1,2)])
  show "real (n * 2 ^ nat d) = real (2 ^ nat (- d)) * (real m * 2 powi e)"
    unfolding assms(3) [symmetric] powi2_split [of d] by simp
qed simp

section \<open>Values\<close>

fun fp_val :: "fp \<Rightarrow> real" where
  "fp_val (FNum s m e) = (if s then - 1 else 1) * (real m * 2 powi e)"
| "fp_val x = 0"

lemma fp_scaled_val: "k \<le> e \<Longrightarrow> real_of_int (fp_scaled s m e k) * 2 powi k = fp_val (FNum s m e)"
proof -
  assume "k \<le> e"
  then have "(2::real) ^ nat (e - k) * 2 powi k = 2 powi (e - k) * 2 powi k"
    by (simp add: power_int_def)
  also have "\<dots> = 2 powi (e - k + k)" by (rule power_int_add [symmetric]) simp
  finally have "(2::real) ^ nat (e - k) * 2 powi k = 2 powi e" by simp
  then show ?thesis by (simp add: fp_scaled_def mult.assoc)
qed

lemma fp_less_val: "fp_less (FNum s m e) (FNum t n d) \<longleftrightarrow> fp_val (FNum s m e) < fp_val (FNum t n d)"
proof -
  let ?k = "min e d"
  have "fp_val (FNum s m e) < fp_val (FNum t n d) \<longleftrightarrow>
      real_of_int (fp_scaled s m e ?k) * 2 powi ?k < real_of_int (fp_scaled t n d ?k) * 2 powi ?k"
    by (simp only: fp_scaled_val min.cobounded1 min.cobounded2)
  then show ?thesis by (simp add: Let_def)
qed

section \<open>Operations that do not round\<close>

lemma prec_pos [simp]: "0 < prec binary64" "0 < prec binary32"
  by (simp_all add: binary64_def binary32_def)

lemma powi2_neg52: "(2::real) ^ 52 * 2 powi (e - 52) = 2 powi e"
proof -
  have "(2::real) ^ 52 * 2 powi (e - 52) = 2 powi 52 * 2 powi (e - 52)" by simp
  also have "\<dots> = 2 powi (52 + (e - 52))" by (rule power_int_add [symmetric]) simp
  finally show ?thesis by simp
qed

lemma fp_mul_one [fp_exact]:
  assumes "fp_wf binary64 x" shows "fp_mul binary64 x fp_one = x"
proof (cases x)
  case (FNum s m e)
  have "fp_round_dyadic binary64 s (m * 2 ^ 52) (e + - 52) = FNum s m e"
    by (rule fp_round_dyadic_exact) (use assms FNum powi2_neg52 [of e] in \<open>simp_all add: mult.assoc\<close>)
  then show ?thesis using FNum by (simp add: fp_one_def)
qed (simp_all add: fp_one_def)

lemma fp_div_one [fp_exact]:
  assumes "fp_wf binary64 x" shows "fp_div binary64 x fp_one = x"
proof (cases x)
  case (FNum s m e)
  have "fp_round binary64 s (m * 2 ^ nat (e - - 52)) (2 ^ 52 * 2 ^ nat (- 52 - e)) = FNum s m e"
  proof (rule fp_round_exact)
    have [simp]: "- 52 - e = - e - 52" by simp
    have "(2::real) ^ nat (e + 52) = 2 ^ nat (- 52 - e) * 2 powi (e + 52)"
      using powi2_split [of "e + 52"] by simp
    also have "(2::real) powi (e + 52) = 2 ^ 52 * 2 powi e"
      using powi2_neg52 [of "e + 52"] by simp
    finally show "real (m * 2 ^ nat (e - - 52)) = real (2 ^ 52 * 2 ^ nat (- 52 - e)) * (real m * 2 powi e)"
      by simp
  qed (use assms FNum in simp_all)
  then show ?thesis using FNum by (simp add: fp_one_def)
qed (simp_all add: fp_one_def)

lemma fp_add_zero [fp_exact]:
  assumes "fp_wf f x" "0 < prec f" "\<forall>e. x \<noteq> FNum True 0 e \<or> t" "emin f \<le> d"
  shows "fp_add f x (FNum t 0 d) = x"
proof (cases x)
  case (FNum s m e)
  let ?k = "min e d"
  let ?c = "fp_scaled s m e ?k"
  show ?thesis
  proof (cases "m = 0")
    case True
    then show ?thesis
      using FNum assms by (auto simp: fp_scaled_def fp_zero_def canonical_def)
  next
    case False
    have v: "real_of_int ?c * 2 powi ?k = fp_val x"
      by (simp add: fp_scaled_val FNum del: fp_val.simps)
    have "fp_round_dyadic f (?c < 0) (nat \<bar>?c\<bar>) ?k = FNum s m e"
    proof -
      have s: "(?c < 0) = s" and nz: "?c \<noteq> 0"
        using False by (auto simp: fp_scaled_def not_less)
      have "real (nat \<bar>?c\<bar>) * 2 powi ?k = real m * 2 powi e"
        using v FNum by (auto simp: fp_scaled_def split: if_splits)
      then show ?thesis
        unfolding s by (intro fp_round_dyadic_exact) (use assms FNum in simp_all)
    qed
    moreover have "?c \<noteq> 0" using False by (auto simp: fp_scaled_def)
    moreover have "fp_scaled t 0 d ?k = 0" by (simp add: fp_scaled_def)
    ultimately show ?thesis using FNum by (simp add: Let_def)
  qed
qed simp_all


lemma fp_sub_zero [fp_exact]:
  assumes "fp_wf binary64 x" shows "fp_sub binary64 x fp_zero64 = x"
  unfolding fp_sub_def fp_neg.simps
  by (rule fp_add_zero) (use assms in \<open>auto simp: binary64_def\<close>)

section \<open>Integers\<close>

text \<open>Formats in which every integer below \<open>2 ^ prec\<close> has a finite representation.\<close>

definition int_format :: "fp_format \<Rightarrow> bool" where
  "int_format f \<longleftrightarrow> 0 < prec f \<and> emin f \<le> 1 - int (prec f) \<and> 0 \<le> emax f"

lemma int_format_binary [simp]: "int_format binary64" "int_format binary32"
  by (simp_all add: int_format_def binary64_def binary32_def)

lemma dyadic_representable:
  assumes "n < 2 ^ prec f" "0 < prec f" "emin f \<le> e + 1 - int (prec f)" "e \<le> emax f"
  obtains m d where "canonical f m d" "real m * 2 powi d = real n * 2 powi e"
proof (cases "n = 0")
  case True
  show ?thesis
    by (rule that [of 0 "emin f"]) (use True assms in \<open>auto simp: canonical_def\<close>)
next
  case False
  let ?l = "floorlog 2 n" and ?p = "prec f"
  have lp: "?l \<le> ?p" using assms(1) by (intro floorlog_leI) auto
  have bd: "2 ^ (?l - 1) \<le> n" "n < 2 ^ ?l"
    using floorlog_bounds [of n 2] False by auto
  have l: "0 < ?l" using floorlog_eq_zero_iff [of 2 n] False by (cases ?l) auto
  have "n * 2 ^ (?p - ?l) < 2 ^ ?l * 2 ^ (?p - ?l)" using bd(2) by simp
  also have "\<dots> = 2 ^ ?p" using lp by (simp flip: power_add)
  finally have up: "n * 2 ^ (?p - ?l) < 2 ^ ?p" .
  have "2 ^ (?p - 1) = (2::nat) ^ (?l - 1) * 2 ^ (?p - ?l)"
    using lp l by (simp flip: power_add)
  also have "\<dots> \<le> n * 2 ^ (?p - ?l)" using bd(1) by simp
  finally have lo: "2 ^ (?p - 1) \<le> n * 2 ^ (?p - ?l)" .
  show ?thesis
  proof (rule that [of "n * 2 ^ (?p - ?l)" "int ?l - int ?p + e"])
    show "canonical f (n * 2 ^ (?p - ?l)) (int ?l - int ?p + e)"
      using up lo lp l assms by (auto simp: canonical_def)
    have "real (n * 2 ^ (?p - ?l)) * 2 powi (int ?l - int ?p) = real n"
      using lp powi2_split [of "int ?l - int ?p"] by (simp add: nat_diff_distrib)
    then show "real (n * 2 ^ (?p - ?l)) * 2 powi (int ?l - int ?p + e) = real n * 2 powi e"
      by (simp add: power_int_add)
  qed
qed

lemma nat_representable:
  assumes "n < 2 ^ prec f" "int_format f"
  obtains m e where "canonical f m e" "real m * 2 powi e = real n"
  using dyadic_representable [of n f 0] assms by (auto simp: int_format_def)

lemma fp_round_nat:
  assumes "n < 2 ^ prec f" "int_format f"
  obtains m e where "canonical f m e" "real m * 2 powi e = real n" "fp_round f s n 1 = FNum s m e"
proof -
  obtain m e where me: "canonical f m e" "real m * 2 powi e = real n"
    using nat_representable [OF assms] .
  moreover have "fp_round f s n 1 = FNum s m e"
    by (rule fp_round_exact) (use me assms in \<open>simp_all add: int_format_def\<close>)
  ultimately show thesis using that by blast
qed

lemma fp_of_int_exact:
  assumes "\<bar>i\<bar> < 2 ^ prec f" "int_format f"
  obtains m e where "canonical f m e" "real m * 2 powi e = real (nat \<bar>i\<bar>)"
    "fp_of_int f i = FNum (i < 0) m e"
proof -
  have "nat \<bar>i\<bar> < 2 ^ prec f" using assms(1) by (simp add: nat_less_iff)
  then show thesis
    using fp_round_nat [OF _ assms(2)] that unfolding fp_of_int_def by metis
qed

lemma mag_exact:
  assumes "real m * 2 powi e = real n"
  shows "mag_round m e = n" and "mag_trunc m e = n"
proof -
  let ?D = "2 ^ nat (- e) :: nat"
  have "real (m * 2 ^ nat e) = real (n * ?D)"
    by (simp add: assms [symmetric] powi2_split)
  then have eq: "m * 2 ^ nat e = n * ?D" by (simp only: of_nat_eq_iff)
  have "(n * ?D * 2 + ?D) div (2 * ?D) = n"
    by (rule div_nat_eqI) (simp_all add: algebra_simps)
  then show "mag_round m e = n" unfolding mag_round_def eq .
  show "mag_trunc m e = n" unfolding mag_trunc_def eq by simp
qed

lemma fp_wf_of_int [simp]: "\<bar>i\<bar> < 2 ^ prec f \<Longrightarrow> int_format f \<Longrightarrow> fp_wf f (fp_of_int f i)"
  by (erule (1) fp_of_int_exact) simp

lemma fp_val_of_int [simp]: "\<bar>i\<bar> < 2 ^ prec f \<Longrightarrow> int_format f \<Longrightarrow> fp_val (fp_of_int f i) = real_of_int i"
  by (erule (1) fp_of_int_exact) (auto simp: abs_if split: if_splits)

lemma fp_isfinite_of_int [simp]: "\<bar>i\<bar> < 2 ^ prec f \<Longrightarrow> int_format f \<Longrightarrow> fp_isfinite (fp_of_int f i)"
  by (erule (1) fp_of_int_exact) simp

lemma fp_to_int_of_int [fp_exact]:
  assumes "\<bar>i\<bar> < 2 ^ prec f" "int_format f"
  shows "fp_to_int (fp_of_int f i) = i"
proof -
  obtain m e where me: "real m * 2 powi e = real (nat \<bar>i\<bar>)" "fp_of_int f i = FNum (i < 0) m e"
    using fp_of_int_exact [OF assms] by metis
  show ?thesis
    by (subst me(2)) (simp add: mag_exact(2) [OF me(1)])
qed

lemma fp_roundint_of_int [fp_exact]:
  assumes "\<bar>i\<bar> < 2 ^ prec f" "int_format f"
  shows "fp_roundint f (fp_of_int f i) = fp_of_int f i"
proof -
  obtain m e where me: "real m * 2 powi e = real (nat \<bar>i\<bar>)" "fp_of_int f i = FNum (i < 0) m e"
    using fp_of_int_exact [OF assms] by metis
  show ?thesis
    by (subst me(2)) (simp add: mag_exact(1) [OF me(1)] fp_of_int_def)
qed

lemma fp_less_finite:
  "fp_isfinite x \<Longrightarrow> fp_isfinite y \<Longrightarrow> fp_less x y \<longleftrightarrow> fp_val x < fp_val y"
  by (cases x; cases y) (simp_all only: fp_less_val fp_isfinite.simps)

lemma fp_less_of_int [fp_exact]:
  "\<bar>i\<bar> < 2 ^ prec f \<Longrightarrow> \<bar>j\<bar> < 2 ^ prec f \<Longrightarrow> int_format f \<Longrightarrow>
    fp_less (fp_of_int f i) (fp_of_int f j) \<longleftrightarrow> i < j"
  by (simp add: fp_less_finite)

lemma fp_of_int_not_neg_zero:
  "\<bar>i\<bar> < 2 ^ prec f \<Longrightarrow> int_format f \<Longrightarrow> fp_of_int f i \<noteq> FNum True 0 e"
  by (erule (1) fp_of_int_exact) auto

section \<open>Rounding to integers\<close>

lemma mag_round_nearest: "\<bar>real (mag_round m e) - real m * 2 powi e\<bar> \<le> 1 / 2"
proof -
  let ?D = "2 ^ nat (- e) :: nat" and ?N = "m * 2 ^ nat e"
  have x: "real m * 2 powi e = real ?N / real ?D" by (simp add: powi2_split)
  let ?q = "(?N * 2 + ?D) div (2 * ?D)"
  have "?q * (2 * ?D) \<le> ?N * 2 + ?D" by (rule div_times_less_eq_dividend)
  then have "real (?q * (2 * ?D)) \<le> real (?N * 2 + ?D)" by (simp only: of_nat_le_iff)
  then have u: "real ?q \<le> real ?N / real ?D + 1 / 2" by (simp add: field_simps)
  have "?N * 2 + ?D < (?q + 1) * (2 * ?D)"
    using dividend_less_times_div [of "2 * ?D" "?N * 2 + ?D"] by (simp add: algebra_simps)
  then have "real (?N * 2 + ?D) < real ((?q + 1) * (2 * ?D))" by (simp only: of_nat_less_iff)
  then have "real ?N / real ?D - 1 / 2 \<le> real ?q" by (simp add: field_simps)
  with u show ?thesis unfolding mag_round_def x abs_le_iff by linarith
qed

lemma fp_roundint_exact:
  assumes "canonical f m e" "int_format f"
  obtains m' e' where "canonical f m' e'" "real m' * 2 powi e' = real (mag_round m e)"
    "fp_roundint f (FNum s m e) = FNum s m' e'"
proof (cases "0 \<le> e")
  case True
  then have "real m * 2 powi e = real (m * 2 ^ nat e)" by (simp add: power_int_def)
  then have v: "real m * 2 powi e = real (mag_round m e)"
    using mag_exact(1) [of m e "m * 2 ^ nat e"] by simp
  have "fp_round f s (mag_round m e) 1 = FNum s m e"
    by (rule fp_round_exact) (use assms v in \<open>simp_all add: int_format_def\<close>)
  then show ?thesis using that [OF assms(1) v] by simp
next
  case False
  have "real m * 2 powi e \<le> real m * 2 powi (- 1)"
    by (rule mult_left_mono [OF power_int_increasing]) (use False in auto)
  then have "real m * 2 powi e \<le> real m / 2" by (simp add: power_int_minus)
  then have "real (mag_round m e) \<le> real m / 2 + 1 / 2"
    using mag_round_nearest [of m e] unfolding abs_le_iff by linarith
  then have "mag_round m e \<le> m \<or> mag_round m e = 0" by (cases "m = 0") auto
  then have "mag_round m e < 2 ^ prec f"
    using assms(1) by (auto simp: canonical_def)
  then show ?thesis
    using fp_round_nat [OF _ assms(2), of "mag_round m e" s] that by (metis fp_roundint.simps(1))
qed

section \<open>Evaluation\<close>

lemmas fp_eval = fp_of_int_def fp_round_def fp_zero_def binary64_def binary32_def fp_log2_def
  pow2_le_def Let_def round_half_even_def compute_floorlog fp_round_dyadic_def fp_scaled_def
  fp_of_bits64_def fp_of_bits32_def fp_of_fields_def fp_to_bits64_def fp_to_bits32_def fp_sub_def
  fp_one_def mag_round_def mag_trunc_def

section \<open>Bit patterns and widening\<close>

lemma mixed_radix:
  assumes "r < N" "x < (M::nat)"
  shows "(b * (M * N) + x * N + r) mod N = r"
    and "(b * (M * N) + x * N + r) div N mod M = x"
    and "(b * (M * N) + x * N + r) div (M * N) = b"
proof -
  let ?n = "b * (M * N) + x * N + r"
  have n: "?n = (b * M + x) * N + r" by (simp add: algebra_simps)
  show "?n mod N = r" unfolding n using assms by simp
  have d: "?n div N = b * M + x" unfolding n using assms by simp
  show "?n div N mod M = x" unfolding d using assms by simp
  show "?n div (M * N) = b"
    unfolding mult.commute [of M N] div_mult2_eq 
    using d assms by (simp add: mult.commute)
qed

lemma mixed_radix_less:
  assumes "r < N" "x < (M::nat)" "b < B"
  shows "b * (M * N) + x * N + r < B * (M * N)"
proof -
  have "(b * M + x) * N + r < (b * M + x + 1) * N" using assms(1) by simp
  also have "\<dots> \<le> (b * M + M) * N" using assms(2) by (intro mult_right_mono) auto
  also have "\<dots> \<le> (B * M) * N" using assms(3) 
    by (intro mult_right_mono) (simp_all add: Suc_leI flip: mult_Suc add.commute)
  finally show ?thesis by (simp add: algebra_simps)
qed

lemma fp_fields_bounds:
  assumes "fp_wf f x" "1 < prec f" "emax f - emin f + 1 < int etop" "fp_fields f etop x = (s, ex, fr)"
  shows "ex \<le> etop" "fr < 2 ^ (prec f - 1)"
proof -
  have p: "(2::nat) ^ prec f = 2 * 2 ^ (prec f - 1)" using assms(2) by (cases "prec f") auto
  have u: "m < 2 * k \<Longrightarrow> 0 < k \<Longrightarrow> m - k < k" for m k :: nat by linarith
  have q: "(2::nat) ^ (prec f - 2) < 2 ^ (prec f - 1)" using assms(2) by simp
  show "ex \<le> etop" using assms by (cases x) (auto simp: canonical_def split: if_splits)
  show "fr < 2 ^ (prec f - 1)" using assms p q u by (cases x) (auto simp: canonical_def split: if_splits)
qed

lemma fp_of_fields_fields:
  assumes "fp_wf f x" "1 < prec f" "emax f - emin f + 1 < int etop" "0 < etop"
    and "fp_fields f etop x = (s, ex, fr)"
  shows "fp_of_fields f etop s ex fr = x"
  using assms by (cases x) (auto simp: fp_of_fields_def canonical_def split: if_splits)

lemma fp_of_bits64_to_bits64:
  assumes "fp_wf binary64 x" shows "fp_of_bits64 (fp_to_bits64 x) = x"
proof -
  obtain s ex fr where f: "fp_fields binary64 2047 x = (s, ex, fr)" by (metis prod_cases3)
  have b: "ex < 2 ^ 11" "fr < 2 ^ 52"
    using fp_fields_bounds [OF assms _ _ f] by (simp_all add: binary64_def)
  let ?n = "of_bool s * (2 ^ 11 * 2 ^ 52) + ex * 2 ^ 52 + fr"
  have n: "of_bool s * 2 ^ 63 + ex * 2 ^ 52 + fr = ?n" by simp
  have "?n < 2 * (2 ^ 11 * 2 ^ 52)" by (rule mixed_radix_less) (use b in auto)
  then have u: "unat (fp_to_bits64 x) = ?n"
    unfolding fp_to_bits64_def f prod.case n by (simp add: unat_of_nat del: of_nat_add of_nat_mult)
  have "?n div 2 ^ 63 = of_bool s" "?n div 2 ^ 52 mod 2 ^ 11 = ex" "?n mod 2 ^ 52 = fr"
    using mixed_radix [OF b(2,1), of "of_bool s"] by simp_all
  then show ?thesis
    using fp_of_fields_fields [OF assms _ _ _ f]
    unfolding fp_of_bits64_def u Let_def by (cases s) (simp_all add: binary64_def)
qed

lemma fp_of_bits32_to_bits32:
  assumes "fp_wf binary32 x" shows "fp_of_bits32 (fp_to_bits32 x) = x"
proof -
  obtain s ex fr where f: "fp_fields binary32 255 x = (s, ex, fr)" by (metis prod_cases3)
  have b: "ex < 2 ^ 8" "fr < 2 ^ 23"
    using fp_fields_bounds [OF assms _ _ f] by (simp_all add: binary32_def)
  let ?n = "of_bool s * (2 ^ 8 * 2 ^ 23) + ex * 2 ^ 23 + fr"
  have n: "of_bool s * 2 ^ 31 + ex * 2 ^ 23 + fr = ?n" by simp
  have "?n < 2 * (2 ^ 8 * 2 ^ 23)" by (rule mixed_radix_less) (use b in auto)
  then have u: "unat (fp_to_bits32 x) = ?n"
    unfolding fp_to_bits32_def f prod.case n by (simp add: unat_of_nat del: of_nat_add of_nat_mult)
  have "?n div 2 ^ 31 = of_bool s" "?n div 2 ^ 23 mod 2 ^ 8 = ex" "?n mod 2 ^ 23 = fr"
    using mixed_radix [OF b(2,1), of "of_bool s"] by simp_all
  then show ?thesis
    using fp_of_fields_fields [OF assms _ _ _ f]
    unfolding fp_of_bits32_def u Let_def by (cases s) (simp_all add: binary32_def)
qed

lemma fp_wf_of_bits [simp]: "fp_wf binary64 (fp_of_bits64 w)" "fp_wf binary32 (fp_of_bits32 v)"
proof -
  have le: "x < Suc n \<Longrightarrow> x \<noteq> n \<Longrightarrow> Suc x \<le> n" for x n :: nat by simp
  have "unat w mod 4503599627370496 < 4503599627370496" "unat w div 4503599627370496 mod 2048 < 2048" by simp_all
  then show "fp_wf binary64 (fp_of_bits64 w)"
    by (auto simp add: fp_of_bits64_def Let_def fp_of_fields_def canonical_def binary64_def)
  have "unat v mod 8388608 < 8388608" "unat v div 8388608 mod 256 < 256" by simp_all
  then show "fp_wf binary32 (fp_of_bits32 v)"
    by (auto simp add: fp_of_bits32_def Let_def fp_of_fields_def canonical_def binary32_def)
qed

lemma fp_cast_widen:
  assumes "fp_wf binary32 x"
  shows "fp_wf binary64 (fp_cast binary64 x) \<and> fp_cast binary32 (fp_cast binary64 x) = x"
proof (cases x)
  case (FNum s m e)
  note c = assms [unfolded FNum fp_wf.simps canonical_def binary32_def, simplified]
  obtain n d where nd: "canonical binary64 n d" "real n * 2 powi d = real m * 2 powi e"
    by (rule dyadic_representable [of m binary64 e]) (use c in \<open>auto simp: binary64_def\<close>)
  have "fp_cast binary64 x = FNum s n d" unfolding FNum fp_cast.simps
    by (rule fp_round_dyadic_exact [OF nd(1) _ nd(2) [symmetric]]) simp
  moreover have "fp_round_dyadic binary32 s n d = FNum s m e"
    by (rule fp_round_dyadic_exact) (use assms FNum nd in simp_all)
  ultimately show ?thesis using FNum nd(1) by simp
qed auto

section \<open>Rounding yields canonical numbers\<close>

lemma round_half_even_bounds:
  assumes "0 < b"
  shows "a div b \<le> round_half_even a b" and "round_half_even a b \<le> a div b + 1"
  by (auto simp: round_half_even_def Let_def)

lemma nat_div_real:
  assumes "0 < B"
  shows "real A / real B < real k \<Longrightarrow> A div B < k" and "real k \<le> real A / real B \<Longrightarrow> k \<le> A div B"
proof -
  have B: "0 < real B" using assms by simp
  assume "real A / real B < real k"
  then have "real A < real (k * B)" using B by (simp add: pos_divide_less_eq)
  then have "A < k * B" by (simp only: of_nat_less_iff)
  then show "A div B < k" by (rule less_mult_imp_div_less)
next
  have B: "0 < real B" using assms by simp
  assume "real k \<le> real A / real B"
  then have "real (k * B) \<le> real A" using B by (simp add: pos_le_divide_eq)
  then have "k * B \<le> A" by (simp only: of_nat_le_iff)
  then show "k \<le> A div B" using assms by (simp add: less_eq_div_iff_mult_less_eq)
qed

lemma powi_div_bounds:
  assumes "0 < b"
  shows "real (a * 2 ^ nat (- e)) / real (b * 2 ^ nat e) = real a / real b * 2 powi (- e)"
  using assms powi2_split [of "- e"] by (simp add: field_simps)

lemma fp_wf_round:
  assumes b: "0 < b" and f: "0 < prec f" "emin f \<le> emax f"
  shows "fp_wf f (fp_round f s a b)"
proof (cases "a = 0")
  case True
  then show ?thesis using f by (simp add: fp_round_def fp_zero_def canonical_def)
next
  case False
  define e where "e = max (fp_log2 a b - int (prec f - 1)) (emin f)"
  let ?A = "a * 2 ^ nat (- e)" and ?B = "b * 2 ^ nat e"
  define m where "m = round_half_even ?A ?B"
  note lg = fp_log2_bounds [of a b]
  have a: "0 < a" using False by simp
  have B: "0 < ?B" using b by simp
  have q: "real ?A / real ?B = real a / real b * 2 powi (- e)"
    by (rule powi_div_bounds [OF b])
  have "real a / real b * 2 powi (- e) < 2 powi (fp_log2 a b + 1) * 2 powi (- e)"
    by (rule mult_strict_right_mono [OF lg(2) [OF a b]]) simp
  also have "\<dots> = 2 powi (fp_log2 a b + 1 - e)" by (simp flip: power_int_add)
  also have "\<dots> \<le> 2 powi (int (prec f))"
    by (rule power_int_increasing) (use f in \<open>auto simp: e_def\<close>)
  finally have "real ?A / real ?B < real (2 ^ prec f)" unfolding q by (simp add: power_int_def)
  then have "?A div ?B < 2 ^ prec f" by (rule nat_div_real(1) [OF B])
  then have up: "m \<le> 2 ^ prec f" unfolding m_def using round_half_even_bounds(2) [OF B, of ?A] by linarith
  have lo: "2 ^ (prec f - 1) \<le> m" if "e \<noteq> emin f"
  proof -
    have e: "e = fp_log2 a b - int (prec f - 1)" using that by (simp add: e_def max_def split: if_splits)
    have "2 powi (int (prec f - 1)) = 2 powi (fp_log2 a b) * (2 powi (- e) :: real)"
      by (simp add: e flip: power_int_add)
    also have "\<dots> \<le> real a / real b * 2 powi (- e)"
      by (rule mult_right_mono [OF lg(1) [OF a b]]) simp
    finally have "real (2 ^ (prec f - 1)) \<le> real ?A / real ?B" unfolding q by (simp add: power_int_def)
    then have "2 ^ (prec f - 1) \<le> ?A div ?B" by (rule nat_div_real(2) [OF B])
    then show ?thesis unfolding m_def using round_half_even_bounds(1) [OF B, of ?A] by linarith
  qed
  have "emin f \<le> e" by (simp add: e_def)
  then show ?thesis
    using up lo f False unfolding fp_round_def Let_def e_def [symmetric] m_def [symmetric]
    by (auto simp: canonical_def)
qed

lemma fp_wf_ops [simp]:
  assumes "0 < prec f" "emin f \<le> emax f"
  shows "fp_wf f (fp_round_dyadic f s m e)" "fp_wf f (fp_add f x y)" "fp_wf f (fp_mul f x y)"
    "fp_wf f (fp_div f x y)" "fp_wf f (fp_cast f x)"
proof -
  show r: "fp_wf f (fp_round_dyadic f s m e)" for s m e
    unfolding fp_round_dyadic_def by (rule fp_wf_round) (use assms in auto)
  have z: "fp_wf f (fp_zero f s)" for s using assms by (simp add: fp_zero_def canonical_def)
  show "fp_wf f (fp_add f x y)" using r z by (cases "(f, x, y)" rule: fp_add.cases) (auto simp: Let_def)
  show "fp_wf f (fp_mul f x y)" using r z by (cases "(f, x, y)" rule: fp_mul.cases) auto
  show "fp_wf f (fp_div f x y)" using z assms by (cases "(f, x, y)" rule: fp_div.cases) (auto intro!: fp_wf_round)
  show "fp_wf f (fp_cast f x)" using r by (cases x) auto
qed

lemma format_ranges [simp]: "emin binary64 \<le> emax binary64" "emin binary32 \<le> emax binary32"
  by (simp_all add: binary64_def binary32_def)

section \<open>Rounding to integers, as a real function\<close>

definition round_half_away :: "real \<Rightarrow> int" where
  "round_half_away x = (if x < 0 then - \<lfloor>\<bar>x\<bar> + 1 / 2\<rfloor> else \<lfloor>\<bar>x\<bar> + 1 / 2\<rfloor>)"

lemma mag_round_floor: "int (mag_round m e) = \<lfloor>real m * 2 powi e + 1 / 2\<rfloor>"
proof -
  let ?D = "2 ^ nat (- e) :: nat" and ?N = "m * 2 ^ nat e"
  have "real m * 2 powi e + 1 / 2 = real (?N * 2 + ?D) / real (2 * ?D)"
    by (simp add: powi2_split field_simps)
  then show ?thesis by (simp only: mag_round_def floor_divide_of_nat_eq)
qed

lemma fp_to_int_roundint:
  assumes "fp_wf f x" "int_format f" "fp_isfinite x"
  shows "fp_to_int (fp_roundint f x) = round_half_away (fp_val x)"
    and "fp_val (fp_roundint f x) = of_int (round_half_away (fp_val x))"
    and "fp_isfinite (fp_roundint f x)"
proof -
  from assms(3) obtain s m e where x: "x = FNum s m e" by (cases x) auto
  obtain m' e' where me: "real m' * 2 powi e' = real (mag_round m e)"
      "fp_roundint f (FNum s m e) = FNum s m' e'"
    by (rule fp_roundint_exact [of f m e s]) (use assms x in auto)
  have r: "round_half_away (fp_val x) = (if s then - 1 else 1) * int (mag_round m e)"
  proof (cases "m = 0")
    case False
    then have p: "0 < real m * 2 powi e" by simp
    show ?thesis unfolding x fp_val.simps round_half_away_def mag_round_floor using p by (cases s) auto
  qed (simp add: x round_half_away_def mag_round_floor)
  show "fp_to_int (fp_roundint f x) = round_half_away (fp_val x)"
    unfolding r unfolding x me(2) by (simp add: mag_exact(2) [OF me(1)])
  show "fp_val (fp_roundint f x) = of_int (round_half_away (fp_val x))"
    unfolding r unfolding x me(2) by (simp add: me(1))
  show "fp_isfinite (fp_roundint f x)" unfolding x me(2) by simp
qed

end
