(* ===== verification/Json.thy ===== *)
theory Json
  imports Floating
begin

text \<open>
  The part of \<open>nlohmann::json\<close> the project tools use: values, the tests \<open>is_...\<close>, member access by
  key and \<open>get\<close>. Objects are association lists whose first binding of a key counts. Parsing and
  printing JSON text is the library's and stays a parameter of the theories that need it.

  \<open>get<int>\<close> of a JSON integer (64 bit in the library) keeps the low 32 bits.
\<close>

datatype json = JNull | JBool bool | JInt int | JFloat fp | JString string | JArray "json list"
  | JObject "(string \<times> json) list"

fun is_object :: "json \<Rightarrow> bool" where
  "is_object (JObject kvs) = True"
| "is_object j = False"

fun member :: "json \<Rightarrow> string \<Rightarrow> json option" where
  "member (JObject kvs) k = map_of kvs k"
| "member j k = None"

definition int_of_int64 :: "int \<Rightarrow> int" where
  "int_of_int64 i = sint (word_of_int i :: 32 word)"

fun as_string :: "json \<Rightarrow> string option" where
  "as_string (JString s) = Some s"
| "as_string j = None"

fun as_int :: "json \<Rightarrow> int option" where
  "as_int (JInt i) = Some (int_of_int64 i)"
| "as_int j = None"

fun as_double :: "json \<Rightarrow> fp option" where
  "as_double (JInt i) = Some (fp_of_int binary64 i)"
| "as_double (JFloat x) = Some x"
| "as_double j = None"

fun as_bool :: "json \<Rightarrow> bool option" where
  "as_bool (JBool b) = Some b"
| "as_bool j = None"

fun as_array :: "json \<Rightarrow> json list option" where
  "as_array (JArray js) = Some js"
| "as_array j = None"

text \<open>\<open>j.contains(k) && j[k].is_...()\<close> followed by \<open>j[k].get<...>()\<close>.\<close>

definition string_at :: "json \<Rightarrow> string \<Rightarrow> string option" where
  "string_at j k = Option.bind (member j k) as_string"

definition int_at :: "json \<Rightarrow> string \<Rightarrow> int option" where
  "int_at j k = Option.bind (member j k) as_int"

definition double_at :: "json \<Rightarrow> string \<Rightarrow> fp option" where
  "double_at j k = Option.bind (member j k) as_double"

definition bool_at :: "json \<Rightarrow> string \<Rightarrow> bool option" where
  "bool_at j k = Option.bind (member j k) as_bool"

definition array_at :: "json \<Rightarrow> string \<Rightarrow> json list option" where
  "array_at j k = Option.bind (member j k) as_array"

definition get_or :: "'a option \<Rightarrow> 'a \<Rightarrow> 'a" where
  "get_or x d = (case x of Some v \<Rightarrow> v | None \<Rightarrow> d)"

lemma get_or_simps [simp]: "get_or (Some x) d = x" "get_or None d = d"
  by (simp_all add: get_or_def)

lemma int_of_int64_id [simp]: "- (2 ^ 31) \<le> i \<Longrightarrow> i < 2 ^ 31 \<Longrightarrow> int_of_int64 i = i"
  by (simp add: int_of_int64_def sint_sbintrunc' signed_take_bit_int_eq_self)

lemma int_of_int64_range: "- (2 ^ 31) \<le> int_of_int64 i" "int_of_int64 i < 2 ^ 31"
  using sint_range_size [of "word_of_int i :: 32 word"] by (simp_all add: int_of_int64_def word_size)

lemmas at_defs = string_at_def int_at_def double_at_def bool_at_def array_at_def

end
