(* ===== verification/Domain.thy ===== *)
theory Domain
  imports Floating
begin

text \<open>
  The domain vocabulary of \<open>Src/domain/types.hpp\<close> and \<open>Src/domain/tag_value_util.hpp\<close>: tag values
  with their quality, errors, and the result type of every fallible operation.

  \<open>domain::Result<T>\<close> is \<open>std::expected<T, Error>\<close>. The type \<open>result\<close> below has a third
  constructor \<open>Undef\<close>, the value of a computation that reads outside a container: C++ leaves it
  undefined, so a theorem that a call is not \<open>Undef\<close> is a memory-safety statement.
\<close>

section \<open>Qualities and tag values\<close>

datatype quality = Good | Uncertain | Bad

datatype quality_reason = QR_None | QR_NoCommunication | QR_DeviceFailure | QR_Timeout
  | QR_ModbusException | QR_DecodingError | QR_Stale | QR_WritePending | QR_WriteRejected
  | QR_OutOfRange

type_synonym tag_id = u32
type_synonym timestamp_ms = int

datatype scalar_value = SMono | SBool bool | SU16 u16 | SI16 u16 | SU32 u32 | SI32 u32
  | SF32 fp | SF64 fp

record tag_value =
  tv_value :: scalar_value
  tv_quality :: quality
  tv_reason :: quality_reason
  tv_source_ts :: timestamp_ms
  tv_server_ts :: timestamp_ms
  tv_epoch :: u64

definition default_tag_value :: tag_value where
  "default_tag_value = \<lparr>tv_value = SMono, tv_quality = Bad, tv_reason = QR_NoCommunication,
     tv_source_ts = 0, tv_server_ts = 0, tv_epoch = 0\<rparr>"

section \<open>Errors and results\<close>

datatype error_code = EC_Ok | EC_InvalidArgument | EC_NotFound | EC_Timeout | EC_Connection
  | EC_ModbusException | EC_Decoding | EC_QueueFull | EC_Permission | EC_Internal
  | EC_NotImplemented

record error =
  err_code :: error_code
  err_message :: string
  err_component :: string
  err_retryable :: bool
  err_protocol_status :: "int option"

definition mk_error :: "error_code \<Rightarrow> string \<Rightarrow> string \<Rightarrow> bool \<Rightarrow> error" where
  "mk_error c m cmp r = \<lparr>err_code = c, err_message = m, err_component = cmp, err_retryable = r,
     err_protocol_status = None\<rparr>"

lemma mk_error_simps [simp]:
  "err_code (mk_error c m cmp r) = c" "err_message (mk_error c m cmp r) = m"
  "err_component (mk_error c m cmp r) = cmp" "err_retryable (mk_error c m cmp r) = r"
  "err_protocol_status (mk_error c m cmp r) = None"
  by (simp_all add: mk_error_def)

datatype 'a result = Ok 'a | Err error | Undef

text \<open>
  \<open>if (!r) return std::unexpected(r.error());\<close> followed by the use of \<open>*r\<close>.
\<close>

fun and_then :: "'a result \<Rightarrow> ('a \<Rightarrow> 'b result) \<Rightarrow> 'b result" where
  "and_then (Ok x) k = k x"
| "and_then (Err e) k = Err e"
| "and_then Undef k = Undef"

fun is_ok :: "'a result \<Rightarrow> bool" where
  "is_ok (Ok x) = True"
| "is_ok r = False"

fun is_err :: "'a result \<Rightarrow> bool" where
  "is_err (Err e) = True"
| "is_err r = False"

text \<open>An indexed read of a vector or span.\<close>

definition read_at :: "'a list \<Rightarrow> nat \<Rightarrow> 'a result" where
  "read_at xs i = (if i < length xs then Ok (xs ! i) else Undef)"

lemma and_then_eq_Ok [result_simps]:
  "and_then r k = Ok y \<longleftrightarrow> (\<exists>x. r = Ok x \<and> k x = Ok y)"
  by (cases r) auto

lemma and_then_eq_Undef [result_simps]:
  "and_then r k = Undef \<longleftrightarrow> r = Undef \<or> (\<exists>x. r = Ok x \<and> k x = Undef)"
  by (cases r) auto

lemma and_then_eq_Err [result_simps]:
  "and_then r k = Err e \<longleftrightarrow> r = Err e \<or> (\<exists>x. r = Ok x \<and> k x = Err e)"
  by (cases r) auto

lemma and_then_assoc: "and_then (and_then r k) h = and_then r (\<lambda>x. and_then (k x) h)"
  by (cases r) auto

lemma and_then_cong [fundef_cong]:
  "r = r' \<Longrightarrow> (\<And>x. r' = Ok x \<Longrightarrow> k x = k' x) \<Longrightarrow> and_then r k = and_then r' k'"
  by (cases r') auto

lemma is_ok_iff: "is_ok r \<longleftrightarrow> (\<exists>x. r = Ok x)"
  by (cases r) auto

lemma is_err_iff: "is_err r \<longleftrightarrow> (\<exists>e. r = Err e)"
  by (cases r) auto

lemma read_at_Ok [simp]: "i < length xs \<Longrightarrow> read_at xs i = Ok (xs ! i)"
  by (simp add: read_at_def)

lemma read_at_eq_Undef [simp]: "read_at xs i = Undef \<longleftrightarrow> length xs \<le> i"
  by (auto simp: read_at_def)

lemma read_at_eq_Err [simp]: "read_at xs i \<noteq> Err e"
  by (auto simp: read_at_def)

section \<open>Changing the quality of a value\<close>

definition with_quality ::
  "tag_value option \<Rightarrow> quality \<Rightarrow> quality_reason \<Rightarrow> timestamp_ms \<Rightarrow> tag_value" where
  "with_quality previous q reason server_ts =
     (let out = (case previous of Some v \<Rightarrow> v | None \<Rightarrow> default_tag_value);
          out = out\<lparr>tv_quality := q, tv_reason := reason, tv_server_ts := server_ts\<rparr>
      in case previous of
           Some v \<Rightarrow> if tv_source_ts out = 0 then out\<lparr>tv_source_ts := tv_source_ts v\<rparr> else out
         | None \<Rightarrow> out)"

lemma with_quality_fields [simp]:
  "tv_quality (with_quality p q r t) = q"
  "tv_reason (with_quality p q r t) = r"
  "tv_server_ts (with_quality p q r t) = t"
  by (auto simp: with_quality_def Let_def split: option.split)

lemma with_quality_keeps [simp]:
  "tv_value (with_quality (Some v) q r t) = tv_value v"
  "tv_source_ts (with_quality (Some v) q r t) = tv_source_ts v"
  "tv_epoch (with_quality (Some v) q r t) = tv_epoch v"
  by (auto simp: with_quality_def Let_def)

lemma with_quality_Some: "with_quality (Some v) q r t = v\<lparr>tv_quality := q, tv_reason := r, tv_server_ts := t\<rparr>"
  by (auto simp: with_quality_def Let_def)

lemma with_quality_None:
  "with_quality None q r t =
     default_tag_value\<lparr>tv_quality := q, tv_reason := r, tv_server_ts := t\<rparr>"
  by (simp add: with_quality_def)

lemma with_quality_idem [simp]:
  "with_quality (Some (with_quality p q r t)) q' r' t' = with_quality p q' r' t'"
  by (cases p) (simp_all add: with_quality_Some with_quality_None)

end
