(* ===== verification/Project_Types.thy ===== *)
theory Project_Types
  imports Domain
begin

text \<open>
  The project configuration model of \<open>Src/project/types.hpp\<close>: endpoints, devices, tags, poll
  groups, OPC UA settings and the diagnostics of the loaders. C++ \<open>int\<close> fields are \<open>int\<close>; their
  conversions to narrower machine types are written at the place where the code converts them.
\<close>

section \<open>Enumerations\<close>

datatype transport_kind = Tcp | Udp
datatype security_policy = SP_None | Basic256Sha256
datatype security_mode = SM_None | Sign | SignAndEncrypt
datatype area = Holding | Input | Coil | Discrete
datatype tag_type = TBool | TUInt16 | TInt16 | TUInt32 | TInt32 | TFloat32 | TFloat64
datatype priority = Fast | Normal | Slow

section \<open>Settings\<close>

record opc_ua_user =
  user_username :: string
  user_password :: string

record opc_ua_settings =
  ua_endpoint_url :: string
  ua_application_name :: string
  ua_security_policy :: security_policy
  ua_security_mode :: security_mode
  ua_namespace_uri :: string
  ua_users :: "opc_ua_user list"
  ua_allow_anonymous :: bool
  ua_allow_none_password :: bool
  ua_allow_certificate_identity :: bool
  ua_allow_none_certificate :: bool

definition default_opc_ua_settings :: opc_ua_settings where
  "default_opc_ua_settings = \<lparr>ua_endpoint_url = ''opc.tcp://0.0.0.0:4840'', ua_application_name = [],
     ua_security_policy = SP_None, ua_security_mode = SM_None, ua_namespace_uri = [], ua_users = [],
     ua_allow_anonymous = True, ua_allow_none_password = False,
     ua_allow_certificate_identity = False, ua_allow_none_certificate = False\<rparr>"

record endpoint =
  ep_id :: string
  ep_host :: string
  ep_port :: u16
  ep_transport :: transport_kind
  ep_connect_timeout_ms :: int
  ep_response_timeout_ms :: int
  ep_reconnect_delay_ms :: int

definition default_endpoint :: endpoint where
  "default_endpoint = \<lparr>ep_id = [], ep_host = [], ep_port = 502, ep_transport = Tcp,
     ep_connect_timeout_ms = 3000, ep_response_timeout_ms = 1000, ep_reconnect_delay_ms = 2000\<rparr>"

section \<open>Tags, devices and poll groups\<close>

record tag =
  tag_name :: string
  tag_node_path :: string
  tag_area :: area
  tag_address :: int
  tag_ty :: tag_type
  tag_quantity :: "int option"
  tag_byte_order :: string
  tag_scale :: fp
  tag_offset :: fp
  tag_unit :: string
  tag_writable :: bool
  tag_group :: string
  tag_description :: string

definition default_tag :: tag where
  "default_tag = \<lparr>tag_name = [], tag_node_path = [], tag_area = Holding, tag_address = 0,
     tag_ty = TUInt16, tag_quantity = None, tag_byte_order = [], tag_scale = fp_one,
     tag_offset = fp_zero64, tag_unit = [], tag_writable = False, tag_group = [],
     tag_description = []\<rparr>"

record device_profile =
  prof_id :: string
  prof_name :: string
  prof_vendor :: string
  prof_description :: string
  prof_tags :: "tag list"

record device =
  dev_id :: string
  dev_endpoint_id :: string
  dev_unit_id :: int
  dev_profile_id :: string
  dev_description :: string
  dev_tags :: "tag list"

record register_block =
  blk_area :: area
  blk_start :: int
  blk_count :: int
  blk_description :: string

record poll_group =
  grp_id :: string
  grp_period_ms :: int
  grp_priority :: priority
  grp_device_id :: string
  grp_blocks :: "register_block list"
  grp_tag_names :: "string list"

record project =
  prj_schema_version :: int
  prj_name :: string
  prj_description :: string
  prj_address_base :: int
  prj_opcua :: opc_ua_settings
  prj_endpoints :: "endpoint list"
  prj_device_profiles :: "device_profile list"
  prj_devices :: "device list"
  prj_poll_groups :: "poll_group list"

definition default_project :: project where
  "default_project = \<lparr>prj_schema_version = 1, prj_name = [], prj_description = [],
     prj_address_base = 0, prj_opcua = default_opc_ua_settings, prj_endpoints = [],
     prj_device_profiles = [], prj_devices = [], prj_poll_groups = []\<rparr>"

section \<open>Diagnostics\<close>

datatype severity = SevError | SevWarning

record diagnostic =
  diag_severity :: severity
  diag_path :: string
  diag_message :: string

record load_result =
  lr_ok :: bool
  lr_project :: project
  lr_diagnostics :: "diagnostic list"

end
