(* ===== verification/Validate.thy ===== *)
theory Validate
  imports Project_Types Text_Util
begin

text \<open>
  The semantic checks of \<open>Src/project/validate.cpp\<close>. Each loop of \<open>validate\<close> is a function over the
  remaining elements with their index and the sets collected so far (lists of what was inserted); it
  returns the diagnostics in the order in which the code appends them. \<open>project_ok\<close> states what a
  project without errors satisfies, and \<open>validate_errors_iff\<close> that the checks are exact.
\<close>

section \<open>The checks\<close>

definition add_error :: "string \<Rightarrow> string \<Rightarrow> diagnostic list" where
  "add_error path message = [\<lparr>diag_severity = SevError, diag_path = path, diag_message = message\<rparr>]"

definition add_warning :: "string \<Rightarrow> string \<Rightarrow> diagnostic list" where
  "add_warning path message = [\<lparr>diag_severity = SevWarning, diag_path = path, diag_message = message\<rparr>]"

definition valid_byte_order :: "string \<Rightarrow> tag_type \<Rightarrow> bool" where
  "valid_byte_order order ty =
     (if order = [] then ty = TBool \<or> ty = TUInt16 \<or> ty = TInt16
      else if order \<notin> set [''ABCD'', ''CDAB'', ''BADC'', ''DCBA'', ''AB'', ''BA''] then False
      else if ty = TUInt16 \<or> ty = TInt16 then order = ''AB'' \<or> order = ''BA''
      else if ty = TFloat32 \<or> ty = TUInt32 \<or> ty = TInt32 then length order = 4
      else if ty = TFloat64 then length order = 4
      else True)"

definition indexed :: "string \<Rightarrow> nat \<Rightarrow> string" where
  "indexed base i = base @ ''['' @ show_nat i @ '']''"

definition quoted :: "string \<Rightarrow> string \<Rightarrow> string \<Rightarrow> string" where
  "quoted before s after = before @ [CHR 0x27] @ s @ [CHR 0x27] @ after"

fun validate_endpoints :: "nat \<Rightarrow> endpoint list \<Rightarrow> string list \<Rightarrow> diagnostic list \<times> string list" where
  "validate_endpoints i [] ids = ([], ids)"
| "validate_endpoints i (ep # eps) ids =
     (if ep_id ep = [] then validate_endpoints (i + 1) eps ids
      else let path = indexed ''endpoints'' i;
               dup = ep_id ep \<in> set ids;
               ds = (if dup then add_error (path @ ''.id'') (quoted ''duplicate endpoint id '' (ep_id ep) []) else []) @
                    (if ep_connect_timeout_ms ep < 1 \<or> ep_response_timeout_ms ep < 1
                     then add_error path ''timeouts must be >= 1'' else [])
           in case validate_endpoints (i + 1) eps (if dup then ids else ids @ [ep_id ep]) of
                (ds', ids') \<Rightarrow> (ds @ ds', ids'))"

definition profile_ids :: "project \<Rightarrow> string list" where
  "profile_ids p = filter (\<lambda>i. i \<noteq> []) (map prof_id (prj_device_profiles p))"

text \<open>A tag: the names seen on this device and on all devices.\<close>

definition validate_tag_name ::
  "string \<Rightarrow> tag \<Rightarrow> string list \<times> string list \<Rightarrow> diagnostic list \<times> string list \<times> string list" where
  "validate_tag_name tpath t seen = (case seen of (names, global) \<Rightarrow>
     if tag_name t = [] then ([], names, global)
     else if tag_name t \<in> set names
     then (add_error (tpath @ ''.name'') (quoted ''duplicate tag name '' (tag_name t) []), names, global)
     else if tag_name t \<in> set global
     then (add_error (tpath @ ''.name'') (quoted ''duplicate tag name '' (tag_name t) '' across devices''),
           names @ [tag_name t], global)
     else ([], names @ [tag_name t], global @ [tag_name t]))"

definition validate_tag_fields :: "string \<Rightarrow> tag \<Rightarrow> diagnostic list" where
  "validate_tag_fields tpath t =
     (if tag_address t < 0 then add_error (tpath @ ''.address'') ''address must be >= 0'' else []) @
     (if \<not> valid_byte_order (tag_byte_order t) (tag_ty t)
      then add_error (tpath @ ''.byteOrder'') (quoted ''invalid byteOrder '' (tag_byte_order t) '' for type'') else []) @
     (case tag_quantity t of
        Some q \<Rightarrow> if q < 1 then add_error (tpath @ ''.quantity'') ''quantity must be >= 1'' else []
      | None \<Rightarrow> []) @
     (if tag_writable t \<and> (tag_area t = Input \<or> tag_area t = Discrete)
      then add_error (tpath @ ''.writable'') ''input/discrete areas cannot be writable'' else [])"

fun validate_tags ::
  "string \<Rightarrow> nat \<Rightarrow> tag list \<Rightarrow> string list \<times> string list \<Rightarrow> diagnostic list \<times> string list" where
  "validate_tags path ti [] seen = ([], snd seen)"
| "validate_tags path ti (t # ts) seen =
     (let tpath = indexed (path @ ''.tags'') ti
      in case validate_tag_name tpath t seen of (ds, seen) \<Rightarrow>
         case validate_tags path (ti + 1) ts seen of (ds', global) \<Rightarrow>
           (ds @ validate_tag_fields tpath t @ ds', global))"

definition validate_device_fields :: "string \<Rightarrow> device \<Rightarrow> string list \<Rightarrow> string list \<Rightarrow> diagnostic list" where
  "validate_device_fields path d endpoint_ids profiles =
     (if dev_endpoint_id d \<noteq> [] \<and> dev_endpoint_id d \<notin> set endpoint_ids
      then add_error (path @ ''.endpointId'') (quoted ''unknown endpointId '' (dev_endpoint_id d) []) else []) @
     (if dev_profile_id d \<noteq> [] \<and> dev_profile_id d \<notin> set profiles
      then add_error (path @ ''.profileId'') (quoted ''unknown profileId '' (dev_profile_id d) []) else []) @
     (if dev_unit_id d < 0 \<or> dev_unit_id d > 255
      then add_error (path @ ''.unitId'') ''unitId must be in [0, 255]'' else [])"

text \<open>\<open>devices_by_id\<close> holds the first device of every non-empty id; its keys are \<open>device_ids\<close>.\<close>

fun validate_devices ::
  "string list \<Rightarrow> string list \<Rightarrow> nat \<Rightarrow> device list \<Rightarrow> (string \<times> device) list \<Rightarrow> string list \<Rightarrow>
     diagnostic list \<times> (string \<times> device) list" where
  "validate_devices endpoint_ids profiles i [] devs global = ([], devs)"
| "validate_devices endpoint_ids profiles i (d # ds) devs global =
     (let path = indexed ''devices'' i;
          dup = dev_id d \<noteq> [] \<and> dev_id d \<in> fst ` set devs;
          e1 = (if dup then add_error (path @ ''.id'') (quoted ''duplicate device id '' (dev_id d) []) else []);
          devs = (if dev_id d = [] \<or> dup then devs else devs @ [(dev_id d, d)])
      in case validate_tags path 0 (dev_tags d) ([], global) of (et, global) \<Rightarrow>
         case validate_devices endpoint_ids profiles (i + 1) ds devs global of (es, devs) \<Rightarrow>
           (e1 @ validate_device_fields path d endpoint_ids profiles @ et @ es, devs))"

fun validate_blocks :: "string \<Rightarrow> nat \<Rightarrow> register_block list \<Rightarrow> diagnostic list" where
  "validate_blocks path bi [] = []"
| "validate_blocks path bi (b # bs) =
     (let bpath = indexed (path @ ''.blocks'') bi
      in (if blk_start b < 0 then add_error (bpath @ ''.start'') ''start must be >= 0'' else []) @
         (if blk_count b < 1 \<or> blk_count b > 125
          then add_error (bpath @ ''.count'') ''count must be in [1, 125]'' else []) @
         validate_blocks path (bi + 1) bs)"

definition validate_group_tags :: "string \<Rightarrow> poll_group \<Rightarrow> (string \<times> device) list \<Rightarrow> diagnostic list" where
  "validate_group_tags path g devs = (case map_of devs (grp_device_id g) of
     None \<Rightarrow> []
   | Some d \<Rightarrow>
       concat (map (\<lambda>n. if n \<in> set (map tag_name (dev_tags d)) then []
                        else add_error (path @ ''.tagNames'')
                          (quoted ''tag '' n (quoted '' not found on device '' (grp_device_id g) [])))
         (grp_tag_names g)))"

fun validate_groups ::
  "(string \<times> device) list \<Rightarrow> nat \<Rightarrow> poll_group list \<Rightarrow> string list \<Rightarrow> diagnostic list \<times> string list" where
  "validate_groups devs i [] ids = ([], ids)"
| "validate_groups devs i (g # gs) ids =
     (let path = indexed ''pollGroups'' i;
          dup = grp_id g \<noteq> [] \<and> grp_id g \<in> set ids;
          ds = (if dup then add_error (path @ ''.id'') (quoted ''duplicate poll group id '' (grp_id g) []) else []) @
               (if grp_period_ms g < 10 then add_error (path @ ''.periodMs'') ''periodMs must be >= 10'' else []) @
               (if grp_device_id g \<noteq> [] \<and> grp_device_id g \<notin> fst ` set devs
                then add_error (path @ ''.deviceId'') (quoted ''unknown deviceId '' (grp_device_id g) []) else []) @
               (if grp_blocks g = [] \<and> grp_tag_names g = []
                then add_warning path ''poll group has neither blocks nor tagNames'' else []) @
               validate_blocks path 0 (grp_blocks g) @ validate_group_tags path g devs
      in case validate_groups devs (i + 1) gs (if grp_id g = [] \<or> dup then ids else ids @ [grp_id g]) of
           (ds', ids) \<Rightarrow> (ds @ ds', ids))"

fun warn_tag_groups :: "nat \<Rightarrow> nat \<Rightarrow> tag list \<Rightarrow> string list \<Rightarrow> diagnostic list" where
  "warn_tag_groups i ti [] ids = []"
| "warn_tag_groups i ti (t # ts) ids =
     (if tag_group t \<noteq> [] \<and> tag_group t \<notin> set ids
      then add_warning (indexed (indexed ''devices'' i @ ''.tags'') ti @ ''.group'')
             (quoted ''tag group '' (tag_group t) '' has no matching pollGroups.id'') else []) @
     warn_tag_groups i (ti + 1) ts ids"

fun warn_groups :: "nat \<Rightarrow> device list \<Rightarrow> string list \<Rightarrow> diagnostic list" where
  "warn_groups i [] ids = []"
| "warn_groups i (d # ds) ids = warn_tag_groups i 0 (dev_tags d) ids @ warn_groups (i + 1) ds ids"

definition validate :: "project \<Rightarrow> diagnostic list" where
  "validate p =
     (let ev = (if prj_schema_version p < 1 then add_error ''schemaVersion'' ''must be >= 1'' else [])
      in case validate_endpoints 0 (prj_endpoints p) [] of (ee, endpoint_ids) \<Rightarrow>
         case validate_devices endpoint_ids (profile_ids p) 0 (prj_devices p) [] [] of (ed, devs) \<Rightarrow>
         case validate_groups devs 0 (prj_poll_groups p) [] of (eg, group_ids) \<Rightarrow>
           ev @ ee @ ed @ eg @ warn_groups 0 (prj_devices p) group_ids)"

section \<open>What a valid project is\<close>

definition tag_ok :: "tag \<Rightarrow> bool" where
  "tag_ok t \<longleftrightarrow> 0 \<le> tag_address t \<and> valid_byte_order (tag_byte_order t) (tag_ty t) \<and>
     (case tag_quantity t of Some q \<Rightarrow> 1 \<le> q | None \<Rightarrow> True) \<and>
     \<not> (tag_writable t \<and> (tag_area t = Input \<or> tag_area t = Discrete))"

definition nonempty :: "string list \<Rightarrow> string list" where
  "nonempty xs = filter (\<lambda>x. x \<noteq> []) xs"

definition device_ok :: "project \<Rightarrow> device \<Rightarrow> bool" where
  "device_ok p d \<longleftrightarrow>
     (dev_endpoint_id d = [] \<or> dev_endpoint_id d \<in> set (map ep_id (prj_endpoints p))) \<and>
     (dev_profile_id d = [] \<or> dev_profile_id d \<in> set (map prof_id (prj_device_profiles p))) \<and>
     0 \<le> dev_unit_id d \<and> dev_unit_id d \<le> 255 \<and> list_all tag_ok (dev_tags d)"

definition group_ok :: "project \<Rightarrow> poll_group \<Rightarrow> bool" where
  "group_ok p g \<longleftrightarrow> 10 \<le> grp_period_ms g \<and>
     list_all (\<lambda>b. 0 \<le> blk_start b \<and> 1 \<le> blk_count b \<and> blk_count b \<le> 125) (grp_blocks g) \<and>
     (grp_device_id g = [] \<or>
      (case find (\<lambda>d. dev_id d = grp_device_id g) (prj_devices p) of
         None \<Rightarrow> False
       | Some d \<Rightarrow> set (grp_tag_names g) \<subseteq> set (map tag_name (dev_tags d))))"

definition project_ok :: "project \<Rightarrow> bool" where
  "project_ok p \<longleftrightarrow> 1 \<le> prj_schema_version p \<and>
     distinct (nonempty (map ep_id (prj_endpoints p))) \<and>
     list_all (\<lambda>ep. ep_id ep = [] \<or> 1 \<le> ep_connect_timeout_ms ep \<and> 1 \<le> ep_response_timeout_ms ep) (prj_endpoints p) \<and>
     distinct (nonempty (map dev_id (prj_devices p))) \<and>
     distinct (nonempty (map tag_name (concat (map dev_tags (prj_devices p))))) \<and>
     list_all (device_ok p) (prj_devices p) \<and>
     distinct (nonempty (map grp_id (prj_poll_groups p))) \<and>
     list_all (group_ok p) (prj_poll_groups p)"

definition no_errors :: "diagnostic list \<Rightarrow> bool" where
  "no_errors ds \<longleftrightarrow> list_all (\<lambda>d. diag_severity d \<noteq> SevError) ds"

section \<open>The checks are exact\<close>

lemma no_errors_simps [simp]:
  "no_errors []" "no_errors (ds @ es) \<longleftrightarrow> no_errors ds \<and> no_errors es"
  "\<not> no_errors (add_error p m)" "no_errors (add_warning p m)"
  by (simp_all add: no_errors_def add_error_def add_warning_def)

lemma no_errors_concat: "no_errors (concat xss) \<longleftrightarrow> list_all no_errors xss"
  by (induction xss) auto

lemma no_errors_if [simp]:
  "no_errors (if b then add_error p m else []) \<longleftrightarrow> \<not> b" "no_errors (if b then add_warning p m else [])"
  by simp_all

lemma nonempty_simps [simp]:
  "nonempty [] = []" "nonempty (x # xs) = (if x = [] then nonempty xs else x # nonempty xs)"
  "nonempty (xs @ ys) = nonempty xs @ nonempty ys" "set (nonempty xs) = set xs - {[]}"
  by (auto simp: nonempty_def)

lemma validate_endpoints_spec:
  "(no_errors (fst (validate_endpoints i eps ids)) \<longleftrightarrow>
     distinct (nonempty (map ep_id eps)) \<and> set (nonempty (map ep_id eps)) \<inter> set ids = {} \<and>
     list_all (\<lambda>ep. ep_id ep = [] \<or> 1 \<le> ep_connect_timeout_ms ep \<and> 1 \<le> ep_response_timeout_ms ep) eps) \<and>
   set (snd (validate_endpoints i eps ids)) = set ids \<union> set (nonempty (map ep_id eps))"
proof (induction eps arbitrary: i ids)
  case (Cons ep eps)
  show ?case
  proof (cases "ep_id ep = []")
    case True
    then show ?thesis using Cons.IH [of "i + 1" ids] by auto
  next
    case False
    then show ?thesis using Cons.IH [of "i + 1" "if ep_id ep \<in> set ids then ids else ids @ [ep_id ep]"]
      by (auto simp: Let_def case_prod_unfold)
  qed
qed simp

lemma validate_tag_fields_spec: "no_errors (validate_tag_fields p t) \<longleftrightarrow> tag_ok t"
  by (auto simp: validate_tag_fields_def tag_ok_def split: option.split)

lemma validate_tags_spec:
  assumes "set names \<subseteq> set global"
  shows "(no_errors (fst (validate_tags path ti ts (names, global))) \<longleftrightarrow>
     distinct (nonempty (map tag_name ts)) \<and> set (nonempty (map tag_name ts)) \<inter> set global = {} \<and> list_all tag_ok ts) \<and>
   set (snd (validate_tags path ti ts (names, global))) = set global \<union> set (nonempty (map tag_name ts))"
  using assms
proof (induction ts arbitrary: ti names global)
  case (Cons t ts)
  consider "tag_name t = []" | "tag_name t \<noteq> []" "tag_name t \<in> set names"
    | "tag_name t \<noteq> []" "tag_name t \<notin> set names" "tag_name t \<in> set global"
    | "tag_name t \<noteq> []" "tag_name t \<notin> set names" "tag_name t \<notin> set global" by blast
  then show ?case
  proof cases
    case 1
    then show ?thesis using Cons.IH [OF Cons.prems, of "ti + 1"]
      by (auto simp: Let_def case_prod_unfold validate_tag_name_def validate_tag_fields_spec)
  next
    case 2
    then show ?thesis using Cons.IH [OF Cons.prems, of "ti + 1"] Cons.prems
      by (auto simp: Let_def case_prod_unfold validate_tag_name_def)
  next
    case 3
    then have "set (names @ [tag_name t]) \<subseteq> set global" using Cons.prems by auto
    from Cons.IH [OF this, of "ti + 1"] 3 show ?thesis
      by (auto simp: Let_def case_prod_unfold validate_tag_name_def)
  next
    case 4
    then have "set (names @ [tag_name t]) \<subseteq> set (global @ [tag_name t])" using Cons.prems by auto
    from Cons.IH [OF this, of "ti + 1"] 4 show ?thesis
      by (auto simp: Let_def case_prod_unfold validate_tag_name_def validate_tag_fields_spec)
  qed
qed simp

lemma validate_device_fields_spec:
  "no_errors (validate_device_fields path d eids pids) \<longleftrightarrow>
     (dev_endpoint_id d = [] \<or> dev_endpoint_id d \<in> set eids) \<and> (dev_profile_id d = [] \<or> dev_profile_id d \<in> set pids) \<and>
     0 \<le> dev_unit_id d \<and> dev_unit_id d \<le> 255"
  by (auto simp: validate_device_fields_def)

definition device_fields_ok :: "string list \<Rightarrow> string list \<Rightarrow> device \<Rightarrow> bool" where
  "device_fields_ok eids pids d \<longleftrightarrow>
     (dev_endpoint_id d = [] \<or> dev_endpoint_id d \<in> set eids) \<and> (dev_profile_id d = [] \<or> dev_profile_id d \<in> set pids) \<and>
     0 \<le> dev_unit_id d \<and> dev_unit_id d \<le> 255 \<and> list_all tag_ok (dev_tags d)"

lemma validate_devices_spec:
  "(no_errors (fst (validate_devices eids pids i ds devs global)) \<longleftrightarrow>
     distinct (nonempty (map dev_id ds)) \<and> set (nonempty (map dev_id ds)) \<inter> fst ` set devs = {} \<and>
     distinct (nonempty (map tag_name (concat (map dev_tags ds)))) \<and>
     set (nonempty (map tag_name (concat (map dev_tags ds)))) \<inter> set global = {} \<and>
     list_all (device_fields_ok eids pids) ds) \<and>
   (\<forall>x. x \<noteq> [] \<longrightarrow> map_of (snd (validate_devices eids pids i ds devs global)) x =
     (case map_of devs x of Some d \<Rightarrow> Some d | None \<Rightarrow> find (\<lambda>d. dev_id d = x) ds)) \<and>
   ([] \<notin> fst ` set devs \<longrightarrow> [] \<notin> fst ` set (snd (validate_devices eids pids i ds devs global)))"
proof (induction ds arbitrary: i devs global)
  case Nil
  then show ?case by (auto split: option.split)
next
  case (Cons d ds)
  define dup where "dup \<longleftrightarrow> dev_id d \<noteq> [] \<and> dev_id d \<in> fst ` set devs"
  define devs' where "devs' = (if dev_id d = [] \<or> dup then devs else devs @ [(dev_id d, d)])"
  define tg where "tg = validate_tags (indexed ''devices'' i) 0 (dev_tags d) ([], global)"
  have t: "no_errors (fst tg) \<longleftrightarrow> distinct (nonempty (map tag_name (dev_tags d))) \<and>
      set (nonempty (map tag_name (dev_tags d))) \<inter> set global = {} \<and> list_all tag_ok (dev_tags d)"
    "set (snd tg) = set global \<union> set (nonempty (map tag_name (dev_tags d)))"
    using validate_tags_spec [of "[]" global "indexed ''devices'' i" 0 "dev_tags d"] by (simp_all add: tg_def)
  have v: "validate_devices eids pids i (d # ds) devs global =
      ((if dup then add_error (indexed ''devices'' i @ ''.id'') (quoted ''duplicate device id '' (dev_id d) []) else []) @
       validate_device_fields (indexed ''devices'' i) d eids pids @ fst tg @
       fst (validate_devices eids pids (i + 1) ds devs' (snd tg)), snd (validate_devices eids pids (i + 1) ds devs' (snd tg)))"
    by (simp add: dup_def devs'_def tg_def Let_def case_prod_unfold)
  note ih = Cons.IH [of "i + 1" devs' "snd tg"]
  have keys: "fst ` set devs' = fst ` set devs \<union> ({dev_id d} - {[]})"
    by (auto simp: devs'_def dup_def)
  have 1: "no_errors (fst (validate_devices eids pids i (d # ds) devs global)) \<longleftrightarrow>
     distinct (nonempty (map dev_id (d # ds))) \<and> set (nonempty (map dev_id (d # ds))) \<inter> fst ` set devs = {} \<and>
     distinct (nonempty (map tag_name (concat (map dev_tags (d # ds))))) \<and>
     set (nonempty (map tag_name (concat (map dev_tags (d # ds))))) \<inter> set global = {} \<and>
     list_all (device_fields_ok eids pids) (d # ds)"
  proof -
    have ids: "distinct (nonempty (map dev_id (d # ds))) \<and> set (nonempty (map dev_id (d # ds))) \<inter> fst ` set devs = {} \<longleftrightarrow>
        \<not> dup \<and> distinct (nonempty (map dev_id ds)) \<and> set (nonempty (map dev_id ds)) \<inter> fst ` set devs' = {}"
      unfolding keys dup_def by (simp del: set_map) blast
    have names: "distinct (nonempty (map tag_name (concat (map dev_tags (d # ds))))) \<and>
        set (nonempty (map tag_name (concat (map dev_tags (d # ds))))) \<inter> set global = {} \<longleftrightarrow>
        distinct (nonempty (map tag_name (dev_tags d))) \<and> set (nonempty (map tag_name (dev_tags d))) \<inter> set global = {} \<and>
        distinct (nonempty (map tag_name (concat (map dev_tags ds)))) \<and>
        set (nonempty (map tag_name (concat (map dev_tags ds)))) \<inter> set (snd tg) = {}"
      unfolding t(2) list.map concat.simps map_append nonempty_simps(3) distinct_append set_append by blast
    show ?thesis using ids names conjunct1 [OF ih]
      unfolding v fst_conv no_errors_simps(2) validate_device_fields_spec t(1) list.pred_inject device_fields_ok_def no_errors_if
      by argo
  qed
  have 2: "map_of (snd (validate_devices eids pids i (d # ds) devs global)) x =
     (case map_of devs x of Some d \<Rightarrow> Some d | None \<Rightarrow> find (\<lambda>d. dev_id d = x) (d # ds))" if "x \<noteq> []" for x
  proof -
    have "map_of devs' x = (case map_of devs x of Some d \<Rightarrow> Some d | None \<Rightarrow> if dev_id d = x then Some d else None)"
      using that by (auto simp: devs'_def dup_def map_add_def map_of_eq_None_iff split: option.splits)
        (metis map_of_eq_None_iff option.distinct(1) image_eqI fst_conv)+
    then show ?thesis using conjunct1 [OF conjunct2 [OF ih]] that unfolding v
      by (cases "map_of devs x") auto
  qed
  show ?case using 1 2 conjunct2 [OF conjunct2 [OF ih]] keys unfolding v by auto
qed

lemma validate_blocks_spec:
  "no_errors (validate_blocks path i bs) \<longleftrightarrow>
   list_all (\<lambda>b. 0 \<le> blk_start b \<and> 1 \<le> blk_count b \<and> blk_count b \<le> 125) bs"
  by (induction bs arbitrary: i) (auto simp: Let_def)

lemma validate_group_tags_spec:
  "no_errors (validate_group_tags path g devs) \<longleftrightarrow>
   (case map_of devs (grp_device_id g) of None \<Rightarrow> True
    | Some d \<Rightarrow> set (grp_tag_names g) \<subseteq> set (map tag_name (dev_tags d)))"
proof (cases "map_of devs (grp_device_id g)")
  case (Some d)
  then show ?thesis
    by (simp add: validate_group_tags_def no_errors_concat list.pred_map comp_def if_distrib [of no_errors] cong: if_cong)
      (auto simp: list_all_iff)
qed (simp add: validate_group_tags_def)

definition group_fields_ok :: "(string \<times> device) list \<Rightarrow> poll_group \<Rightarrow> bool" where
  "group_fields_ok devs g \<longleftrightarrow> 10 \<le> grp_period_ms g \<and>
     list_all (\<lambda>b. 0 \<le> blk_start b \<and> 1 \<le> blk_count b \<and> blk_count b \<le> 125) (grp_blocks g) \<and>
     (grp_device_id g = [] \<or> grp_device_id g \<in> fst ` set devs) \<and>
     (case map_of devs (grp_device_id g) of None \<Rightarrow> True
      | Some d \<Rightarrow> set (grp_tag_names g) \<subseteq> set (map tag_name (dev_tags d)))"

lemma validate_groups_spec:
  "no_errors (fst (validate_groups devs i gs ids)) \<longleftrightarrow>
   distinct (nonempty (map grp_id gs)) \<and> set (nonempty (map grp_id gs)) \<inter> set ids = {} \<and> list_all (group_fields_ok devs) gs"
proof (induction gs arbitrary: i ids)
  case (Cons g gs)
  show ?case
    using Cons.IH [of "i + 1" "if grp_id g = [] \<or> grp_id g \<noteq> [] \<and> grp_id g \<in> set ids then ids else ids @ [grp_id g]"]
    by (auto simp: Let_def case_prod_unfold validate_blocks_spec validate_group_tags_spec group_fields_ok_def)
qed simp

lemma warn_groups_no_errors [simp]: "no_errors (warn_groups i ds ids)"
proof -
  have "no_errors (warn_tag_groups i ti ts ids)" for i ti ts
    by (induction ts arbitrary: ti) auto
  then show ?thesis by (induction ds arbitrary: i) auto
qed

lemma no_errors_validate: "no_errors (validate p) \<longleftrightarrow> project_ok p"
proof -
  define ve where "ve = validate_endpoints 0 (prj_endpoints p) []"
  define vd where "vd = validate_devices (snd ve) (profile_ids p) 0 (prj_devices p) [] []"
  define vg where "vg = validate_groups (snd vd) 0 (prj_poll_groups p) []"
  have v: "validate p = (if prj_schema_version p < 1 then add_error ''schemaVersion'' ''must be >= 1'' else []) @
      fst ve @ fst vd @ fst vg @ warn_groups 0 (prj_devices p) (snd vg)"
    by (simp add: validate_def ve_def vd_def vg_def Let_def case_prod_unfold)
  note e = validate_endpoints_spec [of 0 "prj_endpoints p" "[]", folded ve_def]
  note d = validate_devices_spec [of "snd ve" "profile_ids p" 0 "prj_devices p" "[]" "[]", folded vd_def]
  note g = validate_groups_spec [of "snd vd" 0 "prj_poll_groups p" "[]", folded vg_def]
  have de: "device_fields_ok (snd ve) (profile_ids p) = device_ok p"
    using conjunct2 [OF e] by (auto simp: fun_eq_iff device_fields_ok_def device_ok_def profile_ids_def)
  have gr: "group_fields_ok (snd vd) = group_ok p"
  proof (rule ext)
    fix gr :: poll_group
    have m: "grp_device_id gr \<noteq> [] \<Longrightarrow> map_of (snd vd) (grp_device_id gr) = find (\<lambda>d. dev_id d = grp_device_id gr) (prj_devices p)"
      "map_of (snd vd) [] = None"
      using conjunct2 [OF d] by (auto simp: map_of_eq_None_iff)
    show "group_fields_ok (snd vd) gr = group_ok p gr"
    proof (cases "grp_device_id gr = []")
      case True
      then show ?thesis using m(2) by (simp add: group_fields_ok_def group_ok_def)
    next
      case False
      have k: "grp_device_id gr \<in> fst ` set (snd vd) \<longleftrightarrow> map_of (snd vd) (grp_device_id gr) \<noteq> None"
        by (simp add: map_of_eq_None_iff)
      show ?thesis using False unfolding group_fields_ok_def group_ok_def k m(1) [OF False]
        by (auto split: option.split)
    qed
  qed
  show ?thesis
    unfolding v project_ok_def using conjunct1 [OF e] conjunct1 [OF d] g
    by (auto simp: de gr not_less)
qed

text \<open>
  C9: Validation is exact: it reports an error if and only if the project is not well formed, that is,
  unless non-empty endpoint, device and poll group ids and all tag names are unique, references
  resolve, and every tag, device, block and group is within its bounds.
\<close>

theorem validate_errors_iff: "no_errors (validate p) \<longleftrightarrow> project_ok p"
  by (rule no_errors_validate)

end
