(* ===== verification/Load.thy ===== *)
theory Load
  imports Json Validate
begin

text \<open>
  Loading a project: \<open>Src/project/load.cpp\<close> and \<open>Src/project/schema.cpp\<close>. Every parsing function
  returns what it built and the diagnostics it appended. The JSON text parser and the JSON schema
  validator belong to third-party libraries and are the fields of \<open>load_env\<close>; a parser may throw
  \<open>json::parse_error\<close>, which is caught, or another exception, which is not.
\<close>

section \<open>Fields\<close>

text \<open>\<open>required x d path m\<close>: a field that must be there, with its default and the error otherwise.\<close>

definition required :: "'a option \<Rightarrow> 'a \<Rightarrow> string \<Rightarrow> string \<Rightarrow> 'a \<times> diagnostic list" where
  "required x d path m = (case x of Some v \<Rightarrow> (v, []) | None \<Rightarrow> (d, add_error path m))"

definition parse_enum :: "json \<Rightarrow> (string, 'e) umap \<Rightarrow> string \<Rightarrow> 'e \<Rightarrow> 'e \<times> diagnostic list" where
  "parse_enum v table path fallback = (case as_string v of
     None \<Rightarrow> (fallback, add_error path ''expected string enum'')
   | Some s \<Rightarrow> (case map_of table s of
       None \<Rightarrow> (fallback, add_error path (quoted ''unknown enum value '' s []))
     | Some e \<Rightarrow> (e, [])))"

definition enum_field :: "json \<Rightarrow> string \<Rightarrow> (string, 'e) umap \<Rightarrow> string \<Rightarrow> 'e \<Rightarrow> 'e \<times> diagnostic list" where
  "enum_field j k table path fallback = (case member j k of
     None \<Rightarrow> (fallback, add_error path ''required'')
   | Some v \<Rightarrow> parse_enum v table path fallback)"

definition kTransport :: "(string, transport_kind) umap" where
  "kTransport = [(''tcp'', Tcp), (''udp'', Udp)]"

definition kSecurityPolicy :: "(string, security_policy) umap" where
  "kSecurityPolicy = [(''None'', SP_None), (''Basic256Sha256'', Basic256Sha256)]"

definition kSecurityMode :: "(string, security_mode) umap" where
  "kSecurityMode = [(''None'', SM_None), (''Sign'', Sign), (''SignAndEncrypt'', SignAndEncrypt)]"

definition kArea :: "(string, area) umap" where
  "kArea = [(''holding'', Holding), (''input'', Input), (''coil'', Coil), (''discrete'', Discrete)]"

definition kTagType :: "(string, tag_type) umap" where
  "kTagType = [(''bool'', TBool), (''uint16'', TUInt16), (''int16'', TInt16), (''uint32'', TUInt32),
     (''int32'', TInt32), (''float32'', TFloat32), (''float64'', TFloat64)]"

definition kPriority :: "(string, priority) umap" where
  "kPriority = [(''fast'', Fast), (''normal'', Normal), (''slow'', Slow)]"

section \<open>Tags, endpoints and blocks\<close>

definition parse_tag :: "json \<Rightarrow> string \<Rightarrow> tag \<times> diagnostic list" where
  "parse_tag j path =
     (if \<not> is_object j then (default_tag, add_error path ''tag must be an object'')
      else
        let name = required (string_at j ''name'') [] (path @ ''.name'') ''required string'';
            area = enum_field j ''area'' kArea (path @ ''.area'') Holding;
            address = required (int_at j ''address'') 0 (path @ ''.address'') ''required integer'';
            ty = enum_field j ''type'' kTagType (path @ ''.type'') TUInt16
        in (\<lparr>tag_name = fst name, tag_node_path = get_or (string_at j ''nodePath'') [],
             tag_area = fst area, tag_address = fst address, tag_ty = fst ty,
             tag_quantity = int_at j ''quantity'', tag_byte_order = get_or (string_at j ''byteOrder'') [],
             tag_scale = get_or (double_at j ''scale'') fp_one,
             tag_offset = get_or (double_at j ''offset'') fp_zero64,
             tag_unit = get_or (string_at j ''unit'') [], tag_writable = get_or (bool_at j ''writable'') False,
             tag_group = get_or (string_at j ''group'') [],
             tag_description = get_or (string_at j ''description'') []\<rparr>,
            snd name @ snd area @ snd address @ snd ty))"

definition parse_port :: "json \<Rightarrow> string \<Rightarrow> u16 \<times> diagnostic list" where
  "parse_port j path = (case int_at j ''port'' of
     None \<Rightarrow> (502, add_error path ''required integer'')
   | Some p \<Rightarrow> if p < 1 \<or> p > 65535 then (502, add_error path ''port out of range'') else (word_of_int p, []))"

definition parse_endpoint :: "json \<Rightarrow> string \<Rightarrow> endpoint \<times> diagnostic list" where
  "parse_endpoint j path =
     (if \<not> is_object j then (default_endpoint, add_error path ''endpoint must be an object'')
      else
        let i = required (string_at j ''id'') [] (path @ ''.id'') ''required string'';
            host = required (string_at j ''host'') [] (path @ ''.host'') ''required string'';
            port = parse_port j (path @ ''.port'');
            tr = enum_field j ''transport'' kTransport (path @ ''.transport'') Tcp
        in (\<lparr>ep_id = fst i, ep_host = fst host, ep_port = fst port, ep_transport = fst tr,
             ep_connect_timeout_ms = get_or (int_at j ''connectTimeoutMs'') 3000,
             ep_response_timeout_ms = get_or (int_at j ''responseTimeoutMs'') 1000,
             ep_reconnect_delay_ms = get_or (int_at j ''reconnectDelayMs'') 2000\<rparr>,
            snd i @ snd host @ snd port @ snd tr))"

definition parse_block :: "json \<Rightarrow> string \<Rightarrow> register_block \<times> diagnostic list" where
  "parse_block j path =
     (if \<not> is_object j
      then (\<lparr>blk_area = Holding, blk_start = 0, blk_count = 1, blk_description = []\<rparr>,
            add_error path ''block must be an object'')
      else
        let area = enum_field j ''area'' kArea (path @ ''.area'') Holding;
            start = required (int_at j ''start'') 0 (path @ ''.start'') ''required integer'';
            count = required (int_at j ''count'') 1 (path @ ''.count'') ''required integer''
        in (\<lparr>blk_area = fst area, blk_start = fst start, blk_count = fst count,
             blk_description = get_or (string_at j ''description'') []\<rparr>,
            snd area @ snd start @ snd count))"

section \<open>The project\<close>

text \<open>
  The loops over JSON arrays: the item at position \<open>i\<close> has path \<open>base[i]\<close> and contributes the
  elements it was parsed to, none when the loop skips it.
\<close>

fun parse_items ::
  "(json \<Rightarrow> string \<Rightarrow> 'a list \<times> diagnostic list) \<Rightarrow> string \<Rightarrow> nat \<Rightarrow> json list \<Rightarrow> 'a list \<times> diagnostic list" where
  "parse_items f base i [] = ([], [])"
| "parse_items f base i (j # js) =
     (fst (f j (indexed base i)) @ fst (parse_items f base (i + 1) js),
      snd (f j (indexed base i)) @ snd (parse_items f base (i + 1) js))"

definition single :: "(json \<Rightarrow> string \<Rightarrow> 'a \<times> diagnostic list) \<Rightarrow> json \<Rightarrow> string \<Rightarrow> 'a list \<times> diagnostic list" where
  "single f j path = ([fst (f j path)], snd (f j path))"

definition parse_tags :: "json \<Rightarrow> string \<Rightarrow> tag list \<times> diagnostic list" where
  "parse_tags j path = parse_items (single parse_tag) (path @ ''.tags'') 0 (get_or (array_at j ''tags'') [])"

definition parse_user :: "json \<Rightarrow> string \<Rightarrow> opc_ua_user list \<times> diagnostic list" where
  "parse_user j path =
     (if \<not> is_object j then ([], add_error path ''must be object with username/password'')
      else
        let username = required (case string_at j ''username'' of Some (c # s) \<Rightarrow> Some (c # s) | _ \<Rightarrow> None) []
              (path @ ''.username'') ''required non-empty string'';
            password = required (string_at j ''password'') [] (path @ ''.password'') ''required string''
        in (if fst username = [] then []
            else [\<lparr>user_username = fst username, user_password = fst password\<rparr>],
            snd username @ snd password))"

definition optional_enum :: "json \<Rightarrow> string \<Rightarrow> (string, 'e) umap \<Rightarrow> string \<Rightarrow> 'e \<Rightarrow> 'e \<times> diagnostic list" where
  "optional_enum j k table path d = (case member j k of
     None \<Rightarrow> (d, [])
   | Some v \<Rightarrow> parse_enum v table path d)"

definition parse_opcua :: "json \<Rightarrow> opc_ua_settings \<times> diagnostic list" where
  "parse_opcua doc = (case member doc ''opcua'' of
     Some (JObject kvs) \<Rightarrow>
       let j = JObject kvs;
           policy = optional_enum j ''securityPolicy'' kSecurityPolicy ''opcua.securityPolicy'' SP_None;
           mode = optional_enum j ''securityMode'' kSecurityMode ''opcua.securityMode'' SM_None;
           users = parse_items parse_user ''opcua.users'' 0 (get_or (array_at j ''users'') []);
           cert = get_or (bool_at j ''allowCertificateIdentity'') False
       in (\<lparr>ua_endpoint_url = get_or (string_at j ''endpointUrl'') ''opc.tcp://0.0.0.0:4840'',
            ua_application_name = get_or (string_at j ''applicationName'') [],
            ua_security_policy = fst policy, ua_security_mode = fst mode,
            ua_namespace_uri = get_or (string_at j ''namespaceUri'') [], ua_users = fst users,
            ua_allow_anonymous = get_or (bool_at j ''allowAnonymous'') (\<not> (fst users \<noteq> [] \<or> cert)),
            ua_allow_none_password = get_or (bool_at j ''allowNonePassword'') False,
            ua_allow_certificate_identity = cert,
            ua_allow_none_certificate = get_or (bool_at j ''allowNoneCertificate'') False\<rparr>,
           snd policy @ snd mode @ snd users)
   | _ \<Rightarrow> (default_opc_ua_settings, []))"

definition parse_profile :: "json \<Rightarrow> string \<Rightarrow> device_profile list \<times> diagnostic list" where
  "parse_profile j path =
     (if \<not> is_object j then ([], add_error path ''profile must be an object'')
      else
        let i = required (string_at j ''id'') [] (path @ ''.id'') ''required string'';
            name = required (string_at j ''name'') [] (path @ ''.name'') ''required string'';
            tags = parse_tags j path
        in ([\<lparr>prof_id = fst i, prof_name = fst name, prof_vendor = get_or (string_at j ''vendor'') [],
              prof_description = get_or (string_at j ''description'') [], prof_tags = fst tags\<rparr>],
            snd i @ snd name @ snd tags))"

definition parse_device :: "json \<Rightarrow> string \<Rightarrow> device list \<times> diagnostic list" where
  "parse_device j path =
     (if \<not> is_object j then ([], add_error path ''device must be an object'')
      else
        let i = required (string_at j ''id'') [] (path @ ''.id'') ''required string'';
            eid = required (string_at j ''endpointId'') [] (path @ ''.endpointId'') ''required string'';
            u = required (int_at j ''unitId'') 1 (path @ ''.unitId'') ''required integer'';
            tags = parse_tags j path
        in ([\<lparr>dev_id = fst i, dev_endpoint_id = fst eid, dev_unit_id = fst u,
              dev_profile_id = get_or (string_at j ''profileId'') [],
              dev_description = get_or (string_at j ''description'') [], dev_tags = fst tags\<rparr>],
            snd i @ snd eid @ snd u @ snd tags))"

fun parse_tag_names :: "string \<Rightarrow> json list \<Rightarrow> string list \<times> diagnostic list" where
  "parse_tag_names path [] = ([], [])"
| "parse_tag_names path (j # js) = (case as_string j of
     Some s \<Rightarrow> (s # fst (parse_tag_names path js), snd (parse_tag_names path js))
   | None \<Rightarrow> (fst (parse_tag_names path js),
              add_error (path @ ''.tagNames'') ''elements must be strings'' @ snd (parse_tag_names path js)))"

definition parse_group :: "json \<Rightarrow> string \<Rightarrow> poll_group list \<times> diagnostic list" where
  "parse_group j path =
     (if \<not> is_object j then ([], add_error path ''pollGroup must be an object'')
      else
        let i = required (string_at j ''id'') [] (path @ ''.id'') ''required string'';
            period = required (int_at j ''periodMs'') 1000 (path @ ''.periodMs'') ''required integer'';
            prio = enum_field j ''priority'' kPriority (path @ ''.priority'') Normal;
            did = required (string_at j ''deviceId'') [] (path @ ''.deviceId'') ''required string'';
            blocks = parse_items (single parse_block) (path @ ''.blocks'') 0 (get_or (array_at j ''blocks'') []);
            names = parse_tag_names path (get_or (array_at j ''tagNames'') [])
        in ([\<lparr>grp_id = fst i, grp_period_ms = fst period, grp_priority = fst prio, grp_device_id = fst did,
              grp_blocks = fst blocks, grp_tag_names = fst names\<rparr>],
            snd i @ snd period @ snd prio @ snd did @ snd blocks @ snd names))"

definition required_items ::
  "(json \<Rightarrow> string \<Rightarrow> 'a list \<times> diagnostic list) \<Rightarrow> json \<Rightarrow> string \<Rightarrow> 'a list \<times> diagnostic list" where
  "required_items f doc k = (case array_at doc k of
     Some (j # js) \<Rightarrow> parse_items f k 0 (j # js)
   | _ \<Rightarrow> ([], add_error k ''required non-empty array''))"

definition parse_project :: "json \<Rightarrow> project \<times> diagnostic list" where
  "parse_project doc =
     (if \<not> is_object doc then (default_project, add_error ''$'' ''root must be a JSON object'')
      else
        let version = required (int_at doc ''schemaVersion'') 1 ''schemaVersion'' ''required integer'';
            name = required (case string_at doc ''name'' of Some (c # s) \<Rightarrow> Some (c # s) | _ \<Rightarrow> None) []
              ''name'' ''required non-empty string'';
            base = get_or (int_at doc ''addressBase'') 0;
            opcua = parse_opcua doc;
            endpoints = required_items (single parse_endpoint) doc ''endpoints'';
            profiles = parse_items parse_profile ''deviceProfiles'' 0 (get_or (array_at doc ''deviceProfiles'') []);
            devices = required_items parse_device doc ''devices'';
            groups = required_items parse_group doc ''pollGroups''
        in (\<lparr>prj_schema_version = fst version, prj_name = fst name,
             prj_description = get_or (string_at doc ''description'') [], prj_address_base = base,
             prj_opcua = fst opcua, prj_endpoints = fst endpoints, prj_device_profiles = fst profiles,
             prj_devices = fst devices, prj_poll_groups = fst groups\<rparr>,
            snd version @ snd name @
            (if base \<noteq> 0 \<and> base \<noteq> 1 then add_error ''addressBase'' ''must be 0 or 1'' else []) @
            snd opcua @ snd endpoints @ snd profiles @ snd devices @ snd groups))"

section \<open>Device profiles\<close>

definition profiles_by_id :: "device_profile list \<Rightarrow> (string, device_profile) umap" where
  "profiles_by_id prs = fold (\<lambda>pr m. if prof_id pr \<noteq> [] then emplace (prof_id pr) pr m else m) prs []"

definition tag_overlay :: "tag list \<Rightarrow> (string, tag) umap" where
  "tag_overlay ts = fold (\<lambda>t m. if tag_name t \<noteq> [] then AList.update (tag_name t) t m else m) ts []"

definition merge_profile :: "device_profile \<Rightarrow> tag list \<Rightarrow> tag list" where
  "merge_profile pr ts =
     (let overlay = tag_overlay ts;
          from_profile = filter (\<lambda>n. n \<noteq> []) (map tag_name (prof_tags pr))
      in map (\<lambda>pt. if tag_name pt \<noteq> [] then get_or (map_of overlay (tag_name pt)) pt else pt) (prof_tags pr) @
         filter (\<lambda>t. tag_name t = [] \<or> tag_name t \<notin> set from_profile) ts)"

definition expand_device :: "(string, device_profile) umap \<Rightarrow> device \<Rightarrow> device" where
  "expand_device by_id d =
     (if dev_profile_id d = [] then d
      else case map_of by_id (dev_profile_id d) of
        None \<Rightarrow> d
      | Some pr \<Rightarrow> if prof_tags pr = [] then d else d\<lparr>dev_tags := merge_profile pr (dev_tags d)\<rparr>)"

definition expand_device_profiles :: "project \<Rightarrow> project" where
  "expand_device_profiles p =
     p\<lparr>prj_devices := map (expand_device (profiles_by_id (prj_device_profiles p))) (prj_devices p)\<rparr>"

section \<open>The JSON schema\<close>

text \<open>
  The embedded schema is written for a newer draft than the validator reads: \<open>$defs\<close> becomes
  \<open>definitions\<close> and the references are rewritten. \<open>erase\<close> and \<open>operator[]\<close> of a JSON object.
\<close>

definition set_member :: "string \<Rightarrow> json \<Rightarrow> json \<Rightarrow> json" where
  "set_member k v j = (case j of JObject kvs \<Rightarrow> JObject (AList.update k v kvs) | _ \<Rightarrow> j)"

definition erase_member :: "string \<Rightarrow> json \<Rightarrow> json" where
  "erase_member k j = (case j of JObject kvs \<Rightarrow> JObject (AList.delete k kvs) | _ \<Rightarrow> j)"

definition rewrite_ref :: "string \<Rightarrow> string" where
  "rewrite_ref ref =
     (if take (length ''#/$defs/'') ref = ''#/$defs/'' then ''#/definitions/'' @ drop (length ''#/$defs/'') ref else ref)"

fun rewrite_refs :: "json \<Rightarrow> json" where
  "rewrite_refs (JObject kvs) =
     JObject (map (\<lambda>(k, c). (k, case c of JString s \<Rightarrow> JString (if k = ''$ref'' then rewrite_ref s else s)
                                      | _ \<Rightarrow> rewrite_refs c)) kvs)"
| "rewrite_refs (JArray js) = JArray (map rewrite_refs js)"
| "rewrite_refs j = j"

definition draft7_schema :: "json \<Rightarrow> json" where
  "draft7_schema embedded =
     (let schema = set_member ''$schema'' (JString ''http://json-schema.org/draft-07/schema#'') embedded;
          schema = (case member schema ''$defs'' of
                      Some defs \<Rightarrow> erase_member ''$defs'' (set_member ''definitions'' defs schema)
                    | None \<Rightarrow> schema)
      in rewrite_refs schema)"

section \<open>Loading\<close>

datatype json_outcome = JsonValue json | JsonParseError string | JsonOtherError string

record load_env =
  le_parse :: "string \<Rightarrow> json_outcome"
  le_schema :: "json \<Rightarrow> string + (string \<times> string) list"

text \<open>\<open>le_schema\<close>: the errors of the validator as pointer and message, or what it threw.\<close>

definition append_json_schema_diagnostics :: "load_env \<Rightarrow> json \<Rightarrow> string \<Rightarrow> diagnostic list" where
  "append_json_schema_diagnostics env j source = (case le_schema env j of
     Inl what \<Rightarrow> add_error source (''json schema engine: '' @ what)
   | Inr errs \<Rightarrow> concat (map (\<lambda>(ptr, m). add_error (source @ ptr) (''json schema: '' @ m)) errs))"

definition load_json_text :: "load_env \<Rightarrow> string \<Rightarrow> string \<Rightarrow> string + load_result" where
  "load_json_text env s source = (case le_parse env s of
     JsonOtherError what \<Rightarrow> Inl what
   | JsonParseError what \<Rightarrow>
       Inr \<lparr>lr_ok = False, lr_project = default_project,
            lr_diagnostics = add_error source (''JSON parse error: '' @ what)\<rparr>
   | JsonValue doc \<Rightarrow>
       let pp = parse_project doc;
           p = expand_device_profiles (fst pp);
           ds = snd pp @ append_json_schema_diagnostics env doc source @ validate p
       in Inr \<lparr>lr_ok = list_all (\<lambda>d. diag_severity d \<noteq> SevError) ds, lr_project = p, lr_diagnostics = ds\<rparr>)"

text \<open>\<open>content\<close>: what reading the file gives, \<open>None\<close> when it cannot be opened.\<close>

definition load_file :: "load_env \<Rightarrow> (string \<Rightarrow> string option) \<Rightarrow> string \<Rightarrow> string + load_result" where
  "load_file env content path = (case content path of
     None \<Rightarrow> Inr \<lparr>lr_ok = False, lr_project = default_project, lr_diagnostics = add_error path ''cannot open file''\<rparr>
   | Some s \<Rightarrow> load_json_text env s path)"

section \<open>A loaded project is valid\<close>

text \<open>What the parser itself guarantees of a project it accepts without an error.\<close>

definition well_loaded :: "project \<Rightarrow> bool" where
  "well_loaded p \<longleftrightarrow> prj_name p \<noteq> [] \<and> (prj_address_base p = 0 \<or> prj_address_base p = 1) \<and>
     prj_endpoints p \<noteq> [] \<and> prj_devices p \<noteq> [] \<and> prj_poll_groups p \<noteq> [] \<and>
     list_all (\<lambda>ep. ep_port ep \<noteq> 0) (prj_endpoints p) \<and>
     list_all (\<lambda>u. user_username u \<noteq> []) (ua_users (prj_opcua p))"

lemma no_errors_required [simp]: "no_errors (snd (required x d p m)) \<longleftrightarrow> x \<noteq> None"
  by (simp add: required_def split: option.split)

lemma parse_items_all:
  assumes "\<And>j p. no_errors (snd (f j p)) \<Longrightarrow> list_all Q (fst (f j p))" "no_errors (snd (parse_items f base i js))"
  shows "list_all Q (fst (parse_items f base i js))"
  using assms(2) by (induction js arbitrary: i) (auto simp: assms(1))

lemma required_items_nonempty:
  assumes "no_errors (snd (required_items f j k))" "\<And>j p. no_errors (snd (f j p)) \<Longrightarrow> fst (f j p) \<noteq> []"
  shows "fst (required_items f j k) \<noteq> []"
  using assms by (auto simp: required_items_def split: option.splits list.splits)

lemma required_items_all:
  assumes "\<And>j p. no_errors (snd (f j p)) \<Longrightarrow> list_all Q (fst (f j p))" "no_errors (snd (required_items f j k))"
  shows "list_all Q (fst (required_items f j k))"
  using assms(2) by (auto simp: required_items_def intro: parse_items_all [OF assms(1)] split: option.splits list.splits
      simp del: parse_items.simps)

lemma parse_endpoint_port:
  assumes "no_errors (snd (parse_endpoint j path))" shows "ep_port (fst (parse_endpoint j path)) \<noteq> 0"
proof -
  have "fst (parse_port j p) \<noteq> 0" for p
  proof -
    have "word_of_int i \<noteq> (0 :: u16)" if "1 \<le> i" "i \<le> 65535" for i
      using that by (simp add: word_of_int_eq_0_iff zdvd_not_zless)
    then show ?thesis by (auto simp: parse_port_def not_less split: option.split)
  qed
  then show ?thesis using assms by (simp add: parse_endpoint_def Let_def split: if_splits)
qed

lemma parse_devices_some: "no_errors (snd (parse_device j p)) \<Longrightarrow> fst (parse_device j p) \<noteq> []"
  by (auto simp: parse_device_def Let_def split: if_splits)

lemma parse_groups_some: "no_errors (snd (parse_group j p)) \<Longrightarrow> fst (parse_group j p) \<noteq> []"
  by (auto simp: parse_group_def Let_def split: if_splits)

lemma parse_opcua_users: "list_all (\<lambda>u. user_username u \<noteq> []) (ua_users (fst (parse_opcua j)))"
proof -
  have "list_all (\<lambda>u. user_username u \<noteq> []) (fst (parse_user j p))" for j p
    by (simp add: parse_user_def Let_def)
  then have "list_all (\<lambda>u. user_username u \<noteq> []) (fst (parse_items parse_user b i js))" for b i js
    by (induction js arbitrary: i) auto
  then show ?thesis
    by (simp add: parse_opcua_def default_opc_ua_settings_def Let_def split: option.split json.split)
qed

lemma parse_project_well_loaded:
  assumes "no_errors (snd (parse_project j))" shows "well_loaded (fst (parse_project j))"
proof -
  have e: "no_errors (snd (required_items (single parse_endpoint) j ''endpoints''))"
    "no_errors (snd (required_items parse_device j ''devices''))"
    "no_errors (snd (required_items parse_group j ''pollGroups''))" and o: "is_object j"
    using assms by (auto simp: parse_project_def Let_def split: if_splits)
  have "fst (required_items (single parse_endpoint) j ''endpoints'') \<noteq> []"
    by (rule required_items_nonempty [OF e(1)]) (simp add: single_def)
  moreover have "list_all (\<lambda>ep. ep_port ep \<noteq> 0) (fst (required_items (single parse_endpoint) j ''endpoints''))"
    using e(1) by (rule required_items_all [rotated]) (simp add: single_def parse_endpoint_port)
  moreover have "fst (required_items parse_device j ''devices'') \<noteq> []" "fst (required_items parse_group j ''pollGroups'') \<noteq> []"
    by (rule required_items_nonempty [OF e(2) parse_devices_some], assumption,
        rule required_items_nonempty [OF e(3) parse_groups_some], assumption)
  ultimately show ?thesis using assms parse_opcua_users [of j] o
    by (auto simp: parse_project_def well_loaded_def Let_def required_def
        split: if_splits option.splits list.splits)
qed

lemma expand_keeps [simp]:
  "prj_name (expand_device_profiles p) = prj_name p" "prj_address_base (expand_device_profiles p) = prj_address_base p"
  "prj_endpoints (expand_device_profiles p) = prj_endpoints p" "prj_poll_groups (expand_device_profiles p) = prj_poll_groups p"
  "prj_opcua (expand_device_profiles p) = prj_opcua p" "prj_device_profiles (expand_device_profiles p) = prj_device_profiles p"
  "prj_devices (expand_device_profiles p) = [] \<longleftrightarrow> prj_devices p = []"
  by (simp_all add: expand_device_profiles_def)

lemma schema_clean: "no_errors (append_json_schema_diagnostics env j source) \<longleftrightarrow> le_schema env j = Inr []"
proof (cases "le_schema env j")
  case (Inr es)
  then show ?thesis by (cases es) (auto simp: append_json_schema_diagnostics_def)
qed (simp add: append_json_schema_diagnostics_def)

lemma load_json_text_Inr:
  assumes "load_json_text env s source = Inr r"
  obtains (bad_text) what where "le_parse env s = JsonParseError what" "\<not> lr_ok r"
      "lr_diagnostics r = add_error source (''JSON parse error: '' @ what)" "lr_project r = default_project"
  | (parsed) doc where "le_parse env s = JsonValue doc" "lr_project r = expand_device_profiles (fst (parse_project doc))"
      "lr_diagnostics r = snd (parse_project doc) @ append_json_schema_diagnostics env doc source @ validate (lr_project r)"
      "lr_ok r \<longleftrightarrow> no_errors (lr_diagnostics r)"
  using assms by (auto simp: load_json_text_def Let_def no_errors_def split: json_outcome.splits)

lemma load_json_text_sound:
  assumes "load_json_text env s source = Inr r"
  shows "(lr_ok r \<longleftrightarrow> no_errors (lr_diagnostics r)) \<and>
    (lr_ok r \<longrightarrow> project_ok (lr_project r) \<and> well_loaded (lr_project r) \<and>
       (\<exists>doc. le_parse env s = JsonValue doc \<and> le_schema env doc = Inr []))"
  using assms
proof (cases rule: load_json_text_Inr)
  case (parsed doc)
  have "well_loaded (expand_device_profiles p) \<longleftrightarrow> well_loaded p" for p by (simp add: well_loaded_def)
  then show ?thesis using parsed parse_project_well_loaded [of doc]
    by (auto simp: no_errors_validate schema_clean)
qed simp

text \<open>
  C10: Loading is sound: the result is ok exactly when no diagnostic is an error, and a project that
  loads is valid in the sense of the validation (after its profiles were expanded), was accepted by
  the JSON schema, has a name, an endpoint, a device, a poll group and named users, and none of its
  ports is 0.
\<close>

theorem load_sound:
  assumes "load_json_text env s source = Inr r"
  shows "(lr_ok r \<longleftrightarrow> no_errors (lr_diagnostics r)) \<and>
    (lr_ok r \<longrightarrow> project_ok (lr_project r) \<and> well_loaded (lr_project r) \<and>
       (\<exists>doc. le_parse env s = JsonValue doc \<and> le_schema env doc = Inr []))"
  using assms by (rule load_json_text_sound)

lemma loaded_anonymous_explicit:
  assumes "load_json_text env s source = Inr r" "le_parse env s = JsonValue doc"
    and "ua_users (prj_opcua (lr_project r)) \<noteq> [] \<or> ua_allow_certificate_identity (prj_opcua (lr_project r))"
    and "ua_allow_anonymous (prj_opcua (lr_project r))"
  shows "\<exists>ua. member doc ''opcua'' = Some ua \<and> bool_at ua ''allowAnonymous'' = Some True"
  using assms(1)
proof (cases rule: load_json_text_Inr)
  case (parsed doc')
  then have "prj_opcua (lr_project r) = (if is_object doc then fst (parse_opcua doc) else default_opc_ua_settings)"
    using assms(2) by (simp add: parse_project_def default_project_def Let_def)
  then show ?thesis using assms(3,4)
    by (auto simp: parse_opcua_def default_opc_ua_settings_def Let_def get_or_def split: if_splits option.splits json.splits)
qed (use assms(2) in simp)

text \<open>
  Anonymous access fails closed: a project that names users or accepts certificate identities
  lets nobody in anonymously unless its \<open>opcua\<close> section says \<open>allowAnonymous: true\<close>.
\<close>

theorem anonymous_fails_closed:
  assumes "load_json_text env s source = Inr r" "le_parse env s = JsonValue doc"
    and "ua_users (prj_opcua (lr_project r)) \<noteq> [] \<or> ua_allow_certificate_identity (prj_opcua (lr_project r))"
    and "ua_allow_anonymous (prj_opcua (lr_project r))"
  shows "\<exists>ua. member doc ''opcua'' = Some ua \<and> bool_at ua ''allowAnonymous'' = Some True"
  using assms by (rule loaded_anonymous_explicit)

section \<open>Merging profiles\<close>

lemma map_of_tag_overlay:
  "map_of (tag_overlay ts) n =
     (if n = [] \<or> filter (\<lambda>t. tag_name t = n) ts = [] then None else Some (last (filter (\<lambda>t. tag_name t = n) ts)))"
proof -
  have "map_of (fold (\<lambda>t m. if tag_name t \<noteq> [] then AList.update (tag_name t) t m else m) ts m) n =
     (if n = [] \<or> filter (\<lambda>t. tag_name t = n) ts = [] then map_of m n else Some (last (filter (\<lambda>t. tag_name t = n) ts)))" for m
    by (induction ts arbitrary: m) auto
  then show ?thesis by (simp add: tag_overlay_def)
qed

lemma map_of_profiles_by_id:
  "map_of (profiles_by_id prs) i = (if i = [] then None else find (\<lambda>pr. prof_id pr = i) prs)"
proof -
  have "map_of (fold (\<lambda>pr m. if prof_id pr \<noteq> [] then emplace (prof_id pr) pr m else m) prs m) i =
      (if i = [] then map_of m i else case map_of m i of Some pr \<Rightarrow> Some pr | None \<Rightarrow> find (\<lambda>pr. prof_id pr = i) prs)" for m
    by (induction prs arbitrary: m) (auto split: option.splits)
  then show ?thesis by (simp add: profiles_by_id_def)
qed

text \<open>
  Merging a profile into a device, for the tags of one name in their order: without a tag of that
  name in the profile the device keeps its own; without one on the device it gets the profile's;
  otherwise every profile tag of the name becomes the last tag of the name on the device. Tags
  without a name are all kept, the profile's first.
\<close>

theorem merge_profile_tags_named:
  "filter (\<lambda>t. tag_name t = n) (merge_profile pr ts) =
    (let ps = filter (\<lambda>t. tag_name t = n) (prof_tags pr); ds = filter (\<lambda>t. tag_name t = n) ts
     in if n = [] then ps @ ds else if ps = [] then ds else if ds = [] then ps else map (\<lambda>_. last ds) ps)"
proof -
  define ov where "ov pt = (if tag_name pt \<noteq> [] then get_or (map_of (tag_overlay ts) (tag_name pt)) pt else pt)" for pt
  have name: "tag_name (ov pt) = tag_name pt" for pt
    using last_in_set [of "filter (\<lambda>t. tag_name t = tag_name pt) ts"] by (auto simp: ov_def map_of_tag_overlay)
  have ps: "filter (\<lambda>t. tag_name t = n) (map ov ps) = map ov (filter (\<lambda>t. tag_name t = n) ps)" for ps
    by (simp add: filter_map comp_def name)
  have ov: "map ov (filter (\<lambda>t. tag_name t = n) ps) =
      (if n = [] \<or> filter (\<lambda>t. tag_name t = n) ts = [] then filter (\<lambda>t. tag_name t = n) ps
       else map (\<lambda>_. last (filter (\<lambda>t. tag_name t = n) ts)) (filter (\<lambda>t. tag_name t = n) ps))" for ps
    by (induction ps) (auto simp: ov_def map_of_tag_overlay)
  have "filter (\<lambda>t. tag_name t = n) (filter (\<lambda>t. tag_name t = [] \<or> tag_name t \<notin> set (filter (\<lambda>n. n \<noteq> []) (map tag_name (prof_tags pr)))) ts) =
      (if n = [] \<or> filter (\<lambda>t. tag_name t = n) (prof_tags pr) = [] then filter (\<lambda>t. tag_name t = n) ts else [])"
    by (induction ts) (auto simp: filter_empty_conv image_iff)
  then show ?thesis by (simp add: merge_profile_def ov_def [symmetric] ps ov Let_def)
qed

section \<open>A small project\<close>

definition demo_doc :: json where
  "demo_doc = JObject [
     (''schemaVersion'', JInt 1), (''name'', JString ''demo''),
     (''opcua'', JObject [(''users'', JArray [JObject [(''username'', JString ''op''), (''password'', JString ''pw'')]]),
        (''allowAnonymous'', JBool True)]),
     (''endpoints'', JArray [JObject [(''id'', JString ''e''), (''host'', JString ''h''), (''port'', JInt 502),
        (''transport'', JString ''tcp'')]]),
     (''deviceProfiles'', JArray [JObject [(''id'', JString ''p''), (''name'', JString ''P''), (''tags'', JArray
        [JObject [(''name'', JString ''t''), (''area'', JString ''holding''), (''address'', JInt 1), (''type'', JString ''uint16'')]])]]),
     (''devices'', JArray [JObject [(''id'', JString ''d''), (''endpointId'', JString ''e''), (''unitId'', JInt 1),
        (''profileId'', JString ''p'')]]),
     (''pollGroups'', JArray [JObject [(''id'', JString ''g''), (''periodMs'', JInt 100), (''priority'', JString ''fast''),
        (''deviceId'', JString ''d''), (''tagNames'', JArray [JString ''t''])]])]"

definition demo_env :: load_env where
  "demo_env = \<lparr>le_parse = (\<lambda>s. if s = ''{demo}'' then JsonValue demo_doc else JsonParseError ''syntax''),
     le_schema = (\<lambda>_. Inr [])\<rparr>"

lemmas parse_defs = parse_project_def parse_opcua_def parse_user_def parse_endpoint_def parse_port_def parse_profile_def
  parse_device_def parse_group_def parse_block_def parse_tags_def parse_tag_def required_items_def single_def required_def
  enum_field_def optional_enum_def parse_enum_def kTransport_def kSecurityPolicy_def kSecurityMode_def kArea_def kTagType_def
  kPriority_def at_defs Let_def

definition demo_tag :: tag where
  "demo_tag = default_tag\<lparr>tag_name := ''t'', tag_address := 1\<rparr>"

definition demo_project :: project where
  "demo_project = \<lparr>prj_schema_version = 1, prj_name = ''demo'', prj_description = [], prj_address_base = 0,
     prj_opcua = default_opc_ua_settings\<lparr>ua_users := [\<lparr>user_username = ''op'', user_password = ''pw''\<rparr>]\<rparr>,
     prj_endpoints = [default_endpoint\<lparr>ep_id := ''e'', ep_host := ''h''\<rparr>],
     prj_device_profiles = [\<lparr>prof_id = ''p'', prof_name = ''P'', prof_vendor = [], prof_description = [], prof_tags = [demo_tag]\<rparr>],
     prj_devices = [\<lparr>dev_id = ''d'', dev_endpoint_id = ''e'', dev_unit_id = 1, dev_profile_id = ''p'', dev_description = [],
       dev_tags = []\<rparr>],
     prj_poll_groups = [\<lparr>grp_id = ''g'', grp_period_ms = 100, grp_priority = Fast, grp_device_id = ''d'', grp_blocks = [],
       grp_tag_names = [''t'']\<rparr>]\<rparr>"

lemma parse_demo: "parse_project demo_doc = (demo_project, [])"
  by (simp add: demo_doc_def demo_project_def demo_tag_def default_tag_def default_endpoint_def default_opc_ua_settings_def
      parse_defs)

lemma expand_demo:
  "prj_devices (expand_device_profiles demo_project) = map (dev_tags_update (\<lambda>_. [demo_tag])) (prj_devices demo_project)"
  by (simp add: expand_device_profiles_def demo_project_def demo_tag_def default_tag_def profiles_by_id_def expand_device_def
      merge_profile_def tag_overlay_def emplace_def)

lemma validate_demo: "no_errors (validate (expand_device_profiles demo_project))"
  unfolding no_errors_validate project_ok_def device_ok_def group_ok_def
  by (simp add: expand_demo)
    (simp add: demo_project_def demo_tag_def default_tag_def default_endpoint_def tag_ok_def valid_byte_order_def
      expand_device_profiles_def)

definition demo_load :: load_result where
  "demo_load = \<lparr>lr_ok = True, lr_project = expand_device_profiles demo_project,
     lr_diagnostics = validate (expand_device_profiles demo_project)\<rparr>"

lemma load_demo: "load_json_text demo_env ''{demo}'' ''demo.json'' = Inr demo_load"
  using validate_demo by (simp add: demo_load_def load_json_text_def demo_env_def Let_def parse_demo
      append_json_schema_diagnostics_def no_errors_def)

theorem load_sound_witness: "project_ok (lr_project demo_load) \<and> well_loaded (lr_project demo_load)"
  using load_sound [OF load_demo] by (simp add: demo_load_def)

theorem anonymous_fails_closed_witness: "\<exists>ua. member demo_doc ''opcua'' = Some ua \<and> bool_at ua ''allowAnonymous'' = Some True"
  by (rule anonymous_fails_closed [OF load_demo])
    (simp_all add: demo_env_def demo_load_def demo_project_def default_opc_ua_settings_def)

end
