(* ===== verification/Ua_Security.thy ===== *)
theory Ua_Security
  imports Project_Types
begin

text \<open>
  Security of the OPC UA server: \<open>Src/adapters/ua_pki.cpp\<close> and the functions of
  \<open>Src/adapters/opc_ua_server.cpp\<close> that choose end points, certificate verification and access
  control. The open62541 library is not part of the sources: its configuration is reduced to the
  fields the code reads and writes (\<open>ua_config\<close>), and its calls are fields of \<open>ua_lib\<close> that say
  whether they succeed and what configuration they build. \<open>files\<close> gives the bytes of a readable file.
  The log messages of these functions are left out.
\<close>

section \<open>Configuration\<close>

type_synonym bytes = "u8 list"

record ua_security_options =
  sec_certificate_path :: string
  sec_private_key_path :: string
  sec_trust_list :: "string list"
  sec_revocation_list :: "string list"
  sec_generate_if_missing :: bool
  sec_accept_untrusted :: bool

text \<open>\<open>PkiUnset\<close>: no verification callback; \<open>PkiLibrary\<close>: the one the library installed.\<close>

datatype ua_pki = PkiUnset | PkiAcceptAll | PkiTrustlist "bytes list" "bytes list" | PkiLibrary

record ua_endpoint_description =
  ued_mode :: int
  ued_policy_uri :: string

record ua_config =
  uc_endpoints :: "ua_endpoint_description list"
  uc_channel_pki :: ua_pki
  uc_session_pki :: ua_pki
  uc_access :: "(bool \<times> opc_ua_user list) option"
  uc_allow_none_password :: bool
  uc_server_urls :: "string list"
  uc_application_name :: string
  uc_application_uri :: string

record ua_lib =
  lib_encryption :: bool
  lib_minimal :: "u16 \<Rightarrow> ua_config option"
  lib_policies :: "u16 \<Rightarrow> bytes \<Rightarrow> bytes \<Rightarrow> bytes list \<Rightarrow> bytes list \<Rightarrow> ua_config option"
  lib_trustlist :: "bytes list \<Rightarrow> bytes list \<Rightarrow> bool"
  lib_access_control :: bool
  lib_alloc :: bool
  lib_create_certificate :: "string \<Rightarrow> string + bytes \<times> bytes"

definition pki_error :: "error_code \<Rightarrow> string \<Rightarrow> error" where
  "pki_error c m = mk_error c m ''adapters.opcua.pki'' False"

definition ua_error :: "error_code \<Rightarrow> string \<Rightarrow> error" where
  "ua_error c m = mk_error c m ''adapters.opcua'' False"

section \<open>Certificates\<close>

definition read_all_bytes :: "(string \<Rightarrow> bytes option) \<Rightarrow> string \<Rightarrow> bytes result" where
  "read_all_bytes files path = (case files path of
     None \<Rightarrow> Err (pki_error EC_InvalidArgument (''cannot read PKI file: '' @ path))
   | Some b \<Rightarrow> Ok b)"

fun ua_security_policy_uri :: "security_policy \<Rightarrow> string" where
  "ua_security_policy_uri Basic256Sha256 = ''http://opcfoundation.org/UA/SecurityPolicy#Basic256Sha256''"
| "ua_security_policy_uri SP_None = ''http://opcfoundation.org/UA/SecurityPolicy#None''"

fun ua_message_security_mode :: "security_mode \<Rightarrow> int" where
  "ua_message_security_mode Sign = 2"
| "ua_message_security_mode SignAndEncrypt = 3"
| "ua_message_security_mode SM_None = 1"

definition load_or_create_application_cert ::
  "ua_lib \<Rightarrow> (string \<Rightarrow> bytes option) \<Rightarrow> string \<Rightarrow> ua_security_options \<Rightarrow> (bytes \<times> bytes) result" where
  "load_or_create_application_cert lib files application_uri opts =
     (if sec_certificate_path opts \<noteq> [] \<and> sec_private_key_path opts \<noteq> [] then
        and_then (read_all_bytes files (sec_certificate_path opts)) (\<lambda>cert.
        and_then (read_all_bytes files (sec_private_key_path opts)) (\<lambda>key. Ok (cert, key)))
      else if \<not> sec_generate_if_missing opts then
        Err (pki_error EC_InvalidArgument
          ''Sign/Encrypt requires --ua-cert and --ua-key (or enable self-signed generation)'')
      else if \<not> lib_encryption lib then
        Err (pki_error EC_NotImplemented ''open62541 was built without UA_ENABLE_ENCRYPTION'')
      else let uri = (if application_uri = [] then ''urn:opc-server:application'' else application_uri)
           in case lib_create_certificate lib (''URI:'' @ uri) of
                Inl status \<Rightarrow> Err (pki_error EC_Internal (''UA_CreateCertificate failed: '' @ status))
              | Inr ck \<Rightarrow> Ok ck)"

text \<open>The loops that read trust and revocation lists.\<close>

fun read_files :: "(string \<Rightarrow> bytes option) \<Rightarrow> string list \<Rightarrow> bytes list option" where
  "read_files files [] = Some []"
| "read_files files (p # ps) = (case files p of
     None \<Rightarrow> None
   | Some b \<Rightarrow> map_option (\<lambda>bs. b # bs) (read_files files ps))"

section \<open>End points and identities\<close>

definition keep_security_endpoints :: "int \<Rightarrow> string \<Rightarrow> ua_config \<Rightarrow> ua_config" where
  "keep_security_endpoints mode policy_uri c =
     c\<lparr>uc_endpoints := filter (\<lambda>ep. ued_mode ep = mode \<and> ued_policy_uri ep = policy_uri) (uc_endpoints c)\<rparr>"

definition configure_session_pki_for_identity ::
  "ua_lib \<Rightarrow> (string \<Rightarrow> bytes option) \<Rightarrow> opc_ua_settings \<Rightarrow> ua_security_options \<Rightarrow> ua_config \<Rightarrow> ua_config result" where
  "configure_session_pki_for_identity lib files opcua sec c =
     (if \<not> ua_allow_certificate_identity opcua then Ok (c\<lparr>uc_session_pki := PkiUnset\<rparr>)
      else if ua_security_mode opcua = SM_None \<and> \<not> ua_allow_none_certificate opcua then
        Err (ua_error EC_InvalidArgument (''X509IdentityToken with SecurityMode None requires opcua.allowNoneCertificate '' @
          ''or --ua-allow-none-certificate''))
      else if \<not> lib_encryption lib then
        Err (ua_error EC_NotImplemented ''X509IdentityToken requires UA_ENABLE_ENCRYPTION'')
      else if ua_security_mode opcua = SM_None then
        (if sec_accept_untrusted sec then Ok (c\<lparr>uc_session_pki := PkiAcceptAll\<rparr>)
         else if sec_trust_list sec = [] then
           Err (ua_error EC_InvalidArgument ''X509IdentityToken over None requires --ua-trust (or --ua-accept-untrusted)'')
         else case read_files files (sec_trust_list sec) of
           None \<Rightarrow> Err (ua_error EC_InvalidArgument ''cannot read --ua-trust certificate for sessionPKI'')
         | Some trust \<Rightarrow> (case read_files files (sec_revocation_list sec) of
             None \<Rightarrow> Err (ua_error EC_InvalidArgument ''cannot read --ua-crl for sessionPKI'')
           | Some crl \<Rightarrow>
               if \<not> lib_trustlist lib trust crl
               then Err (ua_error EC_Internal ''sessionPKI Trustlist install failed'')
               else Ok (c\<lparr>uc_session_pki := PkiTrustlist trust crl\<rparr>)))
      else if sec_accept_untrusted sec then Ok c
      else if sec_trust_list sec = [] then
        Err (ua_error EC_InvalidArgument ''X509IdentityToken requires --ua-trust (or --ua-accept-untrusted for lab)'')
      else if uc_session_pki c = PkiUnset then
        Err (ua_error EC_Internal ''sessionPKI missing after encrypted config; cannot enable X509IdentityToken'')
      else Ok c)"

text \<open>\<open>uc_access\<close>: what \<open>UA_AccessControl_default\<close> was called with, \<open>None\<close> for the library's default.\<close>

definition apply_identity_access_control :: "ua_lib \<Rightarrow> opc_ua_settings \<Rightarrow> ua_config \<Rightarrow> ua_config result" where
  "apply_identity_access_control lib opcua c =
     (if \<not> (ua_users opcua \<noteq> [] \<or> \<not> ua_allow_anonymous opcua \<or> ua_allow_certificate_identity opcua) then Ok c
      else if ua_users opcua \<noteq> [] \<and> ua_security_mode opcua = SM_None \<and> \<not> ua_allow_none_password opcua then
        Err (ua_error EC_InvalidArgument (''username/password with SecurityMode None requires opcua.allowNonePassword '' @
          ''or --ua-allow-none-password (credentials would be plaintext)''))
      else if ua_allow_certificate_identity opcua \<and> uc_session_pki c = PkiUnset then
        Err (ua_error EC_Internal ''X509IdentityToken enabled but sessionPKI.verifyCertificate is unset'')
      else if \<not> lib_access_control lib then Err (ua_error EC_Internal ''UA_AccessControl_default failed'')
      else let c = c\<lparr>uc_access := Some (ua_allow_anonymous opcua, ua_users opcua)\<rparr>
           in Ok (if ua_users opcua \<noteq> [] \<and> ua_security_mode opcua = SM_None \<and> ua_allow_none_password opcua
                  then c\<lparr>uc_allow_none_password := True\<rparr> else c))"

section \<open>The configuration of a server\<close>

text \<open>The encrypted configuration of \<open>OpcUaServer::start\<close>.\<close>

definition secure_config ::
  "ua_lib \<Rightarrow> (string \<Rightarrow> bytes option) \<Rightarrow> ua_security_options \<Rightarrow> opc_ua_settings \<Rightarrow> u16 \<Rightarrow> ua_config result" where
  "secure_config lib files sec opcua port =
     (let uri = (if ua_namespace_uri opcua = [] then ''urn:opc-server:application'' else ua_namespace_uri opcua)
      in and_then (load_or_create_application_cert lib files uri sec) (\<lambda>(cert, key).
         case read_files files (sec_trust_list sec) of
           None \<Rightarrow> Err (ua_error EC_InvalidArgument ''cannot read --ua-trust certificate'')
         | Some trust \<Rightarrow> (case read_files files (sec_revocation_list sec) of
             None \<Rightarrow> Err (ua_error EC_InvalidArgument ''cannot read --ua-crl revocation list'')
           | Some crl \<Rightarrow> (case lib_policies lib port cert key trust crl of
               None \<Rightarrow> Err (ua_error EC_Internal ''UA encrypted config failed'')
             | Some c \<Rightarrow>
                 let c = (if sec_accept_untrusted sec then c\<lparr>uc_channel_pki := PkiAcceptAll, uc_session_pki := PkiAcceptAll\<rparr> else c);
                     policy = (if ua_security_policy opcua = SP_None then ua_security_policy_uri Basic256Sha256
                               else ua_security_policy_uri (ua_security_policy opcua));
                     c = keep_security_endpoints (ua_message_security_mode (ua_security_mode opcua)) policy c
                 in if uc_endpoints c = [] then Err (ua_error EC_Internal ''UA encrypted config failed'') else Ok c))))"

definition base_config ::
  "ua_lib \<Rightarrow> (string \<Rightarrow> bytes option) \<Rightarrow> ua_security_options \<Rightarrow> opc_ua_settings \<Rightarrow> u16 \<Rightarrow> ua_config result" where
  "base_config lib files sec opcua port =
     (if ua_security_mode opcua = SM_None
      then case lib_minimal lib port of
             None \<Rightarrow> Err (ua_error EC_Internal ''UA_ServerConfig_setMinimal failed'')
           | Some c \<Rightarrow> Ok c
      else secure_config lib files sec opcua port)"

end
