(* ===== verification/Gen_Nodeset.thy ===== *)
theory Gen_Nodeset
  imports Project_Types Text_Util "HOL-Library.List_Lexorder" "HOL-Library.Char_ord"
begin

text \<open>
  \<open>Src/project/gen_nodeset.cpp\<close>: the OPC UA NodeSet document of a project. The \<open>std::set\<close> of folder
  paths is the sorted list without repetitions, in the lexicographic order of bytes.
\<close>

section \<open>Text and paths\<close>

abbreviation dq :: string where "dq \<equiv> [CHR 0x22]"
abbreviation nl :: string where "nl \<equiv> [CHR 0x0A]"

definition xml_char :: "char \<Rightarrow> string" where
  "xml_char c =
     (if c = CHR ''&'' then ''&amp;''
      else if c = CHR ''<'' then ''&lt;''
      else if c = CHR ''>'' then ''&gt;''
      else if c = CHR 0x22 then ''&quot;''
      else if c = CHR 0x27 then ''&apos;''
      else [c])"

definition xml_escape :: "string \<Rightarrow> string" where
  "xml_escape s = concat (map xml_char s)"

fun split_scan :: "string \<Rightarrow> string \<Rightarrow> string list" where
  "split_scan current [] = (if current = [] then [] else [current])"
| "split_scan current (c # s) =
     (if c = CHR ''/'' then (if current = [] then split_scan [] s else current # split_scan [] s)
      else split_scan (current @ [c]) s)"

definition split_path :: "string \<Rightarrow> string list" where
  "split_path path = split_scan [] path"

definition resolved_node_path :: "tag \<Rightarrow> string" where
  "resolved_node_path t =
     (if tag_node_path t \<noteq> [] then
        case split_path (tag_node_path t) of
          [] \<Rightarrow> ''Plant/'' @ tag_name t
        | [part] \<Rightarrow> ''Plant/'' @ part
        | _ \<Rightarrow> tag_node_path t
      else ''Plant/'' @ tag_name t)"

fun ua_data_type :: "tag_type \<Rightarrow> string" where
  "ua_data_type TBool = ''Boolean''"
| "ua_data_type TUInt16 = ''UInt16''"
| "ua_data_type TInt16 = ''Int16''"
| "ua_data_type TUInt32 = ''UInt32''"
| "ua_data_type TInt32 = ''Int32''"
| "ua_data_type TFloat32 = ''Float''"
| "ua_data_type TFloat64 = ''Double''"

definition parent_path :: "string \<Rightarrow> string" where
  "parent_path path =
     (if CHR ''/'' \<in> set path then rev (tl (dropWhile (\<lambda>c. c \<noteq> CHR ''/'') (rev path))) else [])"

definition browse_name :: "string \<Rightarrow> string" where
  "browse_name path = rev (takeWhile (\<lambda>c. c \<noteq> CHR ''/'') (rev path))"

section \<open>The document\<close>

text \<open>The proper prefixes of a path, from the shortest.\<close>

fun folders_of :: "string \<Rightarrow> string list \<Rightarrow> string list" where
  "folders_of cumulative (part # next # parts) =
     (let c = (if cumulative = [] then part else cumulative @ ''/'' @ part) in c # folders_of c (next # parts))"
| "folders_of cumulative parts = []"

definition nodeset_variables :: "project \<Rightarrow> (string \<times> tag) list" where
  "nodeset_variables p = map (\<lambda>t. (resolved_node_path t, t)) (concat (map dev_tags (prj_devices p)))"

definition nodeset_folders :: "project \<Rightarrow> string list" where
  "nodeset_folders p =
     sort (remdups (concat (map (\<lambda>(path, t). folders_of [] (split_path path)) (nodeset_variables p))))"

definition parent_id :: "string \<Rightarrow> string" where
  "parent_id path = (if parent_path path = [] then ''i=85'' else ''ns=1;s='' @ parent_path path)"

definition alias_line :: "string \<Rightarrow> string \<Rightarrow> string" where
  "alias_line name i = ''    <Alias Alias='' @ dq @ name @ dq @ ''>'' @ i @ ''</Alias>'' @ nl"

definition nodeset_header :: "project \<Rightarrow> string" where
  "nodeset_header p =
     (let ns_uri = (if ua_namespace_uri (prj_opcua p) = [] then ''urn:opc-server:'' @ prj_name p
                    else ua_namespace_uri (prj_opcua p))
      in ''<?xml version='' @ dq @ ''1.0'' @ dq @ '' encoding='' @ dq @ ''utf-8'' @ dq @ ''?>'' @ nl @
         ''<UANodeSet xmlns='' @ dq @ ''http://opcfoundation.org/UA/2011/03/UANodeSet.xsd'' @ dq @ nl @
         ''           xmlns:xsi='' @ dq @ ''http://www.w3.org/2001/XMLSchema-instance'' @ dq @ nl @
         ''           xmlns:uax='' @ dq @ ''http://opcfoundation.org/UA/2008/02/Types.xsd'' @ dq @ ''>'' @ nl @
         ''  <NamespaceUris>'' @ nl @ ''    <Uri>'' @ xml_escape ns_uri @ ''</Uri>'' @ nl @ ''  </NamespaceUris>'' @ nl @
         ''  <Aliases>'' @ nl @
         concat (map (\<lambda>(name, i). alias_line name i)
           [(''Boolean'', ''i=1''), (''Int16'', ''i=4''), (''UInt16'', ''i=5''), (''Int32'', ''i=6''), (''UInt32'', ''i=7''),
            (''Float'', ''i=10''), (''Double'', ''i=11''), (''Organizes'', ''i=35''), (''HasComponent'', ''i=47''),
            (''HasTypeDefinition'', ''i=40''), (''FolderType'', ''i=61''), (''BaseDataVariableType'', ''i=63'')]) @
         ''  </Aliases>'' @ nl)"

definition folder_xml :: "string \<Rightarrow> string" where
  "folder_xml folder =
     ''  <UAObject NodeId='' @ dq @ ''ns=1;s='' @ xml_escape folder @ dq @ '' BrowseName='' @ dq @ ''1:'' @
     xml_escape (browse_name folder) @ dq @ ''>'' @ nl @
     ''    <DisplayName>'' @ xml_escape (browse_name folder) @ ''</DisplayName>'' @ nl @
     ''    <References>'' @ nl @
     ''      <Reference ReferenceType='' @ dq @ ''Organizes'' @ dq @ '' IsForward='' @ dq @ ''false'' @ dq @ ''>'' @
     xml_escape (parent_id folder) @ ''</Reference>'' @ nl @
     ''      <Reference ReferenceType='' @ dq @ ''HasTypeDefinition'' @ dq @ ''>i=61</Reference>'' @ nl @
     ''    </References>'' @ nl @ ''  </UAObject>'' @ nl"

definition variable_xml :: "string \<times> tag \<Rightarrow> string" where
  "variable_xml row = (case row of (path, t) \<Rightarrow>
     let access = (if tag_writable t then ''3'' else ''1'');
         desc = (if tag_description t = [] then tag_name t else tag_description t)
     in ''  <UAVariable NodeId='' @ dq @ ''ns=1;s='' @ xml_escape path @ dq @ '' BrowseName='' @ dq @ ''1:'' @
        xml_escape (browse_name path) @ dq @ '' DataType='' @ dq @ ua_data_type (tag_ty t) @ dq @
        '' ValueRank='' @ dq @ ''-1'' @ dq @ '' AccessLevel='' @ dq @ access @ dq @ '' UserAccessLevel='' @ dq @ access @ dq @
        ''>'' @ nl @
        ''    <DisplayName>'' @ xml_escape (browse_name path) @ ''</DisplayName>'' @ nl @
        ''    <Description>'' @ xml_escape desc @ ''</Description>'' @ nl @
        ''    <References>'' @ nl @
        ''      <Reference ReferenceType='' @ dq @ ''HasComponent'' @ dq @ '' IsForward='' @ dq @ ''false'' @ dq @ ''>'' @
        xml_escape (parent_id path) @ ''</Reference>'' @ nl @
        ''      <Reference ReferenceType='' @ dq @ ''HasTypeDefinition'' @ dq @ ''>i=63</Reference>'' @ nl @
        ''    </References>'' @ nl @ ''  </UAVariable>'' @ nl)"

definition generate_nodeset :: "project \<Rightarrow> string" where
  "generate_nodeset p =
     nodeset_header p @ concat (map folder_xml (nodeset_folders p)) @ concat (map variable_xml (nodeset_variables p)) @
     ''</UANodeSet>'' @ nl"

section \<open>Escaping\<close>

text \<open>The reading of the five entities an XML parser does.\<close>

fun xml_unescape :: "string \<Rightarrow> string" where
  "xml_unescape [] = []"
| "xml_unescape (c # s) =
     (if c \<noteq> CHR ''&'' then c # xml_unescape s
      else if take 4 s = ''amp;'' then CHR ''&'' # xml_unescape (drop 4 s)
      else if take 3 s = ''lt;'' then CHR ''<'' # xml_unescape (drop 3 s)
      else if take 3 s = ''gt;'' then CHR ''>'' # xml_unescape (drop 3 s)
      else if take 5 s = ''quot;'' then CHR 0x22 # xml_unescape (drop 5 s)
      else if take 5 s = ''apos;'' then CHR 0x27 # xml_unescape (drop 5 s)
      else c # xml_unescape s)"

lemma xml_unescape_char: "xml_unescape (xml_char c @ s) = c # xml_unescape s"
  by (simp add: xml_char_def)

text \<open>
  Escaped text can be put into XML attributes and elements: it contains none of the characters
  that end them, and reading the entities gives the original text back.
\<close>

theorem xml_escape_roundtrip:
  "xml_unescape (xml_escape s) = s \<and> set (xml_escape s) \<inter> {CHR ''<'', CHR ''>'', CHR 0x22, CHR 0x27} = {}"
proof (induction s)
  case (Cons c s)
  have "set (xml_char c) \<inter> {CHR ''<'', CHR ''>'', CHR 0x22, CHR 0x27} = {}" by (auto simp: xml_char_def)
  then show ?case using Cons xml_unescape_char [of c "xml_escape s"] by (auto simp: xml_escape_def)
qed (simp add: xml_escape_def)

section \<open>No dangling parents\<close>

text \<open>Paths in normal form: non-empty parts without slashes, joined by single slashes.\<close>

fun join_path :: "string list \<Rightarrow> string" where
  "join_path [] = []"
| "join_path [part] = part"
| "join_path (part # q # parts) = part @ ''/'' @ join_path (q # parts)"

definition path_part :: "string \<Rightarrow> bool" where
  "path_part s \<longleftrightarrow> s \<noteq> [] \<and> CHR ''/'' \<notin> set s"

lemma join_path_snoc: "ps \<noteq> [] \<Longrightarrow> join_path (ps @ [p]) = join_path ps @ ''/'' @ p"
  by (induction ps rule: join_path.induct) auto

lemma join_path_nonempty: "ps \<noteq> [] \<Longrightarrow> list_all path_part ps \<Longrightarrow> join_path ps \<noteq> []"
  by (induction ps rule: join_path.induct) (auto simp: path_part_def)

lemma split_path_parts: "list_all path_part (split_path path)"
proof -
  have "CHR ''/'' \<notin> set cur \<Longrightarrow> list_all path_part (split_scan cur s)" for cur s
    by (induction cur s rule: split_scan.induct) (auto simp: path_part_def)
  then show ?thesis by (simp add: split_path_def)
qed

lemma split_join: "list_all path_part ps \<Longrightarrow> split_path (join_path ps) = ps"
proof -
  have s: "CHR ''/'' \<notin> set p \<Longrightarrow> split_scan cur (p @ s) = split_scan (cur @ p) s" for p cur s
    by (induction p arbitrary: cur) auto
  show "list_all path_part ps \<Longrightarrow> split_path (join_path ps) = ps"
    unfolding split_path_def
  proof (induction ps rule: join_path.induct)
    case (2 p)
    then show ?case using s [of p "[]" "[]"] by (simp add: path_part_def)
  next
    case (3 p q ps)
    then show ?case using s [of p "[]" "CHR ''/'' # join_path (q # ps)"] by (simp add: path_part_def)
  qed simp
qed

lemma parent_path_snoc: "path_part p \<Longrightarrow> parent_path (s @ ''/'' @ p) = s"
proof -
  assume "path_part p"
  then have "dropWhile (\<lambda>c. c \<noteq> CHR ''/'') (rev p @ CHR ''/'' # rev s) = CHR ''/'' # rev s"
    by (subst dropWhile_append2) (auto simp: path_part_def)
  then show ?thesis by (simp add: parent_path_def)
qed

lemma parent_path_join:
  assumes "list_all path_part ps" shows "parent_path (join_path ps) = join_path (butlast ps)"
proof (cases ps rule: rev_cases)
  case (snoc qs p)
  then show ?thesis using assms parent_path_snoc [of p] join_path_snoc [of qs p]
    by (cases "qs = []") (auto simp: parent_path_def path_part_def)
qed (simp add: parent_path_def)

lemma folders_of_prefixes:
  assumes "list_all path_part parts"
  shows "folders_of [] parts = map (\<lambda>i. join_path (take i parts)) [1..<length parts]"
proof -
  have "folders_of (join_path pre) parts = map (\<lambda>i. join_path (pre @ take i parts)) [1..<length parts]"
    if "list_all path_part (pre @ parts)" for pre
    using that
  proof (induction "join_path pre" parts arbitrary: pre rule: folders_of.induct)
    case (1 part q parts)
    have c: "(if join_path pre = [] then part else join_path pre @ ''/'' @ part) = join_path (pre @ [part])"
      using "1.prems" join_path_nonempty [of pre] join_path_snoc [of pre part] by (cases "pre = []") auto
    have "folders_of (join_path (pre @ [part])) (q # parts) =
        map (\<lambda>i. join_path ((pre @ [part]) @ take i (q # parts))) [1..<length (q # parts)]"
      by (rule "1.hyps" [OF c [symmetric]]) (use "1.prems" in simp)
    moreover have "[1..<length (part # q # parts)] = 1 # map Suc [1..<length (q # parts)]"
      by (simp add: map_Suc_upt upt_conv_Cons del: upt_Suc)
    ultimately show ?case by (simp only: folders_of.simps Let_def c) (simp add: comp_def)
  qed auto
  from this [of "[]"] show ?thesis using assms by simp
qed

lemma in_folders:
  "f \<in> set (nodeset_folders p) \<longleftrightarrow>
   (\<exists>row \<in> set (nodeset_variables p). \<exists>i. 1 \<le> i \<and> i < length (split_path (fst row)) \<and> f = join_path (take i (split_path (fst row))))"
  by (force simp: nodeset_folders_def folders_of_prefixes [OF split_path_parts])

lemma list_all_take: "list_all P xs \<Longrightarrow> list_all P (take n xs)"
  by (auto simp: list_all_iff dest: in_set_takeD)


definition nodeset_lab :: project where
  "nodeset_lab = default_project\<lparr>prj_devices := [\<lparr>dev_id = ''d'', dev_endpoint_id = ''e'', dev_unit_id = 1, dev_profile_id = [],
     dev_description = [], dev_tags = [default_tag\<lparr>tag_name := ''Level''\<rparr>]\<rparr>]\<rparr>"


end
