(* ===== verification/Translator.thy ===== *)
theory Translator
  imports Project_Types
begin

text \<open>
  The register codec of \<open>Src/core/translator.cpp\<close>: \<open>Translator::decode\<close> turns the registers read for
  a tag into an engineering value, \<open>Translator::encode\<close> turns an engineering value into the
  registers to write. Byte orders, scaling in \<open>double\<close>, the range checks of the integer
  conversions and the float bit patterns are those of the source.
\<close>

section \<open>Register counts and byte orders\<close>

definition translator_error :: "error_code \<Rightarrow> string \<Rightarrow> 'a result" where
  "translator_error c m = Err (mk_error c m ''core.translator'' False)"

fun register_count_for :: "tag_type \<Rightarrow> int" where
  "register_count_for TBool = 1"
| "register_count_for TUInt16 = 1"
| "register_count_for TInt16 = 1"
| "register_count_for TUInt32 = 2"
| "register_count_for TInt32 = 2"
| "register_count_for TFloat32 = 2"
| "register_count_for TFloat64 = 4"

definition ensure_count :: "tag \<Rightarrow> u16 list \<Rightarrow> unit result" where
  "ensure_count t registers =
     (let need = (case tag_quantity t of Some q \<Rightarrow> q | None \<Rightarrow> register_count_for (tag_ty t))
      in if int (length registers) < need
         then translator_error EC_Decoding ''not enough registers for tag type''
         else Ok ())"

definition effective_order :: "tag \<Rightarrow> string" where
  "effective_order t =
     (if tag_byte_order t \<noteq> [] then tag_byte_order t
      else case tag_ty t of
             TUInt16 \<Rightarrow> ''AB''
           | TInt16 \<Rightarrow> ''AB''
           | TBool \<Rightarrow> []
           | _ \<Rightarrow> ''ABCD'')"

definition reorder_u16 :: "u16 \<Rightarrow> string \<Rightarrow> u16 result" where
  "reorder_u16 raw order =
     (if order = [] \<or> order = ''AB'' then Ok raw
      else if order = ''BA''
      then Ok (push_bit 8 (raw AND 0x00FF) OR drop_bit 8 (raw AND 0xFF00))
      else translator_error EC_Decoding ''unsupported byteOrder for 16-bit'')"

type_synonym be_bytes = "u8 \<times> u8 \<times> u8 \<times> u8"

definition regs_to_be_bytes :: "u16 list \<Rightarrow> string \<Rightarrow> be_bytes result" where
  "regs_to_be_bytes regs order =
     (if length regs < 2 then translator_error EC_Decoding ''need 2 registers''
      else let a = hi8 (regs ! 0); b = lo8 (regs ! 0); c = hi8 (regs ! 1); d = lo8 (regs ! 1)
           in if order = ''ABCD'' then Ok (a, b, c, d)
              else if order = ''CDAB'' then Ok (c, d, a, b)
              else if order = ''BADC'' then Ok (b, a, d, c)
              else if order = ''DCBA'' then Ok (d, c, b, a)
              else translator_error EC_Decoding ''unsupported byteOrder for 32-bit'')"

definition be_bytes_to_regs :: "be_bytes \<Rightarrow> string \<Rightarrow> (u16 \<times> u16) result" where
  "be_bytes_to_regs be order =
     (case be of (a, b, c, d) \<Rightarrow>
        and_then
          (if order = ''ABCD'' then Ok (a, b, c, d)
           else if order = ''CDAB'' then Ok (c, d, a, b)
           else if order = ''BADC'' then Ok (b, a, d, c)
           else if order = ''DCBA'' then Ok (d, c, b, a)
           else translator_error EC_Decoding ''unsupported byteOrder for 32-bit'')
          (\<lambda>(w0, w1, w2, w3). Ok (join8 w0 w1, join8 w2 w3)))"

definition bytes_to_u32 :: "be_bytes \<Rightarrow> u32" where
  "bytes_to_u32 be = (case be of (a, b, c, d) \<Rightarrow>
     push_bit 24 (ucast a) OR push_bit 16 (ucast b) OR push_bit 8 (ucast c) OR ucast d)"

definition u32_to_bytes :: "u32 \<Rightarrow> be_bytes" where
  "u32_to_bytes v =
     (ucast (drop_bit 24 v AND 0xFF), ucast (drop_bit 16 v AND 0xFF),
      ucast (drop_bit 8 v AND 0xFF), ucast (v AND 0xFF))"

definition bytes_to_float :: "be_bytes \<Rightarrow> fp" where
  "bytes_to_float be = (case be of (a, b, c, d) \<Rightarrow>
     fp_of_bits32 (push_bit 24 (ucast a) OR push_bit 16 (ucast b) OR push_bit 8 (ucast c) OR ucast d))"

definition float_to_bytes :: "fp \<Rightarrow> be_bytes" where
  "float_to_bytes f =
     (let bits = fp_to_bits32 f in
      (ucast (drop_bit 24 bits AND 0xFF), ucast (drop_bit 16 bits AND 0xFF),
       ucast (drop_bit 8 bits AND 0xFF), ucast (bits AND 0xFF)))"

section \<open>Scaling and range checks\<close>

definition apply_scale :: "fp \<Rightarrow> tag \<Rightarrow> fp" where
  "apply_scale raw t = fp_add binary64 (fp_mul binary64 raw (tag_scale t)) (tag_offset t)"

definition invert_scale :: "fp \<Rightarrow> tag \<Rightarrow> fp result" where
  "invert_scale eng t =
     (if \<not> fp_isfinite eng \<or> \<not> fp_isfinite (tag_scale t) \<or> \<not> fp_isfinite (tag_offset t)
      then translator_error EC_InvalidArgument ''non-finite scale/value''
      else if fp_eq (tag_scale t) fp_zero64
      then translator_error EC_InvalidArgument ''scale is zero''
      else let raw = fp_div binary64 (fp_sub binary64 eng (tag_offset t)) (tag_scale t)
           in if \<not> fp_isfinite raw
              then translator_error EC_InvalidArgument ''scaled value is out of range''
              else Ok raw)"

fun scalar_to_double :: "scalar_value \<Rightarrow> fp result" where
  "scalar_to_double SMono = translator_error EC_InvalidArgument ''empty value''"
| "scalar_to_double (SBool b) = Ok (if b then fp_one else fp_zero64)"
| "scalar_to_double (SU16 w) = Ok (fp_of_int binary64 (uint w))"
| "scalar_to_double (SI16 w) = Ok (fp_of_int binary64 (sint w))"
| "scalar_to_double (SU32 w) = Ok (fp_of_int binary64 (uint w))"
| "scalar_to_double (SI32 w) = Ok (fp_of_int binary64 (sint w))"
| "scalar_to_double (SF32 x) = Ok (fp_cast binary64 x)"
| "scalar_to_double (SF64 x) = Ok x"

text \<open>
  \<open>checked_integral<T>\<close>; the bounds are \<open>std::numeric_limits<T>::lowest()\<close> and \<open>max()\<close>.
\<close>

definition checked_integral :: "int \<Rightarrow> int \<Rightarrow> fp \<Rightarrow> int result" where
  "checked_integral lowest highest v =
     (if \<not> fp_isfinite v
      then translator_error EC_InvalidArgument ''non-finite integer value''
      else let rounded = fp_roundint binary64 v
           in if fp_less rounded (fp_of_int binary64 lowest) \<or>
                 fp_less (fp_of_int binary64 highest) rounded
              then translator_error EC_InvalidArgument ''integer value is out of range''
              else Ok (fp_to_int rounded))"

abbreviation checked_u16 :: "fp \<Rightarrow> int result" where
  "checked_u16 \<equiv> checked_integral 0 65535"
abbreviation checked_i16 :: "fp \<Rightarrow> int result" where
  "checked_i16 \<equiv> checked_integral (- 32768) 32767"
abbreviation checked_u32 :: "fp \<Rightarrow> int result" where
  "checked_u32 \<equiv> checked_integral 0 4294967295"
abbreviation checked_i32 :: "fp \<Rightarrow> int result" where
  "checked_i32 \<equiv> checked_integral (- 2147483648) 2147483647"

section \<open>Decoding\<close>

definition decode_bool :: "u16 list \<Rightarrow> scalar_value result" where
  "decode_bool registers = and_then (read_at registers 0) (\<lambda>r. Ok (SBool (r \<noteq> 0)))"

definition decode_uint16 :: "tag \<Rightarrow> u16 list \<Rightarrow> string \<Rightarrow> scalar_value result" where
  "decode_uint16 t registers order =
     and_then (read_at registers 0) (\<lambda>r.
     and_then (reorder_u16 r order) (\<lambda>raw.
     and_then (checked_u16 (apply_scale (fp_of_int binary64 (uint raw)) t)) (\<lambda>scaled.
     Ok (SU16 (word_of_int scaled)))))"

definition decode_int16 :: "tag \<Rightarrow> u16 list \<Rightarrow> string \<Rightarrow> scalar_value result" where
  "decode_int16 t registers order =
     and_then (read_at registers 0) (\<lambda>r.
     and_then (reorder_u16 r order) (\<lambda>raw.
     and_then (checked_i16 (apply_scale (fp_of_int binary64 (sint raw)) t)) (\<lambda>scaled.
     Ok (SI16 (word_of_int scaled)))))"

definition decode_uint32 :: "tag \<Rightarrow> u16 list \<Rightarrow> string \<Rightarrow> scalar_value result" where
  "decode_uint32 t registers order =
     and_then (regs_to_be_bytes registers order) (\<lambda>bytes.
     let raw = bytes_to_u32 bytes in
     and_then (checked_u32 (apply_scale (fp_of_int binary64 (uint raw)) t)) (\<lambda>scaled.
     Ok (SU32 (word_of_int scaled))))"

definition decode_int32 :: "tag \<Rightarrow> u16 list \<Rightarrow> string \<Rightarrow> scalar_value result" where
  "decode_int32 t registers order =
     and_then (regs_to_be_bytes registers order) (\<lambda>bytes.
     let raw = bytes_to_u32 bytes in
     and_then (checked_i32 (apply_scale (fp_of_int binary64 (sint raw)) t)) (\<lambda>scaled.
     Ok (SI32 (word_of_int scaled))))"

definition decode_float32 :: "tag \<Rightarrow> u16 list \<Rightarrow> string \<Rightarrow> scalar_value result" where
  "decode_float32 t registers order =
     and_then (regs_to_be_bytes registers order) (\<lambda>bytes.
     let raw = bytes_to_float bytes in
     Ok (SF32 (fp_cast binary32 (apply_scale (fp_cast binary64 raw) t))))"

text \<open>The loop over the four registers of a \<open>double\<close>, which does not look at their number.\<close>

fun accumulate_bits :: "u16 list \<Rightarrow> nat list \<Rightarrow> u64 \<Rightarrow> u64 result" where
  "accumulate_bits registers [] bits = Ok bits"
| "accumulate_bits registers (i # is) bits =
     and_then (read_at registers i) (\<lambda>r.
     accumulate_bits registers is (push_bit 16 bits OR ucast r))"

definition decode_float64 :: "tag \<Rightarrow> u16 list \<Rightarrow> scalar_value result" where
  "decode_float64 t registers =
     and_then (accumulate_bits registers [0, 1, 2, 3] 0) (\<lambda>bits.
     Ok (SF64 (apply_scale (fp_of_bits64 bits) t)))"

definition decode :: "tag \<Rightarrow> u16 list \<Rightarrow> scalar_value result" where
  "decode t registers =
     and_then (ensure_count t registers) (\<lambda>_.
     let order = effective_order t in
     case tag_ty t of
       TBool \<Rightarrow> decode_bool registers
     | TUInt16 \<Rightarrow> decode_uint16 t registers order
     | TInt16 \<Rightarrow> decode_int16 t registers order
     | TUInt32 \<Rightarrow> decode_uint32 t registers order
     | TInt32 \<Rightarrow> decode_int32 t registers order
     | TFloat32 \<Rightarrow> decode_float32 t registers order
     | TFloat64 \<Rightarrow> decode_float64 t registers)"

section \<open>Encoding\<close>

definition encode_bool :: "scalar_value \<Rightarrow> u16 list result" where
  "encode_bool v =
     (case v of SBool b \<Rightarrow> Ok [if b then 1 else 0]
      | _ \<Rightarrow> translator_error EC_InvalidArgument ''bool expected'')"

text \<open>The conversion to \<open>double\<close> and the inverse scaling every numeric case starts with.\<close>

definition engineering_to_raw :: "tag \<Rightarrow> scalar_value \<Rightarrow> fp result" where
  "engineering_to_raw t v = and_then (scalar_to_double v) (\<lambda>eng. invert_scale eng t)"

definition encode_uint16 :: "tag \<Rightarrow> scalar_value \<Rightarrow> string \<Rightarrow> u16 list result" where
  "encode_uint16 t v order =
     and_then (engineering_to_raw t v) (\<lambda>raw_d.
     and_then (checked_u16 raw_d) (\<lambda>checked.
     and_then (reorder_u16 (word_of_int checked) order) (\<lambda>raw. Ok [raw])))"

definition encode_int16 :: "tag \<Rightarrow> scalar_value \<Rightarrow> string \<Rightarrow> u16 list result" where
  "encode_int16 t v order =
     and_then (engineering_to_raw t v) (\<lambda>raw_d.
     and_then (checked_i16 raw_d) (\<lambda>signed_raw.
     and_then (reorder_u16 (word_of_int signed_raw) order) (\<lambda>raw. Ok [raw])))"

definition encode_32 :: "tag \<Rightarrow> scalar_value \<Rightarrow> string \<Rightarrow> u16 list result" where
  "encode_32 t v order =
     and_then (engineering_to_raw t v) (\<lambda>raw_d.
     and_then (if tag_ty t = TUInt32 then checked_u32 raw_d else checked_i32 raw_d) (\<lambda>checked.
     and_then (be_bytes_to_regs (u32_to_bytes (word_of_int checked)) order) (\<lambda>(w0, w1).
     Ok [w0, w1])))"

definition float_max :: fp where
  "float_max = FNum False (2 ^ 24 - 1) 104"

definition encode_float32 :: "tag \<Rightarrow> scalar_value \<Rightarrow> string \<Rightarrow> u16 list result" where
  "encode_float32 t v order =
     and_then (engineering_to_raw t v) (\<lambda>raw_d.
     if fp_less (fp_cast binary64 float_max) (fp_abs raw_d)
     then translator_error EC_InvalidArgument ''float32 value is out of range''
     else and_then (be_bytes_to_regs (float_to_bytes (fp_cast binary32 raw_d)) order) (\<lambda>(w0, w1).
          Ok [w0, w1]))"

definition encode_float64 :: "tag \<Rightarrow> scalar_value \<Rightarrow> u16 list result" where
  "encode_float64 t v =
     and_then (engineering_to_raw t v) (\<lambda>d.
     let bits = fp_to_bits64 d in
     Ok [ucast (drop_bit 48 bits AND 0xFFFF), ucast (drop_bit 32 bits AND 0xFFFF),
         ucast (drop_bit 16 bits AND 0xFFFF), ucast (bits AND 0xFFFF)])"

definition encode :: "tag \<Rightarrow> scalar_value \<Rightarrow> u16 list result" where
  "encode t v =
     (let order = effective_order t in
      case tag_ty t of
        TBool \<Rightarrow> encode_bool v
      | TUInt16 \<Rightarrow> encode_uint16 t v order
      | TInt16 \<Rightarrow> encode_int16 t v order
      | TUInt32 \<Rightarrow> encode_32 t v order
      | TInt32 \<Rightarrow> encode_32 t v order
      | TFloat32 \<Rightarrow> encode_float32 t v order
      | TFloat64 \<Rightarrow> encode_float64 t v)"

section \<open>Byte orders are permutations\<close>

definition order_ok :: "tag \<Rightarrow> bool" where
  "order_ok t \<longleftrightarrow> (case tag_ty t of
       TBool \<Rightarrow> True
     | TUInt16 \<Rightarrow> tag_byte_order t \<in> {[], ''AB'', ''BA''}
     | TInt16 \<Rightarrow> tag_byte_order t \<in> {[], ''AB'', ''BA''}
     | TFloat64 \<Rightarrow> True
     | _ \<Rightarrow> tag_byte_order t \<in> {[], ''ABCD'', ''CDAB'', ''BADC'', ''DCBA''})"

lemma mask_words:
  "(0x00FF :: u16) = mask 8" "(0xFF00 :: u16) = push_bit 8 (mask 8)"
  "(0xFF :: u32) = mask 8" "(0xFFFF :: u64) = mask 16"
  by (simp_all add: push_bit_eq_mult mask_eq_exp_minus_1)

lemma reorder_BA: "reorder_u16 w ''BA'' = Ok (join8 (lo8 w) (hi8 w))"
proof -
  have "push_bit 8 (w AND 0x00FF) OR drop_bit 8 (w AND 0xFF00) = join8 (lo8 w) (hi8 w)"
    unfolding mask_words
    by (rule bit_word_eqI) (auto simp: bit_simps bit_join8 bit_hi8 bit_lo8 add.commute)
  then show ?thesis by (simp only: reorder_u16_def) simp
qed

lemma reorder_u16_cases:
  assumes "reorder_u16 w ord = Ok v"
  obtains "ord = [] \<or> ord = ''AB''" "v = w" | "ord = ''BA''" "v = join8 (lo8 w) (hi8 w)"
proof -
  have "ord = [] \<or> ord = ''AB'' \<or> ord = ''BA''"
    using assms by (auto simp: reorder_u16_def translator_error_def split: if_splits)
  then show thesis using assms that by (auto simp: reorder_BA reorder_u16_def [of w "''AB''"] reorder_u16_def [of w "[]"])
qed

lemma reorder_u16_plain [simp]: "reorder_u16 w [] = Ok w" "reorder_u16 w ''AB'' = Ok w"
  by (simp_all add: reorder_u16_def)

lemma reorder_u16_involution: "reorder_u16 w ord = Ok v \<Longrightarrow> reorder_u16 v ord = Ok w"
  by (erule reorder_u16_cases) (auto simp: reorder_BA)

lemma be_bytes_regs_inverse:
  "be_bytes_to_regs be ord = Ok (w0, w1) \<Longrightarrow> regs_to_be_bytes (w0 # w1 # ws) ord = Ok be"
  by (cases be) (auto simp: be_bytes_to_regs_def regs_to_be_bytes_def translator_error_def
      split: if_splits)

lemma regs_be_bytes_inverse:
  "regs_to_be_bytes (r0 # r1 # rs) ord = Ok be \<Longrightarrow> be_bytes_to_regs be ord = Ok (r0, r1)"
  by (auto simp: be_bytes_to_regs_def regs_to_be_bytes_def translator_error_def Let_def
      split: if_splits)

lemma bit_ucast_word: "bit (ucast (w :: u8) :: u32) n \<longleftrightarrow> bit w n"
  by (auto simp: bit_simps dest: bit_imp_le_length)

lemma bit_byte: "bit (ucast (drop_bit k v AND 0xFF) :: u8) n \<longleftrightarrow> n < 8 \<and> bit (v :: u32) (k + n)"
  unfolding mask_words by (auto simp: bit_simps)

lemma bytes_u32_inverse [simp]: "bytes_to_u32 (u32_to_bytes v) = v"
proof (rule bit_word_eqI)
  fix n assume n: "n < LENGTH(32)"
  have v: "v AND 0xFF = drop_bit 0 v AND 0xFF" by simp
  have "bit (bytes_to_u32 (u32_to_bytes v)) n \<longleftrightarrow>
      24 \<le> n \<and> n - 24 < 8 \<and> bit v n \<or> 16 \<le> n \<and> n - 16 < 8 \<and> bit v n \<or>
      8 \<le> n \<and> n - 8 < 8 \<and> bit v n \<or> n < 8 \<and> bit v n"
    unfolding bytes_to_u32_def u32_to_bytes_def v prod.case using n
    by (simp only: bit_or_iff bit_push_bit_iff bit_ucast_word bit_byte cong: conj_cong) (auto)
  also have "\<dots> \<longleftrightarrow> bit v n" using n by (cases "bit v n") auto
  finally show "bit (bytes_to_u32 (u32_to_bytes v)) n = bit v n" .
qed

lemma bytes_float_u32: "bytes_to_float be = fp_of_bits32 (bytes_to_u32 be)"
  by (cases be) (simp add: bytes_to_float_def bytes_to_u32_def)

lemma float_bytes_u32: "float_to_bytes x = u32_to_bytes (fp_to_bits32 x)"
  by (simp add: float_to_bytes_def u32_to_bytes_def Let_def)

lemma bit_word16: "bit (ucast (ucast (drop_bit k v AND 0xFFFF) :: u16) :: u64) n \<longleftrightarrow> n < 16 \<and> bit (v :: u64) (k + n)"
  unfolding mask_words by (auto simp: bit_simps)

lemma join_words:
  "push_bit 16 (push_bit 16 (push_bit 16 (ucast (ucast (drop_bit 48 v AND 0xFFFF) :: u16)) OR
     ucast (ucast (drop_bit 32 v AND 0xFFFF) :: u16)) OR ucast (ucast (drop_bit 16 v AND 0xFFFF) :: u16)) OR
     ucast (ucast (drop_bit 0 v AND 0xFFFF) :: u16) = (v :: u64)" (is "?w = v")
proof (rule bit_word_eqI)
  fix n assume n: "n < LENGTH(64)"
  have "bit ?w n \<longleftrightarrow> 16 \<le> n \<and> (16 \<le> n - 16 \<and> (16 \<le> n - 16 - 16 \<and> n - 16 - 16 - 16 < 16 \<and> bit v n \<or>
        n - 16 - 16 < 16 \<and> bit v n) \<or> n - 16 < 16 \<and> bit v n) \<or> n < 16 \<and> bit v n"
    using n by (auto simp: bit_or_iff bit_push_bit_iff bit_word16 simp del: drop_bit_0 cong: conj_cong)
  also have "\<dots> \<longleftrightarrow> bit v n" using n by (cases "bit v n") auto
  finally show "bit ?w n = bit v n" .
qed

lemma accumulate_bits_words:
  "accumulate_bits (ucast (drop_bit 48 bits AND 0xFFFF) # ucast (drop_bit 32 bits AND 0xFFFF) #
     ucast (drop_bit 16 bits AND 0xFFFF) # ucast (bits AND 0xFFFF) # rs) [0, 1, 2, 3] 0 = Ok bits"
  using join_words [of bits] by simp

section \<open>The range check\<close>

lemma checked_integral_spec:
  assumes "fp_wf binary64 x" "\<bar>lo\<bar> < 2 ^ 53" "\<bar>hi\<bar> < 2 ^ 53"
  shows "checked_integral lo hi x = Ok n \<longleftrightarrow>
    fp_isfinite x \<and> n = round_half_away (fp_val x) \<and> lo \<le> n \<and> n \<le> hi"
proof (cases "fp_isfinite x")
  case True
  have p: "prec binary64 = 53" by (simp add: binary64_def)
  note r = fp_to_int_roundint [OF assms(1) _ True, simplified]
  have "fp_less (fp_roundint binary64 x) (fp_of_int binary64 lo) \<longleftrightarrow> round_half_away (fp_val x) < lo"
    "fp_less (fp_of_int binary64 hi) (fp_roundint binary64 x) \<longleftrightarrow> hi < round_half_away (fp_val x)"
    using assms(2,3) r by (simp_all add: fp_less_finite p)
  then show ?thesis using True r(1) by (auto simp: checked_integral_def translator_error_def Let_def)
qed (simp add: checked_integral_def translator_error_def)

lemma checked_integral_not_Undef [simp]: "checked_integral lo hi x \<noteq> Undef"
  by (simp add: checked_integral_def translator_error_def Let_def)

lemma checked_integral_of_int:
  assumes "lo \<le> i" "i \<le> hi" "\<bar>lo\<bar> < 2 ^ 53" "\<bar>hi\<bar> < 2 ^ 53"
  shows "checked_integral lo hi (fp_of_int binary64 i) = Ok i"
proof -
  have "\<bar>i\<bar> < 2 ^ prec binary64" "\<bar>lo\<bar> < 2 ^ prec binary64" "\<bar>hi\<bar> < 2 ^ prec binary64"
    using assms by (auto simp: binary64_def)
  then show ?thesis
    using assms by (simp add: checked_integral_def fp_exact)
qed

section \<open>Typing, safety and round trips\<close>

text \<open>The alternative of \<open>ScalarValue\<close> a tag type stores.\<close>

fun value_has_type :: "tag_type \<Rightarrow> scalar_value \<Rightarrow> bool" where
  "value_has_type TBool (SBool b) = True"
| "value_has_type TUInt16 (SU16 w) = True"
| "value_has_type TInt16 (SI16 w) = True"
| "value_has_type TUInt32 (SU32 w) = True"
| "value_has_type TInt32 (SI32 w) = True"
| "value_has_type TFloat32 (SF32 x) = fp_wf binary32 x"
| "value_has_type TFloat64 (SF64 x) = fp_wf binary64 x"
| "value_has_type _ _ = False"

text \<open>Values that survive a write followed by a read: finite, and not the float \<open>-0.0\<close>.\<close>

fun plain_fp :: "fp \<Rightarrow> bool" where
  "plain_fp (FNum s m e) = (s \<longrightarrow> m \<noteq> 0)"
| "plain_fp x = False"

fun plain_value :: "scalar_value \<Rightarrow> bool" where
  "plain_value (SF32 x) = plain_fp x"
| "plain_value (SF64 x) = plain_fp x"
| "plain_value v = True"

definition unscaled :: "tag \<Rightarrow> bool" where
  "unscaled t \<longleftrightarrow> tag_scale t = fp_one \<and> tag_offset t = fp_zero64"

definition quantity_fits :: "tag \<Rightarrow> bool" where
  "quantity_fits t \<longleftrightarrow> (case tag_quantity t of None \<Rightarrow> True | Some q \<Rightarrow> q \<le> register_count_for (tag_ty t))"

text \<open>The integer the registers of an integer tag hold, before scaling.\<close>

fun raw_integer :: "tag \<Rightarrow> u16 list \<Rightarrow> int option" where
  "raw_integer t regs =
     (case tag_ty t of
        TUInt16 \<Rightarrow> (case reorder_u16 (hd regs) (effective_order t) of Ok w \<Rightarrow> Some (uint w) | _ \<Rightarrow> None)
      | TInt16 \<Rightarrow> (case reorder_u16 (hd regs) (effective_order t) of Ok w \<Rightarrow> Some (sint w) | _ \<Rightarrow> None)
      | TUInt32 \<Rightarrow> (case regs_to_be_bytes regs (effective_order t) of
                      Ok b \<Rightarrow> Some (uint (bytes_to_u32 b)) | _ \<Rightarrow> None)
      | TInt32 \<Rightarrow> (case regs_to_be_bytes regs (effective_order t) of
                      Ok b \<Rightarrow> Some (sint (bytes_to_u32 b)) | _ \<Rightarrow> None)
      | _ \<Rightarrow> None)"

fun integer_value :: "scalar_value \<Rightarrow> int option" where
  "integer_value (SU16 w) = Some (uint w)"
| "integer_value (SI16 w) = Some (sint w)"
| "integer_value (SU32 w) = Some (uint w)"
| "integer_value (SI32 w) = Some (sint w)"
| "integer_value v = None"

definition integer_type :: "tag_type \<Rightarrow> bool" where
  "integer_type ty \<longleftrightarrow> ty \<in> {TUInt16, TInt16, TUInt32, TInt32}"

lemmas decode_defs = decode_bool_def decode_uint16_def decode_int16_def decode_uint32_def
  decode_int32_def decode_float32_def decode_float64_def

lemmas encode_defs = encode_bool_def encode_uint16_def encode_int16_def encode_32_def
  encode_float32_def encode_float64_def

lemma ensure_count_cases [simp]:
  "ensure_count t rs \<noteq> Undef"
  "ensure_count t rs = Ok u \<longleftrightarrow>
     (case tag_quantity t of Some q \<Rightarrow> q | None \<Rightarrow> register_count_for (tag_ty t)) \<le> int (length rs)"
  by (auto simp: ensure_count_def translator_error_def Let_def)

lemma reorder_not_Undef [simp]: "reorder_u16 w ord \<noteq> Undef" "regs_to_be_bytes rs ord \<noteq> Undef"
  "be_bytes_to_regs be ord \<noteq> Undef"
  by (auto simp: reorder_u16_def regs_to_be_bytes_def be_bytes_to_regs_def translator_error_def
      and_then_eq_Undef Let_def split: prod.splits)

lemma accumulate_bits_Undef:
  "accumulate_bits rs is b = Undef \<longleftrightarrow> (\<exists>i\<in>set is. length rs \<le> i)"
proof (induction "is" arbitrary: b)
  case (Cons i "is")
  then show ?case by (cases "i < length rs") (auto simp: and_then_eq_Undef)
qed simp

lemma decode_value_type:
  assumes "decode t regs = Ok v"
  shows "value_has_type (tag_ty t) v"
  using assms
  by (cases "tag_ty t") (auto simp: decode_def decode_defs and_then_eq_Ok Let_def apply_scale_def)


lemma decode_Undef_iff:
  "decode t regs = Undef \<longleftrightarrow>
     (\<exists>q. tag_quantity t = Some q \<and> q \<le> int (length regs)) \<and>
     (tag_ty t \<in> {TBool, TUInt16, TInt16} \<and> regs = [] \<or> tag_ty t = TFloat64 \<and> length regs < 4)"
  by (cases "tag_ty t"; cases "tag_quantity t")
    (auto simp: decode_def decode_defs and_then_eq_Undef Let_def accumulate_bits_Undef)


text \<open>
  Exactly when decoding reads outside the span of registers: the count check passed, and the
  tag's \<open>quantity\<close> let it pass with fewer registers than the type reads (none for the one-register
  types, fewer than four for \<open>Float64\<close>; the 32-bit types check again and are safe).
\<close>

theorem decode_undefined_iff:
  "decode t regs = Undef \<longleftrightarrow>
     (\<exists>q. tag_quantity t = Some q \<and> q \<le> int (length regs)) \<and>
     (tag_ty t \<in> {TBool, TUInt16, TInt16} \<and> regs = [] \<or> tag_ty t = TFloat64 \<and> length regs < 4)"
  by (rule decode_Undef_iff)

lemma word_of_int_bounds [simp]:
  "0 \<le> i \<Longrightarrow> i \<le> 65535 \<Longrightarrow> uint (word_of_int i :: u16) = i"
  "0 \<le> i \<Longrightarrow> i \<le> 4294967295 \<Longrightarrow> uint (word_of_int i :: u32) = i"
  "- 32768 \<le> i \<Longrightarrow> i \<le> 32767 \<Longrightarrow> sint (word_of_int i :: u16) = i"
  "- 2147483648 \<le> i \<Longrightarrow> i \<le> 2147483647 \<Longrightarrow> sint (word_of_int i :: u32) = i"
  by (simp_all add: uint_word_of_int signed_take_bit_int_eq_self sint_sbintrunc' signed_of_int)

lemma word_int_ranges:
  "0 \<le> uint (w :: u16)" "uint w \<le> 65535" "- 32768 \<le> sint w" "sint w \<le> 32767"
  "0 \<le> uint (v :: u32)" "uint v \<le> 4294967295" "- 2147483648 \<le> sint v" "sint v \<le> 2147483647"
  using uint_lt2p [of w] uint_lt2p [of v] sint_ge [of w] sint_ge [of v] sint_lt [of w] sint_lt [of v]
  by simp_all

lemma invert_scale_unscaled:
  assumes "unscaled t" "fp_wf binary64 x" "fp_isfinite x"
  shows "invert_scale x t = Ok x"
proof -
  have "fp_isfinite fp_one" "\<not> fp_eq fp_one fp_zero64"
    by (simp_all add: fp_one_def fp_scaled_def)
  then show ?thesis
    using assms by (simp add: invert_scale_def unscaled_def fp_exact)
qed

lemma apply_scale_unscaled:
  assumes "unscaled t" "fp_wf binary64 x" "\<forall>e. x \<noteq> FNum True 0 e"
  shows "apply_scale x t = x"
proof -
  have "fp_add binary64 x fp_zero64 = x"
    by (rule fp_add_zero) (use assms in \<open>auto simp: binary64_def\<close>)
  then show ?thesis using assms by (simp add: apply_scale_def unscaled_def fp_exact)
qed

lemma int53 [simp]: "\<bar>i\<bar> < 2 ^ 53 \<Longrightarrow> \<bar>i\<bar> < 2 ^ prec binary64"
  by (simp add: binary64_def)

lemma unscaled_int:
  assumes "unscaled t" "\<bar>i\<bar> < 2 ^ 53"
  shows "invert_scale (fp_of_int binary64 i) t = Ok (fp_of_int binary64 i)"
    and "apply_scale (fp_of_int binary64 i) t = fp_of_int binary64 i"
  using assms by (simp_all add: invert_scale_unscaled apply_scale_unscaled fp_of_int_not_neg_zero)

lemma fp_cast_widen_num:
  assumes "canonical binary32 m e"
  obtains n d where "fp_cast binary64 (FNum s m e) = FNum s n d" "canonical binary64 n d"
    "real n * 2 powi d = real m * 2 powi e"
proof -
  obtain n d where nd: "canonical binary64 n d" "real n * 2 powi d = real m * 2 powi e"
    by (rule dyadic_representable [of m binary64 e])
      (use assms in \<open>auto simp: canonical_def binary64_def binary32_def\<close>)
  then have "fp_cast binary64 (FNum s m e) = FNum s n d"
    by (simp add: fp_round_dyadic_exact)
  with nd show thesis using that by blast
qed

lemma plain_fp_widen:
  assumes "fp_wf binary32 x" "plain_fp x"
  shows "plain_fp (fp_cast binary64 x)"
    and "\<not> fp_less (fp_cast binary64 float_max) (fp_abs (fp_cast binary64 x))"
proof -
  from assms obtain s m e where x: "x = FNum s m e" and c: "canonical binary32 m e"
    by (cases x) auto
  obtain n d where nd: "fp_cast binary64 x = FNum s n d" "real n * 2 powi d = real m * 2 powi e"
    using fp_cast_widen_num [OF c] x by metis
  show "plain_fp (fp_cast binary64 x)"
    using assms(2) nd by (cases "n = 0") (auto simp: x)
  have "canonical binary32 (2 ^ 24 - 1) 104" by (simp add: canonical_def binary32_def)
  then obtain k j where kj: "fp_cast binary64 float_max = FNum False k j"
      "real k * 2 powi j = real (2 ^ 24 - 1) * 2 powi 104"
    using fp_cast_widen_num unfolding float_max_def by metis
  have "m \<le> 2 ^ 24 - 1" "e \<le> 104" using c by (auto simp: canonical_def binary32_def)
  then have "real m * 2 powi e \<le> real (2 ^ 24 - 1) * 2 powi 104"
    by (intro mult_mono power_int_increasing) (simp_all del: of_nat_diff)
  then show "\<not> fp_less (fp_cast binary64 float_max) (fp_abs (fp_cast binary64 x))"
    unfolding nd kj fp_abs.simps fp_less_val fp_val.simps if_False using nd(2) kj(2) by simp
qed

lemma plain_fpD: "plain_fp x \<Longrightarrow> fp_isfinite x" "plain_fp x \<Longrightarrow> x \<noteq> FNum True 0 e"
  by (cases x; auto)+

lemma reorder_ok:
  assumes "order_ok t" "tag_ty t \<in> {TUInt16, TInt16}"
  obtains v where "reorder_u16 w (effective_order t) = Ok v"
  using assms that by (cases "tag_ty t") (auto simp: order_ok_def effective_order_def reorder_BA)

lemma be_bytes_ok:
  assumes "order_ok t" "tag_ty t \<in> {TUInt32, TInt32, TFloat32}"
  obtains w0 w1 where "be_bytes_to_regs be (effective_order t) = Ok (w0, w1)"
  using assms that
  by (cases be; cases "tag_ty t") (auto simp: order_ok_def effective_order_def be_bytes_to_regs_def)

lemma roundtrip_16:
  assumes "unscaled t" "reorder_u16 w ord = Ok r"
  shows "encode_uint16 t (SU16 w) ord = Ok [r]" "decode_uint16 t [r] ord = Ok (SU16 w)"
    "encode_int16 t (SI16 w) ord = Ok [r]" "decode_int16 t [r] ord = Ok (SI16 w)"
proof -
  have u: "\<bar>uint w\<bar> < 2 ^ 53" "\<bar>sint w\<bar> < 2 ^ 53"
    using word_int_ranges(1-4) [of w] by (auto simp: abs_if)
  note s = unscaled_int [OF assms(1) u(1)] unscaled_int [OF assms(1) u(2)]
  note c = checked_integral_of_int [of _ _ "65535"] checked_integral_of_int [of _ _ "32767"]
  show "encode_uint16 t (SU16 w) ord = Ok [r]" "decode_uint16 t [r] ord = Ok (SU16 w)"
    "encode_int16 t (SI16 w) ord = Ok [r]" "decode_int16 t [r] ord = Ok (SI16 w)"
    using assms(2) reorder_u16_involution [OF assms(2)] word_int_ranges(1-4) [of w]
    by (simp_all add: encode_defs decode_defs engineering_to_raw_def s c)
qed

lemma roundtrip_32:
  assumes "unscaled t" "be_bytes_to_regs (u32_to_bytes w) ord = Ok (r0, r1)"
  shows "tag_ty t = TUInt32 \<Longrightarrow> encode_32 t (SU32 w) ord = Ok [r0, r1]"
    "decode_uint32 t [r0, r1] ord = Ok (SU32 w)"
    "tag_ty t = TInt32 \<Longrightarrow> encode_32 t (SI32 w) ord = Ok [r0, r1]"
    "decode_int32 t [r0, r1] ord = Ok (SI32 w)"
proof -
  have u: "\<bar>uint w\<bar> < 2 ^ 53" "\<bar>sint w\<bar> < 2 ^ 53"
    using word_int_ranges(5-8) [of w] by (auto simp: abs_if)
  note s = unscaled_int [OF assms(1) u(1)] unscaled_int [OF assms(1) u(2)]
  note c = checked_integral_of_int [of _ _ "4294967295"] checked_integral_of_int [of _ _ "2147483647"]
  note r = word_int_ranges(5-8) [of w]
  show "tag_ty t = TUInt32 \<Longrightarrow> encode_32 t (SU32 w) ord = Ok [r0, r1]"
    "tag_ty t = TInt32 \<Longrightarrow> encode_32 t (SI32 w) ord = Ok [r0, r1]"
    using assms(2) r by (simp_all add: encode_32_def engineering_to_raw_def s c)
  show "decode_uint32 t [r0, r1] ord = Ok (SU32 w)" "decode_int32 t [r0, r1] ord = Ok (SI32 w)"
    using be_bytes_regs_inverse [OF assms(2)] r by (simp_all add: decode_defs s c)
qed

lemma roundtrip_float32:
  assumes "unscaled t" "fp_wf binary32 x" "plain_fp x"
    and "be_bytes_to_regs (float_to_bytes x) ord = Ok (r0, r1)"
  shows "encode_float32 t (SF32 x) ord = Ok [r0, r1]"
    "decode_float32 t [r0, r1] ord = Ok (SF32 x)"
proof -
  note w = fp_cast_widen [OF assms(2)] and p = plain_fp_widen [OF assms(2,3)]
  have "invert_scale (fp_cast binary64 x) t = Ok (fp_cast binary64 x)"
    "apply_scale (fp_cast binary64 x) t = fp_cast binary64 x"
    using assms w p plain_fpD [OF p(1)] by (auto intro: invert_scale_unscaled apply_scale_unscaled)
  moreover have "bytes_to_float (float_to_bytes x) = x"
    using assms(2) by (simp add: bytes_float_u32 float_bytes_u32 fp_of_bits32_to_bits32)
  ultimately show "encode_float32 t (SF32 x) ord = Ok [r0, r1]"
    "decode_float32 t [r0, r1] ord = Ok (SF32 x)"
    using assms(4) be_bytes_regs_inverse [OF assms(4)] w p
    by (simp_all add: encode_float32_def decode_float32_def engineering_to_raw_def)
qed

lemma roundtrip_float64:
  assumes "unscaled t" "fp_wf binary64 x" "plain_fp x"
  obtains rs where "encode_float64 t (SF64 x) = Ok rs" "length rs = 4" "decode_float64 t rs = Ok (SF64 x)"
proof -
  have "invert_scale x t = Ok x" "apply_scale x t = x"
    using assms plain_fpD [OF assms(3)] by (auto intro: invert_scale_unscaled apply_scale_unscaled)
  then show thesis
    using that assms(2) accumulate_bits_words [of "fp_to_bits64 x" "[]"]
    by (simp add: encode_float64_def decode_float64_def engineering_to_raw_def Let_def
        fp_of_bits64_to_bits64 del: accumulate_bits.simps)
qed

lemma encode_ok:
  assumes "unscaled t" "order_ok t" "value_has_type (tag_ty t) v" "plain_value v"
  obtains rs where "encode t v = Ok rs" "int (length rs) = register_count_for (tag_ty t)"
    "quantity_fits t \<Longrightarrow> decode t rs = Ok v"
proof -
  have e: "quantity_fits t \<Longrightarrow> int (length rs) = register_count_for (tag_ty t) \<Longrightarrow>
      ensure_count t rs = Ok ()" for rs
    by (auto simp: quantity_fits_def split: option.splits)
  show thesis
  proof (cases "(tag_ty t, v)" rule: value_has_type.cases)
    case (1 b)
    then show ?thesis using that [of "[if b then 1 else 0]"] e
      by (auto simp: encode_def decode_def encode_bool_def decode_bool_def)
  next
    case (2 w)
    obtain r where "reorder_u16 w (effective_order t) = Ok r"
      using reorder_ok [OF assms(2)] 2 by auto
    from roundtrip_16(1,2) [OF assms(1) this] 2 show ?thesis
      using that e by (auto simp: encode_def decode_def)
  next
    case (3 w)
    obtain r where "reorder_u16 w (effective_order t) = Ok r"
      using reorder_ok [OF assms(2)] 3 by auto
    from roundtrip_16(3,4) [OF assms(1) this] 3 show ?thesis
      using that e by (auto simp: encode_def decode_def)
  next
    case (4 w)
    obtain r0 r1 where "be_bytes_to_regs (u32_to_bytes w) (effective_order t) = Ok (r0, r1)"
      by (rule be_bytes_ok [OF assms(2)]) (use 4 in auto)
    from roundtrip_32(1,2) [OF assms(1) this] 4 show ?thesis
      using that e by (auto simp: encode_def decode_def)
  next
    case (5 w)
    obtain r0 r1 where "be_bytes_to_regs (u32_to_bytes w) (effective_order t) = Ok (r0, r1)"
      by (rule be_bytes_ok [OF assms(2)]) (use 5 in auto)
    from roundtrip_32(3,4) [OF assms(1) this] 5 show ?thesis
      using that e by (auto simp: encode_def decode_def)
  next
    case (6 x)
    obtain r0 r1 where "be_bytes_to_regs (float_to_bytes x) (effective_order t) = Ok (r0, r1)"
      by (rule be_bytes_ok [OF assms(2)]) (use 6 in auto)
    from roundtrip_float32 [OF assms(1) _ _ this] 6 assms(3,4) show ?thesis
      using that e by (auto simp: encode_def decode_def)
  next
    case (7 x)
    then show ?thesis
      using roundtrip_float64 [OF assms(1)] assms(3,4) that e by (auto simp: encode_def decode_def)
  qed (use assms(3) in auto)
qed

text \<open>
  C1: Writing a value of the tag's own type and reading the registers back returns the value, for
  every type, every accepted byte order and scale 1, offset 0; the encoder produces exactly the
  number of registers of the type. Floats are finite and not \<open>-0.0\<close>.
\<close>

theorem decode_encode_roundtrip:
  assumes "unscaled t" "order_ok t" "quantity_fits t" "value_has_type (tag_ty t) v" "plain_value v"
  shows "\<exists>regs. encode t v = Ok regs \<and> int (length regs) = register_count_for (tag_ty t) \<and>
    decode t regs = Ok v"
  using encode_ok [OF assms(1,2,4,5)] assms(3) by metis

theorem decode_encode_roundtrip_witness:
  "\<exists>regs. encode (default_tag\<lparr>tag_ty := TInt32, tag_byte_order := ''CDAB''\<rparr>) (SI32 0xFFFFFFFE) = Ok regs \<and>
     int (length regs) = 2 \<and>
     decode (default_tag\<lparr>tag_ty := TInt32, tag_byte_order := ''CDAB''\<rparr>) regs = Ok (SI32 0xFFFFFFFE)"
  using decode_encode_roundtrip [of "default_tag\<lparr>tag_ty := TInt32, tag_byte_order := ''CDAB''\<rparr>" "SI32 0xFFFFFFFE"]
  by (simp add: unscaled_def order_ok_def quantity_fits_def default_tag_def)


lemma fp_wf_sub [simp]: "fp_wf binary64 (fp_sub binary64 x y)"
  by (simp add: fp_sub_def)

lemma engineering_to_raw_wf:
  assumes "engineering_to_raw t v = Ok d" shows "fp_wf binary64 d" "fp_isfinite d"
  using assms by (auto simp: engineering_to_raw_def invert_scale_def translator_error_def Let_def
      and_then_eq_Ok split: if_splits)

lemmas checked_spec = checked_integral_spec [of _ 0 65535, simplified]
  checked_integral_spec [of _ "- 32768" 32767, simplified]
  checked_integral_spec [of _ 0 4294967295, simplified]
  checked_integral_spec [of _ "- 2147483648" 2147483647, simplified]

text \<open>
  C28: A value written to an integer tag never wraps around: the integer the produced registers
  hold is the real quotient \<open>(value - offset) / scale\<close> computed in \<open>double\<close>, rounded half away from
  zero.
\<close>

theorem encode_integer_no_wrap:
  assumes "integer_type (tag_ty t)" "encode t v = Ok regs"
  shows "\<exists>d. engineering_to_raw t v = Ok d \<and> fp_isfinite d \<and>
    raw_integer t regs = Some (round_half_away (fp_val d))"
proof -
  obtain d where d: "engineering_to_raw t v = Ok d" "fp_wf binary64 d" "fp_isfinite d"
  proof -
    obtain d where "engineering_to_raw t v = Ok d"
      using assms by (cases "engineering_to_raw t v"; cases "tag_ty t")
        (simp_all add: integer_type_def encode_def encode_defs)
    then show thesis using that engineering_to_raw_wf by blast
  qed
  have inv16: "reorder_u16 w ord = Ok r \<Longrightarrow> (case reorder_u16 r ord of Ok x \<Rightarrow> Some (g x) | _ \<Rightarrow> None) = Some (g w)"
    for w ord r and g :: "u16 \<Rightarrow> int"
    by (drule reorder_u16_involution) simp
  have inv32: "be_bytes_to_regs be ord = Ok (w0, w1) \<Longrightarrow>
      (case regs_to_be_bytes [w0, w1] ord of Ok x \<Rightarrow> Some (g x) | _ \<Rightarrow> None) = Some (g be)"
    for be ord w0 w1 and g :: "be_bytes \<Rightarrow> int"
    by (drule be_bytes_regs_inverse [where ws = "[]"]) simp
  have "raw_integer t regs = Some (round_half_away (fp_val d))"
    using assms d
    by (cases "tag_ty t") (auto simp: integer_type_def encode_def encode_defs Let_def and_then_eq_Ok
        checked_spec inv16 inv32)
  with d show ?thesis by blast
qed

text \<open>
  Decoding an integer tag yields the scaled raw integer \<open>raw * scale + offset\<close>, computed in \<open>double\<close>
  and rounded half away from zero, and fails when that does not fit the type: it never wraps.
\<close>

theorem decode_integer_no_wrap:
  assumes "integer_type (tag_ty t)" "decode t regs = Ok v"
  shows "\<exists>i. raw_integer t regs = Some i \<and> fp_isfinite (apply_scale (fp_of_int binary64 i) t) \<and>
    integer_value v = Some (round_half_away (fp_val (apply_scale (fp_of_int binary64 i) t)))"
proof -
  have hd: "read_at regs 0 = Ok r \<Longrightarrow> hd regs = r" for r
    by (cases regs) (auto simp: read_at_def)
  have wf: "fp_wf binary64 (apply_scale x t)" for x by (simp add: apply_scale_def)
  show ?thesis
    using assms wf
    by (auto simp: integer_type_def decode_def decode_defs Let_def and_then_eq_Ok checked_spec
        dest!: hd)
qed

theorem encode_integer_no_wrap_witness:
  "\<exists>d. engineering_to_raw (default_tag\<lparr>tag_ty := TInt16\<rparr>) (SI16 0xFFFE) = Ok d \<and> fp_isfinite d \<and>
     raw_integer (default_tag\<lparr>tag_ty := TInt16\<rparr>) [0xFFFE] = Some (round_half_away (fp_val d))"
  using encode_integer_no_wrap [of "default_tag\<lparr>tag_ty := TInt16\<rparr>" "SI16 0xFFFE" "[0xFFFE]"]
    roundtrip_16(3) [of "default_tag\<lparr>tag_ty := TInt16\<rparr>" "0xFFFE" "''AB''"]
  by (simp add: integer_type_def encode_def default_tag_def unscaled_def effective_order_def)

theorem decode_integer_no_wrap_witness:
  "\<exists>i. raw_integer default_tag [40000] = Some i \<and>
     fp_isfinite (apply_scale (fp_of_int binary64 i) default_tag) \<and>
     integer_value (SU16 40000) =
       Some (round_half_away (fp_val (apply_scale (fp_of_int binary64 i) default_tag)))"
  using decode_integer_no_wrap [of default_tag "[40000]" "SU16 40000"]
    roundtrip_16(2) [of default_tag 40000 "''AB''"]
  by (simp add: integer_type_def decode_def ensure_count_def default_tag_def unscaled_def effective_order_def)

end
