(* ===== verification/Tag_Store.thy ===== *)
theory Tag_Store
  imports Domain
begin

text \<open>
  The in-process tag store of \<open>Src/core/tag_store.cpp\<close> (interface \<open>Src/ports/i_tag_store.hpp\<close>): the
  last value of every tag and the change handlers of the subscribers. A handler is a token of an
  arbitrary type; an operation returns the calls it makes to handlers, in order, next to the new
  store. The mutex makes every operation atomic, so one operation is one step.
\<close>

section \<open>State and operations\<close>

record 'h tag_store =
  ts_values :: "(tag_id, tag_value) umap"
  ts_subscribers :: "(u64, 'h) umap"
  ts_next_subscription :: u64

type_synonym 'h change_calls = "('h \<times> tag_id \<times> tag_value) list"

definition empty_tag_store :: "'h tag_store" where
  "empty_tag_store = \<lparr>ts_values = [], ts_subscribers = [], ts_next_subscription = 1\<rparr>"

definition notify_all :: "'h tag_store \<Rightarrow> tag_id \<Rightarrow> tag_value \<Rightarrow> 'h change_calls" where
  "notify_all s i v = map (\<lambda>(_, h). (h, i, v)) (ts_subscribers s)"

definition publish :: "'h tag_store \<Rightarrow> tag_id \<Rightarrow> tag_value \<Rightarrow> 'h tag_store \<times> 'h change_calls" where
  "publish s i v =
     (let s' = s\<lparr>ts_values := AList.update i v (ts_values s)\<rparr> in (s', notify_all s' i v))"

definition get :: "'h tag_store \<Rightarrow> tag_id \<Rightarrow> tag_value option" where
  "get s i = map_of (ts_values s) i"

definition subscribe :: "'h tag_store \<Rightarrow> 'h \<Rightarrow> 'h tag_store \<times> u64" where
  "subscribe s h =
     (let i = ts_next_subscription s
      in (s\<lparr>ts_next_subscription := i + 1, ts_subscribers := emplace i h (ts_subscribers s)\<rparr>, i))"

definition unsubscribe :: "'h tag_store \<Rightarrow> u64 \<Rightarrow> 'h tag_store" where
  "unsubscribe s i = s\<lparr>ts_subscribers := AList.delete i (ts_subscribers s)\<rparr>"

definition goes_stale :: "timestamp_ms \<Rightarrow> tag_value \<Rightarrow> bool" where
  "goes_stale cutoff v \<longleftrightarrow> tv_quality v = Good \<and> tv_server_ts v < cutoff"

definition stale_value :: "timestamp_ms \<Rightarrow> quality_reason \<Rightarrow> tag_value \<Rightarrow> tag_value" where
  "stale_value cutoff reason v =
     (if goes_stale cutoff v then v\<lparr>tv_quality := Uncertain, tv_reason := reason\<rparr> else v)"

definition mark_stale_before ::
  "'h tag_store \<Rightarrow> timestamp_ms \<Rightarrow> quality_reason \<Rightarrow> 'h tag_store \<times> 'h change_calls" where
  "mark_stale_before s cutoff reason =
     (let changed = map (\<lambda>(i, v). (i, stale_value cutoff reason v))
                      (filter (\<lambda>(_, v). goes_stale cutoff v) (ts_values s));
          s' = s\<lparr>ts_values := map (\<lambda>(i, v). (i, stale_value cutoff reason v)) (ts_values s)\<rparr>
      in (s', concat (map (\<lambda>(i, v). notify_all s' i v) changed)))"

section \<open>Well-formedness\<close>

text \<open>
  Keys of both maps are unique, and every subscription id in use is below the next one, as long as
  the 64-bit counter has not wrapped.
\<close>

definition ts_wf :: "'h tag_store \<Rightarrow> bool" where
  "ts_wf s \<longleftrightarrow> distinct (map fst (ts_values s)) \<and> distinct (map fst (ts_subscribers s)) \<and>
     (\<forall>i \<in> set (map fst (ts_subscribers s)). i < ts_next_subscription s)"

lemma ts_wf_empty: "ts_wf empty_tag_store"
  by (simp add: ts_wf_def empty_tag_store_def)

lemma ts_wf_publish: "ts_wf s \<Longrightarrow> ts_wf (fst (publish s i v))"
  by (auto simp: ts_wf_def publish_def Let_def)

lemma ts_wf_mark_stale: "ts_wf s \<Longrightarrow> ts_wf (fst (mark_stale_before s c r))"
  by (auto simp: ts_wf_def mark_stale_before_def Let_def comp_def case_prod_unfold)

lemma ts_wf_unsubscribe: "ts_wf s \<Longrightarrow> ts_wf (unsubscribe s i)"
  by (simp add: ts_wf_def unsubscribe_def delete_keys distinct_removeAll del: set_map)

lemma ts_wf_subscribe:
  assumes "ts_wf s" "ts_next_subscription s \<noteq> - 1"
  shows "ts_wf (fst (subscribe s h))"
proof -
  have "ts_next_subscription s < ts_next_subscription s + 1"
    using assms(2) unatSuc [of "ts_next_subscription s"]
    by (auto simp: word_less_nat_alt add.commute add_eq_0_iff)
  then show ?thesis
    using assms by (auto simp: ts_wf_def subscribe_def Let_def keys_emplace simp del: set_map)
qed

section \<open>Contract\<close>

text \<open>
  What the users of the port rely on: a store of last values addressed by tag id. \<open>pub\<close> is the
  effect of \<open>publish\<close> on the store.
\<close>

locale tag_store_port =
  fixes look :: "'s \<Rightarrow> tag_id \<Rightarrow> tag_value option"
    and pub :: "'s \<Rightarrow> tag_id \<Rightarrow> tag_value \<Rightarrow> 's"
  assumes look_pub: "look (pub s i v) j = (if i = j then Some v else look s j)"
begin

text \<open>Republishing a list of tags, each with a value computed from its last one.\<close>

fun republish :: "(tag_value option \<Rightarrow> tag_value) \<Rightarrow> tag_id list \<Rightarrow> 's \<Rightarrow> 's" where
  "republish f [] s = s"
| "republish f (i # is) s = republish f is (pub s i (f (look s i)))"

lemma look_republish_other: "j \<notin> set is \<Longrightarrow> look (republish f is s) j = look s j"
  by (induction "is" arbitrary: s) (auto simp: look_pub)

lemma look_republish:
  assumes "j \<in> set is" "\<And>p. f (Some (f p)) = f p"
  shows "look (republish f is s) j = Some (f (look s j))"
  using assms(1)
proof (induction "is" arbitrary: s)
  case (Cons i "is")
  then show ?case
    by (cases "j \<in> set is") (auto simp: look_pub look_republish_other assms(2))
qed simp

lemma pub_overwrite: "look (pub (pub s i v) i w) = look (pub s i w)"
  by (auto simp: look_pub)

lemma pub_commute: "i \<noteq> j \<Longrightarrow> look (pub (pub s i v) j w) = look (pub (pub s j w) i v)"
  by (auto simp: look_pub)

end

interpretation ts: tag_store_port get "\<lambda>s i v. fst (publish s i v)"
  by unfold_locales (simp add: get_def publish_def Let_def)

section \<open>Properties\<close>

lemma get_publish [store_simps]: "get (fst (publish s i v)) j = (if i = j then Some v else get s j)"
  by (rule ts.look_pub)

lemma get_subscribe [store_simps]: "get (fst (subscribe s h)) j = get s j"
  by (simp add: get_def subscribe_def Let_def)

lemma get_unsubscribe [store_simps]: "get (unsubscribe s k) j = get s j"
  by (simp add: get_def unsubscribe_def)

lemma get_mark_stale [store_simps]:
  "get (fst (mark_stale_before s c r)) j = map_option (stale_value c r) (get s j)"
  by (simp add: get_def mark_stale_before_def Let_def map_of_map)

lemma stale_value_fields [simp]:
  "tv_value (stale_value c r v) = tv_value v" "tv_source_ts (stale_value c r v) = tv_source_ts v"
  "tv_server_ts (stale_value c r v) = tv_server_ts v" "tv_epoch (stale_value c r v) = tv_epoch v"
  by (simp_all add: stale_value_def)

lemma stale_value_idem [simp]: "stale_value c r (stale_value c' r' v) =
    (if goes_stale c' v then stale_value c' r' v else stale_value c r v)"
  by (simp add: stale_value_def goes_stale_def)

text \<open>
  \<open>mark_stale_before\<close> downgrades exactly the Good tags whose server time stamp is before the
  cutoff to Uncertain with the given reason, keeps every engineering value and time stamp, and
  notifies every subscriber of exactly the downgraded tags with their new value.
\<close>

theorem mark_stale_before_spec:
  assumes "ts_wf s"
  shows "get (fst (mark_stale_before s cutoff reason)) i = map_option (stale_value cutoff reason) (get s i) \<and>
    set (snd (mark_stale_before s cutoff reason)) =
      {(h, i, v\<lparr>tv_quality := Uncertain, tv_reason := reason\<rparr>) | h i v.
         h \<in> snd ` set (ts_subscribers s) \<and> get s i = Some v \<and> tv_quality v = Good \<and>
         tv_server_ts v < cutoff}"
proof (intro conjI get_mark_stale)
  have m: "(i, v) \<in> set (ts_values s) \<longleftrightarrow> get s i = Some v" for i v
    using assms by (auto simp: ts_wf_def get_def map_of_eq_Some_iff)
  have calls: "snd (mark_stale_before s cutoff reason) =
      concat (map (\<lambda>(i, v). notify_all s i (v\<lparr>tv_quality := Uncertain, tv_reason := reason\<rparr>))
        (filter (\<lambda>(_, v). goes_stale cutoff v) (ts_values s)))"
    by (auto simp: mark_stale_before_def Let_def notify_all_def stale_value_def intro!: arg_cong [of _ _ concat])
  show "set (snd (mark_stale_before s cutoff reason)) =
      {(h, i, v\<lparr>tv_quality := Uncertain, tv_reason := reason\<rparr>) | h i v.
         h \<in> snd ` set (ts_subscribers s) \<and> get s i = Some v \<and> tv_quality v = Good \<and>
         tv_server_ts v < cutoff}" (is "_ = ?R")
  proof (intro set_eqI iffI)
    fix x assume "x \<in> set (snd (mark_stale_before s cutoff reason))"
    then show "x \<in> ?R" unfolding calls by (force simp: notify_all_def goes_stale_def m)
  next
    fix x assume "x \<in> ?R"
    then obtain k h i v where x: "x = (h, i, v\<lparr>tv_quality := Uncertain, tv_reason := reason\<rparr>)"
        "(k, h) \<in> set (ts_subscribers s)" "(i, v) \<in> set (ts_values s)" "goes_stale cutoff v"
      by (auto simp: m goes_stale_def)
    then show "x \<in> set (snd (mark_stale_before s cutoff reason))"
      unfolding calls by (auto simp: notify_all_def intro!: bexI [of _ "(i, v)"] image_eqI [of _ _ "(k, h)"])
  qed
qed

theorem mark_stale_before_spec_witness:
  "get (fst (mark_stale_before (fst (publish (fst (subscribe empty_tag_store ''opc'')) 1
       (default_tag_value\<lparr>tv_quality := Good, tv_server_ts := 10\<rparr>))) 20 QR_Stale)) 1 =
     Some (default_tag_value\<lparr>tv_quality := Uncertain, tv_reason := QR_Stale, tv_server_ts := 10\<rparr>)"
proof -
  let ?s = "fst (publish (fst (subscribe empty_tag_store ''opc'')) 1
       (default_tag_value\<lparr>tv_quality := Good, tv_server_ts := 10\<rparr>))"
  have "ts_wf ?s"
    by (intro ts_wf_publish ts_wf_subscribe ts_wf_empty) (simp add: empty_tag_store_def)
  from mark_stale_before_spec [OF this, THEN conjunct1, of 20 QR_Stale 1]
  show ?thesis by (simp add: get_publish stale_value_def goes_stale_def default_tag_value_def)
qed

end
