(* ===== verification/Runtime_Index.thy ===== *)
theory Runtime_Index
  imports Project_Types
begin

text \<open>
  The immutable index of \<open>Src/core/runtime_index.cpp\<close>: every tag of every device gets a 32-bit id in
  declaration order, and two hash maps lead from ids and names to positions in the tag vector.
\<close>

section \<open>State and construction\<close>

record tag_binding =
  tb_id :: tag_id
  tb_device_id :: string
  tb_endpoint_id :: string
  tb_unit_id :: u8
  tb_tag :: tag

record runtime_index =
  ri_project :: project
  ri_tags :: "tag_binding list"
  ri_by_id :: "(tag_id, nat) umap"
  ri_by_name :: "(string, nat) umap"

text \<open>The body of the inner loop of \<open>build\<close>; the counter \<open>next\<close> wraps at 32 bits.\<close>

definition build_tag :: "device \<Rightarrow> runtime_index \<times> tag_id \<Rightarrow> tag \<Rightarrow> runtime_index \<times> tag_id" where
  "build_tag d st t = (case st of (ix, nxt) \<Rightarrow>
     let b = \<lparr>tb_id = nxt, tb_device_id = dev_id d, tb_endpoint_id = dev_endpoint_id d,
              tb_unit_id = word_of_int (dev_unit_id d), tb_tag = t\<rparr>;
         pos = length (ri_tags ix)
     in (ix\<lparr>ri_by_id := emplace (tb_id b) pos (ri_by_id ix),
            ri_by_name := emplace (tag_name (tb_tag b)) pos (ri_by_name ix),
            ri_tags := ri_tags ix @ [b]\<rparr>, nxt + 1))"

definition build :: "project \<Rightarrow> runtime_index" where
  "build p = fst (fold (\<lambda>d st. fold (\<lambda>t st. build_tag d st t) (dev_tags d) st) (prj_devices p)
     (\<lparr>ri_project = p, ri_tags = [], ri_by_id = [], ri_by_name = []\<rparr>, 1))"

section \<open>Lookups\<close>

definition find_by_id :: "runtime_index \<Rightarrow> tag_id \<Rightarrow> tag_binding option result" where
  "find_by_id ix i = (case map_of (ri_by_id ix) i of
     None \<Rightarrow> Ok None
   | Some pos \<Rightarrow> and_then (read_at (ri_tags ix) pos) (\<lambda>b. Ok (Some b)))"

definition find_by_name :: "runtime_index \<Rightarrow> string \<Rightarrow> tag_binding option result" where
  "find_by_name ix n = (case map_of (ri_by_name ix) n of
     None \<Rightarrow> Ok None
   | Some pos \<Rightarrow> and_then (read_at (ri_tags ix) pos) (\<lambda>b. Ok (Some b)))"

definition ri_endpoint :: "runtime_index \<Rightarrow> string \<Rightarrow> endpoint option" where
  "ri_endpoint ix i = find (\<lambda>ep. ep_id ep = i) (prj_endpoints (ri_project ix))"

definition ri_device :: "runtime_index \<Rightarrow> string \<Rightarrow> device option" where
  "ri_device ix i = find (\<lambda>d. dev_id d = i) (prj_devices (ri_project ix))"

definition groups_for_endpoint :: "runtime_index \<Rightarrow> string \<Rightarrow> poll_group list" where
  "groups_for_endpoint ix eid =
     filter (\<lambda>g. case ri_device ix (grp_device_id g) of
                   Some d \<Rightarrow> dev_endpoint_id d = eid
                 | None \<Rightarrow> False)
       (prj_poll_groups (ri_project ix))"

section \<open>Specification\<close>

text \<open>The tags of a project with their devices, in declaration order.\<close>

definition project_tags :: "project \<Rightarrow> (device \<times> tag) list" where
  "project_tags p = concat (map (\<lambda>d. map (Pair d) (dev_tags d)) (prj_devices p))"

definition binding_of :: "nat \<Rightarrow> device \<times> tag \<Rightarrow> tag_binding" where
  "binding_of k dt = (case dt of (d, t) \<Rightarrow>
     \<lparr>tb_id = of_nat (k + 1), tb_device_id = dev_id d, tb_endpoint_id = dev_endpoint_id d,
      tb_unit_id = word_of_int (dev_unit_id d), tb_tag = t\<rparr>)"

definition project_bindings :: "project \<Rightarrow> tag_binding list" where
  "project_bindings p = map (\<lambda>(k, dt). binding_of k dt) (enumerate 0 (project_tags p))"

text \<open>Position of the first element that satisfies a predicate, as both hash maps record it.\<close>

definition first_pos :: "('a \<Rightarrow> bool) \<Rightarrow> 'a list \<Rightarrow> nat option" where
  "first_pos P xs = find (\<lambda>i. P (xs ! i)) [0..<length xs]"

lemma find_append: "find P (xs @ ys) = (case find P xs of Some x \<Rightarrow> Some x | None \<Rightarrow> find P ys)"
  by (induction xs) auto

lemma first_pos_snoc:
  "first_pos P (xs @ [x]) =
     (case first_pos P xs of Some i \<Rightarrow> Some i | None \<Rightarrow> if P x then Some (length xs) else None)"
proof -
  have "find (\<lambda>i. P ((xs @ [x]) ! i)) [0..<length xs] = find (\<lambda>i. P (xs ! i)) [0..<length xs]"
    by (intro find_cong) (auto simp: nth_append)
  then show ?thesis by (simp add: first_pos_def find_append split: option.split)
qed

lemma first_pos_Nil [simp]: "first_pos P [] = None"
  by (simp add: first_pos_def)

lemma first_pos_less: "first_pos P xs = Some i \<Longrightarrow> i < length xs"
  by (auto simp: first_pos_def find_Some_iff)

lemma first_pos_find: "(case first_pos P xs of None \<Rightarrow> None | Some i \<Rightarrow> Some (xs ! i)) = find P xs"
proof (induction xs rule: rev_induct)
  case (snoc x xs)
  then show ?case
    by (cases "first_pos P xs") (auto simp: first_pos_snoc find_append nth_append dest: first_pos_less
        split: option.splits)
qed simp

definition index_inv :: "runtime_index \<Rightarrow> bool" where
  "index_inv ix \<longleftrightarrow>
     map_of (ri_by_id ix) = (\<lambda>i. first_pos (\<lambda>b. tb_id b = i) (ri_tags ix)) \<and>
     map_of (ri_by_name ix) = (\<lambda>n. first_pos (\<lambda>b. tag_name (tb_tag b) = n) (ri_tags ix))"

lemma index_inv_build_tag:
  assumes "index_inv ix" shows "index_inv (fst (build_tag d (ix, n) t))"
  using assms
  by (auto simp: index_inv_def build_tag_def Let_def first_pos_snoc fun_eq_iff split: option.splits)

definition bindings_from :: "nat \<Rightarrow> (device \<times> tag) list \<Rightarrow> tag_binding list" where
  "bindings_from k dts = map (\<lambda>(k, dt). binding_of k dt) (enumerate k dts)"

lemma bindings_from_Cons: "bindings_from k (dt # dts) = binding_of k dt # bindings_from (Suc k) dts"
  by (simp add: bindings_from_def)

definition build_step :: "device \<times> tag \<Rightarrow> runtime_index \<times> tag_id \<Rightarrow> runtime_index \<times> tag_id" where
  "build_step dt st = build_tag (fst dt) st (snd dt)"

lemma build_fold: "build p = fst (fold build_step (project_tags p)
     (\<lparr>ri_project = p, ri_tags = [], ri_by_id = [], ri_by_name = []\<rparr>, 1))"
proof -
  have inner: "fold (\<lambda>t st. build_tag d st t) ts st = fold build_step (map (Pair d) ts) st" for d ts st
    by (induction ts arbitrary: st) (simp_all add: build_step_def)
  have "fold (\<lambda>d st. fold (\<lambda>t st. build_tag d st t) (dev_tags d) st) ds st =
      fold build_step (concat (map (\<lambda>d. map (Pair d) (dev_tags d)) ds)) st" for ds st
    by (induction ds arbitrary: st) (simp_all add: inner)
  then show ?thesis by (simp add: build_def project_tags_def)
qed

lemma fold_build_step:
  assumes "index_inv ix" "length (ri_tags ix) = k"
  shows "index_inv (fst (fold build_step dts (ix, of_nat (k + 1)))) \<and>
    ri_tags (fst (fold build_step dts (ix, of_nat (k + 1)))) = ri_tags ix @ bindings_from k dts \<and>
    ri_project (fst (fold build_step dts (ix, of_nat (k + 1)))) = ri_project ix"
  using assms
proof (induction dts arbitrary: ix k)
  case (Cons dt dts)
  obtain ix' where st: "build_step dt (ix, of_nat (k + 1)) = (ix', of_nat (Suc k + 1))"
      "ri_tags ix' = ri_tags ix @ [binding_of k dt]" "ri_project ix' = ri_project ix"
    by (cases dt) (auto simp: build_step_def build_tag_def binding_of_def Let_def add.commute)
  moreover have "index_inv ix'"
    using index_inv_build_tag [OF Cons.prems(1), of "fst dt" "of_nat (k + 1)" "snd dt"] st(1)
    by (simp add: build_step_def)
  ultimately show ?case
    using Cons.IH [of ix' "Suc k"] Cons.prems(2) by (simp add: bindings_from_Cons)
qed (simp add: bindings_from_def)

lemma build_inv:
  "index_inv (build p)" "ri_tags (build p) = project_bindings p" "ri_project (build p) = p"
proof -
  let ?ix = "\<lparr>ri_project = p, ri_tags = [], ri_by_id = [], ri_by_name = []\<rparr>"
  have "index_inv ?ix" by (simp add: index_inv_def)
  from fold_build_step [OF this, of 0 "project_tags p"]
  show "index_inv (build p)" "ri_tags (build p) = project_bindings p" "ri_project (build p) = p"
    by (simp_all add: build_fold bindings_from_def project_bindings_def)
qed

section \<open>Properties\<close>

lemma first_pos_lookup:
  "(case first_pos P xs of None \<Rightarrow> Ok None | Some pos \<Rightarrow> and_then (read_at xs pos) (\<lambda>b. Ok (Some b))) =
    Ok (find P xs)"
  using first_pos_find [where P = P and xs = xs] first_pos_less [where P = P and xs = xs]
  by (cases "first_pos P xs") auto

text \<open>
  The index is faithful to the project: looking a name up returns the first tag of the project
  with that name in declaration order, looking an id up the tag that carries it, and no lookup
  reads outside the tag vector.
\<close>

theorem index_lookup:
  "find_by_name (build p) n = Ok (find (\<lambda>b. tag_name (tb_tag b) = n) (project_bindings p)) \<and>
   find_by_id (build p) i = Ok (find (\<lambda>b. tb_id b = i) (project_bindings p))"
  using build_inv(1) [of p]
  by (simp add: find_by_name_def find_by_id_def index_inv_def build_inv(2) first_pos_lookup
      cong: option.case_cong)

lemma project_bindings_nth:
  assumes "k < length (project_tags p)"
  shows "project_bindings p ! k = binding_of k (project_tags p ! k)"
  using assms by (simp add: project_bindings_def nth_enumerate_eq)

lemma length_project_bindings [simp]: "length (project_bindings p) = length (project_tags p)"
  by (simp add: project_bindings_def)

text \<open>
  With fewer than \<open>2 ^ 32\<close> tags the ids are \<open>1, 2, 3, ...\<close>: no two tags share an id, and looking
  the id of a tag up returns that tag.
\<close>

theorem index_ids_distinct:
  assumes "length (project_tags p) < 2 ^ 32 - 1" "k < length (project_tags p)"
  shows "unat (tb_id (project_bindings p ! k)) = k + 1 \<and>
    distinct (map tb_id (project_bindings p)) \<and>
    find_by_id (build p) (tb_id (project_bindings p ! k)) = Ok (Some (project_bindings p ! k))"
proof -
  have u: "j < length (project_tags p) \<Longrightarrow> unat (tb_id (project_bindings p ! j)) = j + 1" for j
    using assms(1) by (cases "project_tags p ! j")
      (simp add: project_bindings_nth binding_of_def unat_of_nat of_nat_diff flip: of_nat_Suc del: of_nat_Suc)
  have d: "distinct (map tb_id (project_bindings p))"
    unfolding distinct_conv_nth
    by (metis Suc_eq_plus1 Suc_inject length_map length_project_bindings nth_map u)
  have "find (\<lambda>b. tb_id b = tb_id (project_bindings p ! k)) (project_bindings p) = Some (project_bindings p ! k)"
    unfolding find_Some_iff using assms(2) d
    by (intro exI [of _ k]) (auto simp: distinct_conv_nth)
  then show ?thesis
    using u [OF assms(2)] d build_inv(1) [of p]
    by (simp add: find_by_id_def index_inv_def build_inv(2) first_pos_lookup cong: option.case_cong)
qed

definition sample_project :: project where
  "sample_project = default_project\<lparr>prj_devices :=
     [\<lparr>dev_id = ''d1'', dev_endpoint_id = ''e1'', dev_unit_id = 1, dev_profile_id = [],
       dev_description = [], dev_tags = [default_tag\<lparr>tag_name := ''a''\<rparr>, default_tag\<lparr>tag_name := ''b''\<rparr>]\<rparr>]\<rparr>"

theorem index_ids_distinct_witness:
  "unat (tb_id (project_bindings sample_project ! 1)) = 1 + 1 \<and>
   distinct (map tb_id (project_bindings sample_project)) \<and>
   find_by_id (build sample_project) (tb_id (project_bindings sample_project ! 1)) =
     Ok (Some (project_bindings sample_project ! 1))"
  by (rule index_ids_distinct) (simp_all add: sample_project_def project_tags_def)

end
