(* ===== verification/Transport_Port.thy ===== *)
theory Transport_Port
  imports Domain
begin

text \<open>
  The southbound port \<open>Src/ports/i_modbus_transport.hpp\<close>. An adapter is a record of operations over the
  state of one transport object; \<open>connect\<close>, reads and writes return the new state with their result.
  The asynchronous calls of the port are the default ones: they run the synchronous call and hand the
  result to the completion inline.
\<close>

record 't transport_ops =
  tp_connect :: "'t \<Rightarrow> string \<Rightarrow> u16 \<Rightarrow> 't \<times> unit result"
  tp_close :: "'t \<Rightarrow> 't"
  tp_is_connected :: "'t \<Rightarrow> bool"
  tp_read_holding_registers :: "'t \<Rightarrow> u8 \<Rightarrow> u16 \<Rightarrow> u16 \<Rightarrow> 't \<times> u16 list result"
  tp_read_input_registers :: "'t \<Rightarrow> u8 \<Rightarrow> u16 \<Rightarrow> u16 \<Rightarrow> 't \<times> u16 list result"
  tp_read_coils :: "'t \<Rightarrow> u8 \<Rightarrow> u16 \<Rightarrow> u16 \<Rightarrow> 't \<times> bool list result"
  tp_read_discrete_inputs :: "'t \<Rightarrow> u8 \<Rightarrow> u16 \<Rightarrow> u16 \<Rightarrow> 't \<times> bool list result"
  tp_write_single_register :: "'t \<Rightarrow> u8 \<Rightarrow> u16 \<Rightarrow> u16 \<Rightarrow> 't \<times> unit result"
  tp_write_multiple_registers :: "'t \<Rightarrow> u8 \<Rightarrow> u16 \<Rightarrow> u16 list \<Rightarrow> 't \<times> unit result"
  tp_write_single_coil :: "'t \<Rightarrow> u8 \<Rightarrow> u16 \<Rightarrow> bool \<Rightarrow> 't \<times> unit result"
  tp_write_multiple_coils :: "'t \<Rightarrow> u8 \<Rightarrow> u16 \<Rightarrow> u8 list \<Rightarrow> 't \<times> unit result"

text \<open>
  What a caller may rely on when it reads: a successful read returns as many items as were
  requested, and the call itself is defined. The contract for registers and the one for bits are
  separate, because not every adapter keeps the second.
\<close>

definition sized_read :: "('t \<Rightarrow> u8 \<Rightarrow> u16 \<Rightarrow> u16 \<Rightarrow> 't \<times> 'a list result) \<Rightarrow> bool" where
  "sized_read rd \<longleftrightarrow> (\<forall>t u a q. snd (rd t u a q) \<noteq> Undef \<and>
     (\<forall>xs. snd (rd t u a q) = Ok xs \<longrightarrow> length xs = unat q))"

lemma sized_readD:
  assumes "sized_read rd"
  shows "snd (rd t u a q) \<noteq> Undef" and "snd (rd t u a q) = Ok xs \<Longrightarrow> length xs = unat q"
  using assms by (auto simp: sized_read_def)

lemma sized_readI:
  "(\<And>t u a q. snd (rd t u a q) \<noteq> Undef) \<Longrightarrow>
   (\<And>t u a q xs. snd (rd t u a q) = Ok xs \<Longrightarrow> length xs = unat q) \<Longrightarrow> sized_read rd"
  by (auto simp: sized_read_def)

locale register_port =
  fixes ops :: "'t transport_ops"
  assumes holding_sized: "sized_read (tp_read_holding_registers ops)"
    and input_sized: "sized_read (tp_read_input_registers ops)"

locale bit_port = register_port +
  assumes coils_sized: "sized_read (tp_read_coils ops)"
    and discrete_sized: "sized_read (tp_read_discrete_inputs ops)"

section \<open>Default asynchronous operations\<close>

text \<open>
  A completion is a function that may be empty. It gets the result and changes the state of its owner
  together with the transport, which it may call again. Without a completion nothing is executed.
\<close>

type_synonym ('t, 's, 'a) modbus_completion = "('a result \<Rightarrow> 't \<times> 's \<Rightarrow> 't \<times> 's) option"

definition complete_inline :: "('t \<Rightarrow> 't \<times> 'a result) \<Rightarrow> ('t, 's, 'a) modbus_completion \<Rightarrow> 't \<times> 's \<Rightarrow> 't \<times> 's" where
  "complete_inline call handler w = (case handler of
     None \<Rightarrow> w
   | Some h \<Rightarrow> (let (t, res) = call (fst w) in h res (t, snd w)))"

definition set_completion_executor :: "'e option \<Rightarrow> 't \<Rightarrow> 't" where
  "set_completion_executor executor t = t"

definition async_connect where
  "async_connect ops host port = complete_inline (\<lambda>t. tp_connect ops t host port)"

definition async_read_holding_registers where
  "async_read_holding_registers ops u a q = complete_inline (\<lambda>t. tp_read_holding_registers ops t u a q)"

definition async_read_input_registers where
  "async_read_input_registers ops u a q = complete_inline (\<lambda>t. tp_read_input_registers ops t u a q)"

definition async_read_coils where
  "async_read_coils ops u a q = complete_inline (\<lambda>t. tp_read_coils ops t u a q)"

definition async_read_discrete_inputs where
  "async_read_discrete_inputs ops u a q = complete_inline (\<lambda>t. tp_read_discrete_inputs ops t u a q)"

definition async_write_single_register where
  "async_write_single_register ops u a v = complete_inline (\<lambda>t. tp_write_single_register ops t u a v)"

definition async_write_multiple_registers where
  "async_write_multiple_registers ops u a vs = complete_inline (\<lambda>t. tp_write_multiple_registers ops t u a vs)"

definition async_write_single_coil where
  "async_write_single_coil ops u a v = complete_inline (\<lambda>t. tp_write_single_coil ops t u a v)"

definition async_write_multiple_coils where
  "async_write_multiple_coils ops u a vs = complete_inline (\<lambda>t. tp_write_multiple_coils ops t u a vs)"

lemmas default_async_defs = async_connect_def async_read_holding_registers_def async_read_input_registers_def
  async_read_coils_def async_read_discrete_inputs_def async_write_single_register_def
  async_write_multiple_registers_def async_write_single_coil_def async_write_multiple_coils_def

text \<open>A completion that only notes its result is called exactly once, with the result of the call.\<close>

lemma complete_inline_once:
  "complete_inline call (Some (\<lambda>res (t, seen). (t, seen @ [res]))) (t, seen) = (fst (call t), seen @ [snd (call t)])"
  by (simp add: complete_inline_def case_prod_unfold Let_def)

context register_port
begin

text \<open>A completion of a register read can rely on the number of registers.\<close>

lemma async_holding_sized:
  "async_read_holding_registers ops u a q (Some h) (t, s) = w \<Longrightarrow>
     \<exists>res t'. w = h res (t', s) \<and> res \<noteq> Undef \<and> (\<forall>xs. res = Ok xs \<longrightarrow> length xs = unat q)"
  using sized_readD [OF holding_sized, of t u a q]
  by (auto simp: async_read_holding_registers_def complete_inline_def case_prod_unfold Let_def)

end

end
