(* ===== verification/Dispatcher.thy ===== *)
theory Dispatcher
  imports Translator Tag_Store Runtime_Index Transport_Port
begin

text \<open>
  The dispatcher of \<open>Src/core/dispatcher.cpp\<close>: it polls the tags of an endpoint when their poll group
  is due, publishes values and qualities to the tag store, and drains the write queues. One record
  holds the members of \<open>Dispatcher\<close> and the objects its pointers lead to: the tag store, the
  transport objects by address, the clock, and the logs of the metrics and tracer ports.
  Optional dependencies (null pointers) are the \<open>d_has\<close> flags. Every operation takes the record of
  transport operations as its first argument.
\<close>

section \<open>State\<close>

record pending_write =
  pw_tag_id :: tag_id
  pw_value :: scalar_value

datatype metric_event = CounterAdd string | GaugeSet string int | HistogramObserve string int

datatype span_event = SpanStart string | SpanAttribute string string | SpanCount string int
  | SpanError string

record ('t, 'h) dispatcher =
  d_index :: runtime_index
  d_has_store :: bool
  d_has_clock :: bool
  d_has_metrics :: bool
  d_has_tracer :: bool
  d_transports :: "(string, nat option) umap"
  d_last_poll_ms :: "(string, timestamp_ms) umap"
  d_write_queues :: "(string, pending_write list) umap"
  d_store :: "'h tag_store"
  d_calls :: "'h change_calls"
  d_heap :: "nat \<Rightarrow> 't"
  d_clock :: "nat \<Rightarrow> timestamp_ms"
  d_clock_reads :: nat
  d_metrics :: "metric_event list"
  d_spans :: "(nat \<times> span_event) list"

definition kMaxWriteQueueDepth :: nat where "kMaxWriteQueueDepth = 1024"

section \<open>Ports the dispatcher calls\<close>

definition now_ms :: "('t, 'h) dispatcher \<Rightarrow> ('t, 'h) dispatcher \<times> timestamp_ms" where
  "now_ms s = (s\<lparr>d_clock_reads := d_clock_reads s + 1\<rparr>, d_clock s (d_clock_reads s))"

definition metric :: "metric_event \<Rightarrow> ('t, 'h) dispatcher \<Rightarrow> ('t, 'h) dispatcher" where
  "metric m s = (if d_has_metrics s then s\<lparr>d_metrics := d_metrics s @ [m]\<rparr> else s)"

definition store_publish :: "tag_id \<Rightarrow> tag_value \<Rightarrow> ('t, 'h) dispatcher \<Rightarrow> ('t, 'h) dispatcher" where
  "store_publish i v s = (case publish (d_store s) i v of
     (st, calls) \<Rightarrow> s\<lparr>d_store := st, d_calls := d_calls s @ calls\<rparr>)"

definition start_span :: "string \<Rightarrow> ('t, 'h) dispatcher \<Rightarrow> ('t, 'h) dispatcher \<times> nat option" where
  "start_span name s =
     (if d_has_tracer s
      then (s\<lparr>d_spans := d_spans s @ [(length (d_spans s), SpanStart name)]\<rparr>, Some (length (d_spans s)))
      else (s, None))"

fun span_log :: "nat option \<Rightarrow> span_event \<Rightarrow> ('t, 'h) dispatcher \<Rightarrow> ('t, 'h) dispatcher" where
  "span_log None ev s = s"
| "span_log (Some n) ev s = s\<lparr>d_spans := d_spans s @ [(n, ev)]\<rparr>"

text \<open>A call of an operation of the transport object at an address.\<close>

definition on_transport ::
  "('t \<Rightarrow> 't \<times> 'r) \<Rightarrow> nat \<Rightarrow> ('t, 'h) dispatcher \<Rightarrow> ('t, 'h) dispatcher \<times> 'r" where
  "on_transport f a s = (case f (d_heap s a) of (t, r) \<Rightarrow> (s\<lparr>d_heap := (d_heap s)(a := t)\<rparr>, r))"

section \<open>Helpers\<close>

definition dispatcher_error :: "error_code \<Rightarrow> string \<Rightarrow> bool \<Rightarrow> error" where
  "dispatcher_error c m r = mk_error c m ''core.dispatcher'' r"

definition regs_for :: "tag \<Rightarrow> int" where
  "regs_for t = (case tag_quantity t of Some q \<Rightarrow> q
     | None \<Rightarrow> (case tag_ty t of TBool \<Rightarrow> 1 | TUInt16 \<Rightarrow> 1 | TInt16 \<Rightarrow> 1
                | TUInt32 \<Rightarrow> 2 | TInt32 \<Rightarrow> 2 | TFloat32 \<Rightarrow> 2 | TFloat64 \<Rightarrow> 4))"

definition transport_error :: "error \<Rightarrow> error" where
  "transport_error e = (if err_component e = [] then e\<lparr>err_component := ''core.dispatcher''\<rparr> else e)"

definition publish_quality ::
  "tag_id \<Rightarrow> quality \<Rightarrow> quality_reason \<Rightarrow> timestamp_ms \<Rightarrow> scalar_value option \<Rightarrow>
     ('t, 'h) dispatcher \<Rightarrow> ('t, 'h) dispatcher" where
  "publish_quality i q reason now v s =
     (if \<not> d_has_store s then s
      else let nxt = with_quality (get (d_store s) i) q reason now;
               nxt = (case v of Some x \<Rightarrow> nxt\<lparr>tv_value := x, tv_source_ts := now\<rparr> | None \<Rightarrow> nxt)
           in store_publish i nxt s)"

definition bind_transport :: "string \<Rightarrow> nat option \<Rightarrow> ('t, 'h) dispatcher \<Rightarrow> ('t, 'h) dispatcher" where
  "bind_transport eid t s = s\<lparr>d_transports := AList.update eid t (d_transports s)\<rparr>"

section \<open>Polling one tag\<close>

definition observe_rtt :: "timestamp_ms \<Rightarrow> ('t, 'h) dispatcher \<Rightarrow> ('t, 'h) dispatcher" where
  "observe_rtt t0 s =
     (if d_has_metrics s
      then case now_ms s of (s, t) \<Rightarrow> metric (HistogramObserve ''modbus_poll_rtt_ms'' (t - t0)) s
      else s)"

fun read_failure_reason :: "error_code \<Rightarrow> quality_reason" where
  "read_failure_reason EC_Timeout = QR_Timeout"
| "read_failure_reason EC_ModbusException = QR_ModbusException"
| "read_failure_reason c = QR_NoCommunication"

definition good_value :: "scalar_value \<Rightarrow> timestamp_ms \<Rightarrow> tag_value" where
  "good_value v now = \<lparr>tv_value = v, tv_quality = Good, tv_reason = QR_None, tv_source_ts = now,
     tv_server_ts = now, tv_epoch = 0\<rparr>"

text \<open>What follows a read: the failure branch, the decoding branch and the publication.\<close>

definition finish_regs ::
  "tag_binding \<Rightarrow> timestamp_ms \<Rightarrow> timestamp_ms \<Rightarrow> u16 list result \<Rightarrow>
     ('t, 'h) dispatcher \<Rightarrow> ('t, 'h) dispatcher \<times> unit result" where
  "finish_regs b now t0 regs s =
     (let s = observe_rtt t0 s in
      case regs of
        Undef \<Rightarrow> (s, Undef)
      | Err e \<Rightarrow>
          (metric (CounterAdd ''modbus_poll_errors_total'')
             (publish_quality (tb_id b) Bad (read_failure_reason (err_code e)) now None s),
           Err (transport_error e))
      | Ok rs \<Rightarrow>
          (case decode (tb_tag b) rs of
             Undef \<Rightarrow> (s, Undef)
           | Err e \<Rightarrow> (publish_quality (tb_id b) Bad QR_DecodingError now None s, Err e)
           | Ok v \<Rightarrow> (store_publish (tb_id b) (good_value v now) s, Ok ())))"

definition bits_to_regs :: "bool list \<Rightarrow> u16 list" where
  "bits_to_regs bs = map (\<lambda>b. if b then 1 else 0) bs"

text \<open>The two bit areas of the synchronous poll, which have a failure branch of their own.\<close>

definition finish_bits ::
  "tag_binding \<Rightarrow> timestamp_ms \<Rightarrow> timestamp_ms \<Rightarrow> bool list result \<Rightarrow>
     ('t, 'h) dispatcher \<Rightarrow> ('t, 'h) dispatcher \<times> unit result" where
  "finish_bits b now t0 bits s =
     (case bits of
        Undef \<Rightarrow> (s, Undef)
      | Err e \<Rightarrow>
          (let s = observe_rtt t0 s;
               s = publish_quality (tb_id b) Bad QR_NoCommunication now None s
           in (metric (CounterAdd ''modbus_poll_errors_total'') s, Err (transport_error e)))
      | Ok bs \<Rightarrow> finish_regs b now t0 (Ok (bits_to_regs bs)) s)"

definition poll_tag ::
  "'t transport_ops \<Rightarrow> tag_binding \<Rightarrow> nat \<Rightarrow> timestamp_ms \<Rightarrow> ('t, 'h) dispatcher \<Rightarrow>
     ('t, 'h) dispatcher \<times> unit result" where
  "poll_tag ops b a now s =
     (if \<not> d_has_store s \<or> \<not> d_has_clock s
      then (s, Err (dispatcher_error EC_Internal ''missing tag_store/clock'' False))
      else
        let qty = word_of_int (regs_for (tb_tag b));
            addr = word_of_int (tag_address (tb_tag b));
            u = tb_unit_id b
        in case now_ms s of (s, t0) \<Rightarrow>
          (case tag_area (tb_tag b) of
             Holding \<Rightarrow> (case on_transport (\<lambda>t. tp_read_holding_registers ops t u addr qty) a s of
                          (s, r) \<Rightarrow> finish_regs b now t0 r s)
           | Input \<Rightarrow> (case on_transport (\<lambda>t. tp_read_input_registers ops t u addr qty) a s of
                          (s, r) \<Rightarrow> finish_regs b now t0 r s)
           | Coil \<Rightarrow> (case on_transport (\<lambda>t. tp_read_coils ops t u addr qty) a s of
                          (s, r) \<Rightarrow> finish_bits b now t0 r s)
           | Discrete \<Rightarrow> (case on_transport (\<lambda>t. tp_read_discrete_inputs ops t u addr qty) a s of
                          (s, r) \<Rightarrow> finish_bits b now t0 r s)))"

text \<open>\<open>poll_tag_async\<close>: the bit areas convert and join the common completion. The result is what
  \<open>done\<close> receives.\<close>

definition poll_tag_async ::
  "'t transport_ops \<Rightarrow> tag_binding \<Rightarrow> nat \<Rightarrow> timestamp_ms \<Rightarrow> ('t, 'h) dispatcher \<Rightarrow>
     ('t, 'h) dispatcher \<times> unit result" where
  "poll_tag_async ops b a now s =
     (if \<not> d_has_store s \<or> \<not> d_has_clock s
      then (s, Err (dispatcher_error EC_Internal ''missing tag_store/clock'' False))
      else
        let qty = word_of_int (regs_for (tb_tag b));
            addr = word_of_int (tag_address (tb_tag b));
            u = tb_unit_id b
        in case now_ms s of (s, t0) \<Rightarrow>
          (case tag_area (tb_tag b) of
             Holding \<Rightarrow> (case on_transport (\<lambda>t. tp_read_holding_registers ops t u addr qty) a s of
                          (s, r) \<Rightarrow> finish_regs b now t0 r s)
           | Input \<Rightarrow> (case on_transport (\<lambda>t. tp_read_input_registers ops t u addr qty) a s of
                          (s, r) \<Rightarrow> finish_regs b now t0 r s)
           | Coil \<Rightarrow> (case on_transport (\<lambda>t. tp_read_coils ops t u addr qty) a s of
                          (s, r) \<Rightarrow> finish_regs b now t0 (and_then r (\<lambda>bs. Ok (bits_to_regs bs))) s)
           | Discrete \<Rightarrow> (case on_transport (\<lambda>t. tp_read_discrete_inputs ops t u addr qty) a s of
                          (s, r) \<Rightarrow> finish_regs b now t0 (and_then r (\<lambda>bs. Ok (bits_to_regs bs))) s)))"

section \<open>Poll groups\<close>

text \<open>The tags of a group without an explicit list: those of its device and group, or else those its
  register blocks contain.\<close>

definition in_block :: "tag \<Rightarrow> register_block \<Rightarrow> bool" where
  "in_block t blk \<longleftrightarrow> tag_area t = blk_area blk \<and> tag_address t \<ge> blk_start blk \<and>
     tag_address t + regs_for t \<le> blk_start blk + blk_count blk"

definition implicit_group_tags :: "runtime_index \<Rightarrow> poll_group \<Rightarrow> tag_binding list" where
  "implicit_group_tags ix g =
     (let own = filter (\<lambda>b. tb_device_id b = grp_device_id g \<and>
                        (tag_group (tb_tag b) = [] \<or> tag_group (tb_tag b) = grp_id g)) (ri_tags ix)
      in if own = [] \<and> grp_blocks g \<noteq> []
         then filter (\<lambda>b. tb_device_id b = grp_device_id g \<and>
                        list_ex (in_block (tb_tag b)) (grp_blocks g)) (ri_tags ix)
         else own)"

text \<open>\<open>poll_group\<close> fails on the first unknown name of an explicit list.\<close>

fun named_tags :: "runtime_index \<Rightarrow> string list \<Rightarrow> tag_binding list result" where
  "named_tags ix [] = Ok []"
| "named_tags ix (n # ns) =
     and_then (find_by_name ix n) (\<lambda>found.
     case found of
       None \<Rightarrow> Err (dispatcher_error EC_NotFound (''tag not found: '' @ n) False)
     | Some b \<Rightarrow> and_then (named_tags ix ns) (\<lambda>bs. Ok (b # bs)))"

definition group_tags :: "runtime_index \<Rightarrow> poll_group \<Rightarrow> tag_binding list result" where
  "group_tags ix g =
     (if grp_tag_names g \<noteq> [] then named_tags ix (grp_tag_names g)
      else Ok (implicit_group_tags ix g))"

text \<open>\<open>collect_group_tags\<close> of the asynchronous path skips unknown names.\<close>

fun known_tags :: "runtime_index \<Rightarrow> string list \<Rightarrow> tag_binding list result" where
  "known_tags ix [] = Ok []"
| "known_tags ix (n # ns) =
     and_then (find_by_name ix n) (\<lambda>found.
     and_then (known_tags ix ns) (\<lambda>bs.
     Ok (case found of None \<Rightarrow> bs | Some b \<Rightarrow> b # bs)))"

definition collect_group_tags :: "runtime_index \<Rightarrow> poll_group \<Rightarrow> tag_binding list result" where
  "collect_group_tags ix g =
     (if grp_tag_names g \<noteq> [] then known_tags ix (grp_tag_names g)
      else Ok (implicit_group_tags ix g))"

text \<open>The loop over the tags keeps the first error and polls on.\<close>

definition first_error :: "unit result \<Rightarrow> unit result \<Rightarrow> unit result" where
  "first_error fe r = (if is_ok fe then r else fe)"

fun poll_tags ::
  "'t transport_ops \<Rightarrow> nat \<Rightarrow> timestamp_ms \<Rightarrow> tag_binding list \<Rightarrow> unit result \<Rightarrow>
     ('t, 'h) dispatcher \<Rightarrow> ('t, 'h) dispatcher \<times> unit result" where
  "poll_tags ops a now [] fe s = (s, fe)"
| "poll_tags ops a now (b # bs) fe s =
     (case poll_tag ops b a now s of
        (s, Undef) \<Rightarrow> (s, Undef)
      | (s, r) \<Rightarrow> poll_tags ops a now bs (first_error fe r) s)"

definition poll_group ::
  "'t transport_ops \<Rightarrow> poll_group \<Rightarrow> nat \<Rightarrow> timestamp_ms \<Rightarrow>
     ('t, 'h) dispatcher \<Rightarrow> ('t, 'h) dispatcher \<times> unit result" where
  "poll_group ops g a now s =
     (case ri_device (d_index s) (grp_device_id g) of
        None \<Rightarrow> (s, Err (dispatcher_error EC_NotFound ''device missing'' False))
      | Some _ \<Rightarrow>
          (case group_tags (d_index s) g of
             Err e \<Rightarrow> (s, Err e)
           | Undef \<Rightarrow> (s, Undef)
           | Ok bs \<Rightarrow> poll_tags ops a now bs (Ok ()) s))"

section \<open>Writes\<close>

definition queue_of :: "('t, 'h) dispatcher \<Rightarrow> string \<Rightarrow> pending_write list" where
  "queue_of s eid = (case map_of (d_write_queues s) eid of Some q \<Rightarrow> q | None \<Rightarrow> [])"

definition set_queue :: "string \<Rightarrow> pending_write list \<Rightarrow> ('t, 'h) dispatcher \<Rightarrow> ('t, 'h) dispatcher" where
  "set_queue eid q s = s\<lparr>d_write_queues := AList.update eid q (d_write_queues s)\<rparr>"

definition enqueue_write ::
  "tag_id \<Rightarrow> scalar_value \<Rightarrow> ('t, 'h) dispatcher \<Rightarrow> ('t, 'h) dispatcher \<times> unit result" where
  "enqueue_write i v s =
     (case find_by_id (d_index s) i of
        Undef \<Rightarrow> (s, Undef)
      | Err e \<Rightarrow> (s, Err e)
      | Ok None \<Rightarrow> (s, Err (dispatcher_error EC_NotFound ''unknown tag'' False))
      | Ok (Some b) \<Rightarrow>
          if \<not> tag_writable (tb_tag b)
          then (s, Err (dispatcher_error EC_Permission ''tag not writable'' False))
          else let q = queue_of s (tb_endpoint_id b) in
            if length q \<ge> kMaxWriteQueueDepth
            then (metric (CounterAdd ''modbus_write_queue_overflow_total'')
                    (set_queue (tb_endpoint_id b) q s),
                  Err (dispatcher_error EC_QueueFull
                    (''write queue full for endpoint '' @ tb_endpoint_id b) True))
            else (metric (GaugeSet ''modbus_write_queue_depth'' (int (length q) + 1))
                    (set_queue (tb_endpoint_id b) (q @ [\<lparr>pw_tag_id = i, pw_value = v\<rparr>]) s), Ok ()))"

text \<open>\<open>requeue_from\<close>: the rest of the batch goes back to the front of the queue.\<close>

definition requeue :: "string \<Rightarrow> pending_write list \<Rightarrow> ('t, 'h) dispatcher \<Rightarrow> ('t, 'h) dispatcher" where
  "requeue eid rest s =
     (let q = rest @ queue_of s eid
      in metric (GaugeSet ''modbus_write_queue_depth'' (int (length q))) (set_queue eid q s))"

text \<open>
  Merging of adjacent coil writes: \<open>Merged bits ms rest\<close> are the bits collected, the writes merged
  and the writes left; \<open>MergeError p rest e\<close> is the write whose value cannot be encoded.
\<close>

datatype merge_result = Merged "u8 list" "pending_write list" "pending_write list"
  | MergeError pending_write "pending_write list" error
  | MergeUndef

definition regs_to_bits :: "u16 list \<Rightarrow> u8 list" where
  "regs_to_bits rs = map (\<lambda>r. if r \<noteq> 0 then 1 else 0) rs"

fun merge_coils ::
  "runtime_index \<Rightarrow> u8 \<Rightarrow> int \<Rightarrow> u8 list \<Rightarrow> pending_write list \<Rightarrow> pending_write list \<Rightarrow> merge_result" where
  "merge_coils ix u next_addr bits ms [] = Merged bits ms []"
| "merge_coils ix u next_addr bits ms (p # ps) =
     (case find_by_id ix (pw_tag_id p) of
        Ok None \<Rightarrow> Merged bits ms (p # ps)
      | Ok (Some nb) \<Rightarrow>
          if tag_area (tb_tag nb) \<noteq> Coil \<or> tb_unit_id nb \<noteq> u \<or> tag_address (tb_tag nb) \<noteq> next_addr
          then Merged bits ms (p # ps)
          else (case encode (tb_tag nb) (pw_value p) of
                  Err e \<Rightarrow> MergeError p ps e
                | Undef \<Rightarrow> MergeUndef
                | Ok rs \<Rightarrow> merge_coils ix u (next_addr + int (length rs)) (bits @ regs_to_bits rs)
                             (ms @ [p]) ps)
      | _ \<Rightarrow> MergeUndef)"

lemma merge_coils_split:
  "merge_coils ix u n bits ms ps = Merged bits' ms' rest \<Longrightarrow> \<exists>c. ps = c @ rest \<and> ms' = ms @ c"
  by (induction ps arbitrary: n bits ms)
    (fastforce split: result.splits option.splits if_splits)+

definition confirm_writes ::
  "timestamp_ms \<Rightarrow> pending_write list \<Rightarrow> ('t, 'h) dispatcher \<Rightarrow> ('t, 'h) dispatcher" where
  "confirm_writes now ws s =
     fold (\<lambda>w. publish_quality (pw_tag_id w) Good QR_None now (Some (pw_value w))) ws s"

definition write_coils ::
  "'t transport_ops \<Rightarrow> u8 \<Rightarrow> u16 \<Rightarrow> u8 list \<Rightarrow> 't \<Rightarrow> 't \<times> unit result" where
  "write_coils ops u addr bits t =
     (if length bits = 1 then tp_write_single_coil ops t u addr (bits ! 0 \<noteq> 0)
      else tp_write_multiple_coils ops t u addr bits)"

definition write_registers ::
  "'t transport_ops \<Rightarrow> u8 \<Rightarrow> u16 \<Rightarrow> u16 list \<Rightarrow> 't \<Rightarrow> 't \<times> unit result" where
  "write_registers ops u addr rs t =
     (if length rs = 1 then tp_write_single_register ops t u addr (rs ! 0)
      else tp_write_multiple_registers ops t u addr rs)"

text \<open>A rejected value or write: the tag turns Bad, the writes after it are kept for the next flush.\<close>

definition fail_write ::
  "string \<Rightarrow> timestamp_ms \<Rightarrow> nat option \<Rightarrow> pending_write \<Rightarrow> quality_reason \<Rightarrow> pending_write list \<Rightarrow> error \<Rightarrow>
     ('t, 'h) dispatcher \<Rightarrow> ('t, 'h) dispatcher \<times> unit result" where
  "fail_write eid now sp p reason rest e s =
     (let s = publish_quality (pw_tag_id p) Bad reason now None s;
          s = requeue eid rest s
      in (span_log sp (SpanError (err_message e)) s, Err e))"

text \<open>The transport call for the head of the batch, with the writes it consumes and the ones left.\<close>

datatype ('t, 'h) write_step =
    Skip
  | Sent "('t, 'h) dispatcher" "unit result" "pending_write list" "pending_write list"
  | EncodeFailed pending_write "pending_write list" error
  | StepUndef

definition write_head ::
  "'t transport_ops \<Rightarrow> nat \<Rightarrow> pending_write \<Rightarrow> pending_write list \<Rightarrow>
     ('t, 'h) dispatcher \<Rightarrow> ('t, 'h) write_step" where
  "write_head ops a p ps s =
     (case find_by_id (d_index s) (pw_tag_id p) of
        Ok None \<Rightarrow> Skip
      | Ok (Some b) \<Rightarrow>
          (case encode (tb_tag b) (pw_value p) of
             Undef \<Rightarrow> StepUndef
           | Err e \<Rightarrow> EncodeFailed p ps e
           | Ok rs \<Rightarrow>
               let addr = word_of_int (tag_address (tb_tag b)) :: u16; u = tb_unit_id b in
               if tag_area (tb_tag b) = Coil
               then (case merge_coils (d_index s) u (int (unat addr) + int (length rs))
                            (regs_to_bits rs) [p] ps of
                       MergeUndef \<Rightarrow> StepUndef
                     | MergeError q rest e \<Rightarrow> EncodeFailed q rest e
                     | Merged bits ms rest \<Rightarrow>
                         (case on_transport (write_coils ops u addr bits) a s of
                            (s', wr) \<Rightarrow> Sent s' wr ms rest))
               else (case on_transport (write_registers ops u addr rs) a s of
                       (s', wr) \<Rightarrow> Sent s' wr [p] ps))
      | _ \<Rightarrow> StepUndef)"

lemma write_head_split:
  assumes "write_head ops a p ps s = Sent s' wr ms rest"
  shows "\<exists>c. ms = p # c \<and> ps = c @ rest"
  using assms
  by (auto simp: write_head_def Let_def split: result.splits option.splits if_splits prod.splits
      merge_result.splits dest!: merge_coils_split)

lemma write_head_length:
  "write_head ops a p ps s = Sent s' wr ms rest \<Longrightarrow> length rest < Suc (length ps)"
  by (drule write_head_split) auto

function flush_loop ::
  "'t transport_ops \<Rightarrow> string \<Rightarrow> nat \<Rightarrow> timestamp_ms \<Rightarrow> nat option \<Rightarrow> pending_write list \<Rightarrow>
     ('t, 'h) dispatcher \<Rightarrow> ('t, 'h) dispatcher \<times> unit result" where
  "flush_loop ops eid a now sp [] s = (s, Ok ())"
| "flush_loop ops eid a now sp (p # ps) s =
     (case write_head ops a p ps s of
        Skip \<Rightarrow> flush_loop ops eid a now sp ps s
      | StepUndef \<Rightarrow> (s, Undef)
      | EncodeFailed q rest e \<Rightarrow> fail_write eid now sp q QR_DecodingError rest e s
      | Sent s' wr ms rest \<Rightarrow>
          (case wr of
             Undef \<Rightarrow> (s', Undef)
           | Err e \<Rightarrow> fail_write eid now sp p QR_WriteRejected ps e s'
           | Ok _ \<Rightarrow> flush_loop ops eid a now sp rest (confirm_writes now ms s')))"
  by pat_completeness auto
termination
  by (relation "measure (\<lambda>(ops, eid, a, now, sp, ps, s). length ps)") (auto dest: write_head_length)

definition flush_writes ::
  "'t transport_ops \<Rightarrow> string \<Rightarrow> ('t, 'h) dispatcher \<Rightarrow> ('t, 'h) dispatcher \<times> unit result" where
  "flush_writes ops eid s =
     (if queue_of s eid = [] then (s, Ok ())
      else
        let batch = queue_of s eid;
            s = metric (GaugeSet ''modbus_write_queue_depth'' 0) (set_queue eid [] s)
        in case start_span ''modbus.write'' s of (s, sp) \<Rightarrow>
          let s = span_log sp (SpanCount ''write_count'' (int (length batch)))
                    (span_log sp (SpanAttribute ''endpoint_id'' eid) s)
          in case map_of (d_transports s) eid of
               Some (Some a) \<Rightarrow>
                 (case (if d_has_clock s then now_ms s else (s, 0)) of
                    (s, now) \<Rightarrow> flush_loop ops eid a now sp batch s)
             | _ \<Rightarrow> (span_log sp (SpanError ''transport not bound'') (requeue eid batch s),
                     Err (dispatcher_error EC_NotFound ''transport not bound'' False)))"

section \<open>Endpoint failures and due polls\<close>

definition mark_endpoint_bad ::
  "string \<Rightarrow> quality_reason \<Rightarrow> timestamp_ms \<Rightarrow> ('t, 'h) dispatcher \<Rightarrow> ('t, 'h) dispatcher" where
  "mark_endpoint_bad eid reason now s =
     fold (\<lambda>b s. if tb_endpoint_id b \<noteq> eid then s
                else publish_quality (tb_id b) Bad reason now None s) (ri_tags (d_index s)) s"

definition poll_key :: "string \<Rightarrow> poll_group \<Rightarrow> string" where
  "poll_key eid g = eid @ ''|'' @ grp_id g"

definition group_due :: "string \<Rightarrow> timestamp_ms \<Rightarrow> poll_group \<Rightarrow> ('t, 'h) dispatcher \<Rightarrow> bool" where
  "group_due eid now g s =
     (let last = (case map_of (d_last_poll_ms s) (poll_key eid g) of Some t \<Rightarrow> t | None \<Rightarrow> 0)
      in \<not> (last \<noteq> 0 \<and> now - last < grp_period_ms g))"

definition set_last_poll :: "string \<Rightarrow> timestamp_ms \<Rightarrow> poll_group \<Rightarrow> ('t, 'h) dispatcher \<Rightarrow> ('t, 'h) dispatcher" where
  "set_last_poll eid now g s =
     s\<lparr>d_last_poll_ms := AList.update (poll_key eid g) now (d_last_poll_ms s)\<rparr>"

fun poll_groups ::
  "'t transport_ops \<Rightarrow> string \<Rightarrow> nat \<Rightarrow> timestamp_ms \<Rightarrow> poll_group list \<Rightarrow> unit result \<Rightarrow>
     ('t, 'h) dispatcher \<Rightarrow> ('t, 'h) dispatcher \<times> unit result" where
  "poll_groups ops eid a now [] fe s = (s, fe)"
| "poll_groups ops eid a now (g # gs) fe s =
     (if \<not> group_due eid now g s then poll_groups ops eid a now gs fe s
      else case poll_group ops g a now s of
             (s, Undef) \<Rightarrow> (s, Undef)
           | (s, Ok _) \<Rightarrow> poll_groups ops eid a now gs fe (set_last_poll eid now g s)
           | (s, Err e) \<Rightarrow> poll_groups ops eid a now gs (first_error fe (Err e))
                           (metric (CounterAdd ''modbus_poll_overruns'') (set_last_poll eid now g s)))"

text \<open>Connecting on demand; a failure marks every tag of the endpoint.\<close>

definition ensure_connected ::
  "'t transport_ops \<Rightarrow> string \<Rightarrow> nat \<Rightarrow> timestamp_ms \<Rightarrow> ('t, 'h) dispatcher \<Rightarrow>
     ('t, 'h) dispatcher \<times> unit result" where
  "ensure_connected ops eid a now s =
     (if tp_is_connected ops (d_heap s a) then (s, Ok ())
      else case ri_endpoint (d_index s) eid of
             None \<Rightarrow> (s, Err (dispatcher_error EC_NotFound ''endpoint missing'' False))
           | Some ep \<Rightarrow>
               (case on_transport (\<lambda>t. tp_connect ops t (ep_host ep) (ep_port ep)) a s of
                  (s, Ok _) \<Rightarrow> (s, Ok ())
                | (s, Undef) \<Rightarrow> (s, Undef)
                | (s, Err e) \<Rightarrow> (mark_endpoint_bad eid QR_NoCommunication now s, Err e)))"

fun log_failure :: "nat option \<Rightarrow> ('t, 'h) dispatcher \<times> unit result \<Rightarrow> ('t, 'h) dispatcher \<times> unit result" where
  "log_failure sp (s, Err e) = (span_log sp (SpanError (err_message e)) s, Err e)"
| "log_failure sp (s, r) = (s, r)"

definition poll_due ::
  "'t transport_ops \<Rightarrow> string \<Rightarrow> timestamp_ms \<Rightarrow> ('t, 'h) dispatcher \<Rightarrow>
     ('t, 'h) dispatcher \<times> unit result" where
  "poll_due ops eid now s =
     (case start_span ''modbus.poll'' s of (s, sp) \<Rightarrow>
      let s = span_log sp (SpanAttribute ''endpoint_id'' eid) s in
      log_failure sp
        (case map_of (d_transports s) eid of
           Some (Some a) \<Rightarrow>
             (case ensure_connected ops eid a now s of
                (s, Ok _) \<Rightarrow>
                  (case flush_writes ops eid s of
                     (s, Ok _) \<Rightarrow>
                       poll_groups ops eid a now (groups_for_endpoint (d_index s) eid) (Ok ()) s
                   | (s, r) \<Rightarrow> (s, r))
              | (s, r) \<Rightarrow> (s, r))
         | _ \<Rightarrow> (s, Err (dispatcher_error EC_NotFound ''transport not bound'' False))))"

section \<open>The asynchronous path\<close>

text \<open>First all due groups are collected and stamped, then the tags are polled one after another.\<close>

fun collect_due ::
  "string \<Rightarrow> timestamp_ms \<Rightarrow> poll_group list \<Rightarrow> ('t, 'h) dispatcher \<Rightarrow>
     ('t, 'h) dispatcher \<times> tag_binding list result" where
  "collect_due eid now [] s = (s, Ok [])"
| "collect_due eid now (g # gs) s =
     (if \<not> group_due eid now g s then collect_due eid now gs s
      else case collect_group_tags (d_index s) g of
             Ok bs \<Rightarrow> (case collect_due eid now gs (set_last_poll eid now g s) of
                         (s, r) \<Rightarrow> (s, and_then r (\<lambda>rest. Ok (bs @ rest))))
           | Err e \<Rightarrow> (s, Err e)
           | Undef \<Rightarrow> (s, Undef))"

fun poll_chain ::
  "'t transport_ops \<Rightarrow> nat \<Rightarrow> timestamp_ms \<Rightarrow> tag_binding list \<Rightarrow> unit result \<Rightarrow>
     ('t, 'h) dispatcher \<Rightarrow> ('t, 'h) dispatcher \<times> unit result" where
  "poll_chain ops a now [] fe s = (s, fe)"
| "poll_chain ops a now (b # bs) fe s =
     (case poll_tag_async ops b a now s of
        (s, Undef) \<Rightarrow> (s, Undef)
      | (s, r) \<Rightarrow> poll_chain ops a now bs (first_error fe r) s)"

definition run_polls ::
  "'t transport_ops \<Rightarrow> string \<Rightarrow> nat \<Rightarrow> timestamp_ms \<Rightarrow> ('t, 'h) dispatcher \<Rightarrow>
     ('t, 'h) dispatcher \<times> unit result" where
  "run_polls ops eid a now s =
     (case flush_writes ops eid s of
        (s, Ok _) \<Rightarrow>
          (case collect_due eid now (groups_for_endpoint (d_index s) eid) s of
             (s, Ok bs) \<Rightarrow> poll_chain ops a now bs (Ok ()) s
           | (s, Err e) \<Rightarrow> (s, Err e)
           | (s, Undef) \<Rightarrow> (s, Undef))
      | (s, r) \<Rightarrow> (s, r))"

definition poll_due_async ::
  "'t transport_ops \<Rightarrow> string \<Rightarrow> timestamp_ms \<Rightarrow> ('t, 'h) dispatcher \<Rightarrow>
     ('t, 'h) dispatcher \<times> unit result" where
  "poll_due_async ops eid now s =
     (case start_span ''modbus.poll'' s of (s, sp) \<Rightarrow>
      let s = span_log sp (SpanAttribute ''async'' ''true'')
                (span_log sp (SpanAttribute ''endpoint_id'' eid) s) in
      log_failure sp
        (case map_of (d_transports s) eid of
           Some (Some a) \<Rightarrow>
             (case ensure_connected ops eid a now s of
                (s, Ok _) \<Rightarrow> run_polls ops eid a now s
              | (s, r) \<Rightarrow> (s, r))
         | _ \<Rightarrow> (s, Err (dispatcher_error EC_NotFound ''transport not bound'' False))))"

section \<open>Frames\<close>

text \<open>Which members each operation leaves alone.\<close>

lemma metric_frame [simp]:
  "d_index (metric m s) = d_index s"
  "d_has_store (metric m s) = d_has_store s"
  "d_has_clock (metric m s) = d_has_clock s"
  "d_has_metrics (metric m s) = d_has_metrics s"
  "d_has_tracer (metric m s) = d_has_tracer s"
  "d_transports (metric m s) = d_transports s"
  "d_last_poll_ms (metric m s) = d_last_poll_ms s"
  "d_write_queues (metric m s) = d_write_queues s"
  "d_store (metric m s) = d_store s"
  "d_calls (metric m s) = d_calls s"
  "d_heap (metric m s) = d_heap s"
  "d_clock (metric m s) = d_clock s"
  "d_clock_reads (metric m s) = d_clock_reads s"
  "d_spans (metric m s) = d_spans s"
  by (simp_all add: metric_def)

lemma span_log_frame [simp]:
  "d_index (span_log sp ev s) = d_index s"
  "d_has_store (span_log sp ev s) = d_has_store s"
  "d_has_clock (span_log sp ev s) = d_has_clock s"
  "d_has_metrics (span_log sp ev s) = d_has_metrics s"
  "d_has_tracer (span_log sp ev s) = d_has_tracer s"
  "d_transports (span_log sp ev s) = d_transports s"
  "d_last_poll_ms (span_log sp ev s) = d_last_poll_ms s"
  "d_write_queues (span_log sp ev s) = d_write_queues s"
  "d_store (span_log sp ev s) = d_store s"
  "d_calls (span_log sp ev s) = d_calls s"
  "d_heap (span_log sp ev s) = d_heap s"
  "d_clock (span_log sp ev s) = d_clock s"
  "d_clock_reads (span_log sp ev s) = d_clock_reads s"
  "d_metrics (span_log sp ev s) = d_metrics s"
  by (cases sp; simp)+

lemma start_span_frame [simp]:
  "d_index (fst (start_span n s)) = d_index s"
  "d_has_store (fst (start_span n s)) = d_has_store s"
  "d_has_clock (fst (start_span n s)) = d_has_clock s"
  "d_has_metrics (fst (start_span n s)) = d_has_metrics s"
  "d_has_tracer (fst (start_span n s)) = d_has_tracer s"
  "d_transports (fst (start_span n s)) = d_transports s"
  "d_last_poll_ms (fst (start_span n s)) = d_last_poll_ms s"
  "d_write_queues (fst (start_span n s)) = d_write_queues s"
  "d_store (fst (start_span n s)) = d_store s"
  "d_calls (fst (start_span n s)) = d_calls s"
  "d_heap (fst (start_span n s)) = d_heap s"
  "d_clock (fst (start_span n s)) = d_clock s"
  "d_clock_reads (fst (start_span n s)) = d_clock_reads s"
  "d_metrics (fst (start_span n s)) = d_metrics s"
  by (simp_all add: start_span_def)

lemma now_ms_frame [simp]:
  "d_index (fst (now_ms s)) = d_index s"
  "d_has_store (fst (now_ms s)) = d_has_store s"
  "d_has_clock (fst (now_ms s)) = d_has_clock s"
  "d_has_metrics (fst (now_ms s)) = d_has_metrics s"
  "d_has_tracer (fst (now_ms s)) = d_has_tracer s"
  "d_transports (fst (now_ms s)) = d_transports s"
  "d_last_poll_ms (fst (now_ms s)) = d_last_poll_ms s"
  "d_write_queues (fst (now_ms s)) = d_write_queues s"
  "d_store (fst (now_ms s)) = d_store s"
  "d_calls (fst (now_ms s)) = d_calls s"
  "d_heap (fst (now_ms s)) = d_heap s"
  "d_clock (fst (now_ms s)) = d_clock s"
  "d_metrics (fst (now_ms s)) = d_metrics s"
  "d_spans (fst (now_ms s)) = d_spans s"
  by (simp_all add: now_ms_def)

lemma store_publish_frame [simp]:
  "d_index (store_publish i v s) = d_index s"
  "d_has_store (store_publish i v s) = d_has_store s"
  "d_has_clock (store_publish i v s) = d_has_clock s"
  "d_has_metrics (store_publish i v s) = d_has_metrics s"
  "d_has_tracer (store_publish i v s) = d_has_tracer s"
  "d_transports (store_publish i v s) = d_transports s"
  "d_last_poll_ms (store_publish i v s) = d_last_poll_ms s"
  "d_write_queues (store_publish i v s) = d_write_queues s"
  "d_heap (store_publish i v s) = d_heap s"
  "d_clock (store_publish i v s) = d_clock s"
  "d_clock_reads (store_publish i v s) = d_clock_reads s"
  "d_metrics (store_publish i v s) = d_metrics s"
  "d_spans (store_publish i v s) = d_spans s"
  by (simp_all add: store_publish_def split: prod.split)

lemma publish_quality_frame [simp]:
  "d_index (publish_quality i q r now v s) = d_index s"
  "d_has_store (publish_quality i q r now v s) = d_has_store s"
  "d_has_clock (publish_quality i q r now v s) = d_has_clock s"
  "d_has_metrics (publish_quality i q r now v s) = d_has_metrics s"
  "d_has_tracer (publish_quality i q r now v s) = d_has_tracer s"
  "d_transports (publish_quality i q r now v s) = d_transports s"
  "d_last_poll_ms (publish_quality i q r now v s) = d_last_poll_ms s"
  "d_write_queues (publish_quality i q r now v s) = d_write_queues s"
  "d_heap (publish_quality i q r now v s) = d_heap s"
  "d_clock (publish_quality i q r now v s) = d_clock s"
  "d_clock_reads (publish_quality i q r now v s) = d_clock_reads s"
  "d_metrics (publish_quality i q r now v s) = d_metrics s"
  "d_spans (publish_quality i q r now v s) = d_spans s"
  by (simp_all add: publish_quality_def Let_def)

lemma set_queue_frame [simp]:
  "d_index (set_queue eid q s) = d_index s"
  "d_has_store (set_queue eid q s) = d_has_store s"
  "d_has_clock (set_queue eid q s) = d_has_clock s"
  "d_has_metrics (set_queue eid q s) = d_has_metrics s"
  "d_has_tracer (set_queue eid q s) = d_has_tracer s"
  "d_transports (set_queue eid q s) = d_transports s"
  "d_last_poll_ms (set_queue eid q s) = d_last_poll_ms s"
  "d_store (set_queue eid q s) = d_store s"
  "d_calls (set_queue eid q s) = d_calls s"
  "d_heap (set_queue eid q s) = d_heap s"
  "d_clock (set_queue eid q s) = d_clock s"
  "d_clock_reads (set_queue eid q s) = d_clock_reads s"
  "d_metrics (set_queue eid q s) = d_metrics s"
  "d_spans (set_queue eid q s) = d_spans s"
  by (simp_all add: set_queue_def)

lemma requeue_frame [simp]:
  "d_index (requeue eid q s) = d_index s"
  "d_has_store (requeue eid q s) = d_has_store s"
  "d_has_clock (requeue eid q s) = d_has_clock s"
  "d_has_metrics (requeue eid q s) = d_has_metrics s"
  "d_has_tracer (requeue eid q s) = d_has_tracer s"
  "d_transports (requeue eid q s) = d_transports s"
  "d_last_poll_ms (requeue eid q s) = d_last_poll_ms s"
  "d_store (requeue eid q s) = d_store s"
  "d_calls (requeue eid q s) = d_calls s"
  "d_heap (requeue eid q s) = d_heap s"
  "d_clock (requeue eid q s) = d_clock s"
  "d_clock_reads (requeue eid q s) = d_clock_reads s"
  "d_spans (requeue eid q s) = d_spans s"
  by (simp_all add: requeue_def Let_def)

lemma set_last_poll_frame [simp]:
  "d_index (set_last_poll eid now g s) = d_index s"
  "d_has_store (set_last_poll eid now g s) = d_has_store s"
  "d_has_clock (set_last_poll eid now g s) = d_has_clock s"
  "d_has_metrics (set_last_poll eid now g s) = d_has_metrics s"
  "d_has_tracer (set_last_poll eid now g s) = d_has_tracer s"
  "d_transports (set_last_poll eid now g s) = d_transports s"
  "d_write_queues (set_last_poll eid now g s) = d_write_queues s"
  "d_store (set_last_poll eid now g s) = d_store s"
  "d_calls (set_last_poll eid now g s) = d_calls s"
  "d_heap (set_last_poll eid now g s) = d_heap s"
  "d_clock (set_last_poll eid now g s) = d_clock s"
  "d_clock_reads (set_last_poll eid now g s) = d_clock_reads s"
  "d_metrics (set_last_poll eid now g s) = d_metrics s"
  "d_spans (set_last_poll eid now g s) = d_spans s"
  by (simp_all add: set_last_poll_def)

lemma on_transport_frame [simp]:
  "d_index (fst (on_transport f a s)) = d_index s"
  "d_has_store (fst (on_transport f a s)) = d_has_store s"
  "d_has_clock (fst (on_transport f a s)) = d_has_clock s"
  "d_has_metrics (fst (on_transport f a s)) = d_has_metrics s"
  "d_has_tracer (fst (on_transport f a s)) = d_has_tracer s"
  "d_transports (fst (on_transport f a s)) = d_transports s"
  "d_last_poll_ms (fst (on_transport f a s)) = d_last_poll_ms s"
  "d_write_queues (fst (on_transport f a s)) = d_write_queues s"
  "d_store (fst (on_transport f a s)) = d_store s"
  "d_calls (fst (on_transport f a s)) = d_calls s"
  "d_clock (fst (on_transport f a s)) = d_clock s"
  "d_clock_reads (fst (on_transport f a s)) = d_clock_reads s"
  "d_metrics (fst (on_transport f a s)) = d_metrics s"
  "d_spans (fst (on_transport f a s)) = d_spans s"
  by (simp_all add: on_transport_def split: prod.split)

lemma observe_rtt_frame [simp]:
  "d_index (observe_rtt t s) = d_index s"
  "d_has_store (observe_rtt t s) = d_has_store s"
  "d_has_clock (observe_rtt t s) = d_has_clock s"
  "d_has_metrics (observe_rtt t s) = d_has_metrics s"
  "d_has_tracer (observe_rtt t s) = d_has_tracer s"
  "d_transports (observe_rtt t s) = d_transports s"
  "d_last_poll_ms (observe_rtt t s) = d_last_poll_ms s"
  "d_write_queues (observe_rtt t s) = d_write_queues s"
  "d_store (observe_rtt t s) = d_store s"
  "d_calls (observe_rtt t s) = d_calls s"
  "d_heap (observe_rtt t s) = d_heap s"
  "d_clock (observe_rtt t s) = d_clock s"
  "d_spans (observe_rtt t s) = d_spans s"
  by (simp_all add: observe_rtt_def now_ms_def)

lemma finish_regs_frame [simp]:
  "d_index (fst (finish_regs b now t0 r s)) = d_index s"
  "d_has_store (fst (finish_regs b now t0 r s)) = d_has_store s"
  "d_has_clock (fst (finish_regs b now t0 r s)) = d_has_clock s"
  "d_has_metrics (fst (finish_regs b now t0 r s)) = d_has_metrics s"
  "d_has_tracer (fst (finish_regs b now t0 r s)) = d_has_tracer s"
  "d_transports (fst (finish_regs b now t0 r s)) = d_transports s"
  "d_last_poll_ms (fst (finish_regs b now t0 r s)) = d_last_poll_ms s"
  "d_write_queues (fst (finish_regs b now t0 r s)) = d_write_queues s"
  "d_heap (fst (finish_regs b now t0 r s)) = d_heap s"
  "d_clock (fst (finish_regs b now t0 r s)) = d_clock s"
  "d_spans (fst (finish_regs b now t0 r s)) = d_spans s"
  by (simp_all add: finish_regs_def Let_def split: result.split)

lemma finish_bits_frame [simp]:
  "d_index (fst (finish_bits b now t0 r s)) = d_index s"
  "d_has_store (fst (finish_bits b now t0 r s)) = d_has_store s"
  "d_has_clock (fst (finish_bits b now t0 r s)) = d_has_clock s"
  "d_has_metrics (fst (finish_bits b now t0 r s)) = d_has_metrics s"
  "d_has_tracer (fst (finish_bits b now t0 r s)) = d_has_tracer s"
  "d_transports (fst (finish_bits b now t0 r s)) = d_transports s"
  "d_last_poll_ms (fst (finish_bits b now t0 r s)) = d_last_poll_ms s"
  "d_write_queues (fst (finish_bits b now t0 r s)) = d_write_queues s"
  "d_heap (fst (finish_bits b now t0 r s)) = d_heap s"
  "d_clock (fst (finish_bits b now t0 r s)) = d_clock s"
  "d_spans (fst (finish_bits b now t0 r s)) = d_spans s"
  by (simp_all add: finish_bits_def Let_def split: result.split)

lemma fst_case_prod: "fst (case p of (x, y) \<Rightarrow> f x y) = fst (f (fst p) (snd p))"
  by (simp add: case_prod_unfold)

lemma snd_case_prod: "snd (case p of (x, y) \<Rightarrow> f x y) = snd (f (fst p) (snd p))"
  by (simp add: case_prod_unfold)

lemma poll_tag_frame [simp]:
  "d_index (fst (poll_tag ops b a now s)) = d_index s"
  "d_has_store (fst (poll_tag ops b a now s)) = d_has_store s"
  "d_has_clock (fst (poll_tag ops b a now s)) = d_has_clock s"
  "d_has_metrics (fst (poll_tag ops b a now s)) = d_has_metrics s"
  "d_has_tracer (fst (poll_tag ops b a now s)) = d_has_tracer s"
  "d_transports (fst (poll_tag ops b a now s)) = d_transports s"
  "d_last_poll_ms (fst (poll_tag ops b a now s)) = d_last_poll_ms s"
  "d_write_queues (fst (poll_tag ops b a now s)) = d_write_queues s"
  "d_clock (fst (poll_tag ops b a now s)) = d_clock s"
  "d_spans (fst (poll_tag ops b a now s)) = d_spans s"
  by (simp_all add: poll_tag_def Let_def fst_case_prod split: area.split)

lemma poll_tag_async_frame [simp]:
  "d_index (fst (poll_tag_async ops b a now s)) = d_index s"
  "d_has_store (fst (poll_tag_async ops b a now s)) = d_has_store s"
  "d_has_clock (fst (poll_tag_async ops b a now s)) = d_has_clock s"
  "d_has_metrics (fst (poll_tag_async ops b a now s)) = d_has_metrics s"
  "d_has_tracer (fst (poll_tag_async ops b a now s)) = d_has_tracer s"
  "d_transports (fst (poll_tag_async ops b a now s)) = d_transports s"
  "d_last_poll_ms (fst (poll_tag_async ops b a now s)) = d_last_poll_ms s"
  "d_write_queues (fst (poll_tag_async ops b a now s)) = d_write_queues s"
  "d_clock (fst (poll_tag_async ops b a now s)) = d_clock s"
  "d_spans (fst (poll_tag_async ops b a now s)) = d_spans s"
  by (simp_all add: poll_tag_async_def Let_def fst_case_prod split: area.split)

end
