(* ===== verification/Fake_Transport.thy ===== *)
theory Fake_Transport
  imports Transport_Port
begin

text \<open>
  The in-memory Modbus slave of \<open>Src/adapters/testsupport/fake_modbus_transport.hpp\<close>, with its fault
  injection. The configured read delay only takes time and is left out.
\<close>

section \<open>State\<close>

record fake_transport =
  fk_connected :: bool
  fk_fail_connect :: bool
  fk_next_error :: "error option"
  fk_connect_result :: "unit result option"
  fk_connect_attempts :: nat
  fk_fc05_writes :: nat
  fk_fc15_writes :: nat
  fk_holding :: "(u32, u16) umap"
  fk_input :: "(u32, u16) umap"
  fk_coils :: "(u32, bool) umap"
  fk_discrete :: "(u32, bool) umap"

definition fake_new :: fake_transport where
  "fake_new = \<lparr>fk_connected = False, fk_fail_connect = False, fk_next_error = None,
     fk_connect_result = None, fk_connect_attempts = 0, fk_fc05_writes = 0, fk_fc15_writes = 0,
     fk_holding = [], fk_input = [], fk_coils = [], fk_discrete = []\<rparr>"

section \<open>Operations\<close>

definition fake_key :: "u8 \<Rightarrow> u16 \<Rightarrow> u32" where
  "fake_key u address = push_bit 16 (ucast u) OR ucast address"

definition fake_not_connected :: error where
  "fake_not_connected = mk_error EC_Connection ''not connected'' ''fake.modbus'' True"

definition fake_connect :: "fake_transport \<Rightarrow> string \<Rightarrow> u16 \<Rightarrow> fake_transport \<times> unit result" where
  "fake_connect t host port =
     (let t = t\<lparr>fk_connect_attempts := fk_connect_attempts t + 1\<rparr> in
      if fk_fail_connect t
      then (t\<lparr>fk_fail_connect := False\<rparr>,
            Err (mk_error EC_Connection ''injected connect failure'' ''fake.modbus'' True))
      else case fk_connect_result t of
             Some r \<Rightarrow> ((if is_ok r then t\<lparr>fk_connected := True\<rparr> else t), r)
           | None \<Rightarrow> (t\<lparr>fk_connected := True\<rparr>, Ok ()))"

definition consume_failure :: "fake_transport \<Rightarrow> fake_transport \<times> error option" where
  "consume_failure t =
     (case fk_next_error t of
        None \<Rightarrow> (t, if fk_connected t then None else Some fake_not_connected)
      | Some e \<Rightarrow> (t\<lparr>fk_next_error := None\<rparr>, Some e))"

text \<open>\<open>read_words\<close> and \<open>read_bits\<close>: absent keys read as zero or false.\<close>

definition fake_read ::
  "(u32, 'a) umap \<Rightarrow> 'a \<Rightarrow> fake_transport \<Rightarrow> u8 \<Rightarrow> u16 \<Rightarrow> u16 \<Rightarrow> 'a list result" where
  "fake_read m def t u address quantity =
     (if \<not> fk_connected t then Err fake_not_connected
      else Ok (map (\<lambda>i. case map_of m (fake_key u (address + of_nat i)) of Some v \<Rightarrow> v | None \<Rightarrow> def)
                 [0..<unat quantity]))"

definition fake_guarded_read ::
  "(fake_transport \<Rightarrow> (u32, 'a) umap) \<Rightarrow> 'a \<Rightarrow> fake_transport \<Rightarrow> u8 \<Rightarrow> u16 \<Rightarrow> u16 \<Rightarrow>
     fake_transport \<times> 'a list result" where
  "fake_guarded_read sel def t u address quantity =
     (case consume_failure t of
        (t, Some e) \<Rightarrow> (t, Err e)
      | (t, None) \<Rightarrow> (t, fake_read (sel t) def t u address quantity))"

text \<open>A write of consecutive addresses, wrapping at 16 bits.\<close>

fun fake_store :: "u8 \<Rightarrow> u16 \<Rightarrow> 'a list \<Rightarrow> (u32, 'a) umap \<Rightarrow> (u32, 'a) umap" where
  "fake_store u address [] m = m"
| "fake_store u address (v # vs) m =
     fake_store u (address + 1) vs (AList.update (fake_key u address) v m)"

definition fake_guarded_write ::
  "(fake_transport \<Rightarrow> fake_transport \<times> unit result) \<Rightarrow> fake_transport \<Rightarrow> fake_transport \<times> unit result" where
  "fake_guarded_write f t =
     (case consume_failure t of
        (t, Some e) \<Rightarrow> (t, Err e)
      | (t, None) \<Rightarrow> if \<not> fk_connected t then (t, Err fake_not_connected) else f t)"

definition fake_write_single_register ::
  "fake_transport \<Rightarrow> u8 \<Rightarrow> u16 \<Rightarrow> u16 \<Rightarrow> fake_transport \<times> unit result" where
  "fake_write_single_register t u address v =
     fake_guarded_write (\<lambda>t. (t\<lparr>fk_holding := AList.update (fake_key u address) v (fk_holding t)\<rparr>, Ok ())) t"

definition fake_write_multiple_registers ::
  "fake_transport \<Rightarrow> u8 \<Rightarrow> u16 \<Rightarrow> u16 list \<Rightarrow> fake_transport \<times> unit result" where
  "fake_write_multiple_registers t u address vs =
     fake_guarded_write (\<lambda>t. (t\<lparr>fk_holding := fake_store u address vs (fk_holding t)\<rparr>, Ok ())) t"

definition fake_write_single_coil ::
  "fake_transport \<Rightarrow> u8 \<Rightarrow> u16 \<Rightarrow> bool \<Rightarrow> fake_transport \<times> unit result" where
  "fake_write_single_coil t u address v =
     fake_guarded_write (\<lambda>t. (t\<lparr>fk_coils := AList.update (fake_key u address) v (fk_coils t),
        fk_fc05_writes := fk_fc05_writes t + 1\<rparr>, Ok ())) t"

definition fake_write_multiple_coils ::
  "fake_transport \<Rightarrow> u8 \<Rightarrow> u16 \<Rightarrow> u8 list \<Rightarrow> fake_transport \<times> unit result" where
  "fake_write_multiple_coils t u address vs =
     fake_guarded_write (\<lambda>t.
       if vs = [] then (t, Err (mk_error EC_InvalidArgument ''empty coil write'' ''fake.modbus'' False))
       else (t\<lparr>fk_coils := fake_store u address (map (\<lambda>v. v \<noteq> 0) vs) (fk_coils t),
               fk_fc15_writes := fk_fc15_writes t + 1\<rparr>, Ok ())) t"

definition fake_ops :: "fake_transport transport_ops" where
  "fake_ops = \<lparr>tp_connect = fake_connect, tp_close = \<lambda>t. t\<lparr>fk_connected := False\<rparr>,
     tp_is_connected = fk_connected,
     tp_read_holding_registers = fake_guarded_read fk_holding 0,
     tp_read_input_registers = fake_guarded_read fk_input 0,
     tp_read_coils = fake_guarded_read fk_coils False,
     tp_read_discrete_inputs = fake_guarded_read fk_discrete False,
     tp_write_single_register = fake_write_single_register,
     tp_write_multiple_registers = fake_write_multiple_registers,
     tp_write_single_coil = fake_write_single_coil,
     tp_write_multiple_coils = fake_write_multiple_coils\<rparr>"

text \<open>Test controls.\<close>

definition fake_set_holding :: "u8 \<Rightarrow> u16 \<Rightarrow> u16 \<Rightarrow> fake_transport \<Rightarrow> fake_transport" where
  "fake_set_holding u a v t = t\<lparr>fk_holding := AList.update (fake_key u a) v (fk_holding t)\<rparr>"

definition fake_set_input :: "u8 \<Rightarrow> u16 \<Rightarrow> u16 \<Rightarrow> fake_transport \<Rightarrow> fake_transport" where
  "fake_set_input u a v t = t\<lparr>fk_input := AList.update (fake_key u a) v (fk_input t)\<rparr>"

definition fake_set_coil :: "u8 \<Rightarrow> u16 \<Rightarrow> bool \<Rightarrow> fake_transport \<Rightarrow> fake_transport" where
  "fake_set_coil u a v t = t\<lparr>fk_coils := AList.update (fake_key u a) v (fk_coils t)\<rparr>"

definition fake_set_discrete :: "u8 \<Rightarrow> u16 \<Rightarrow> bool \<Rightarrow> fake_transport \<Rightarrow> fake_transport" where
  "fake_set_discrete u a v t = t\<lparr>fk_discrete := AList.update (fake_key u a) v (fk_discrete t)\<rparr>"

definition fake_fail_next :: "error \<Rightarrow> fake_transport \<Rightarrow> fake_transport" where
  "fake_fail_next e t = t\<lparr>fk_next_error := Some e\<rparr>"

section \<open>The slave keeps the read contract and remembers writes\<close>

lemma sized_fake_read: "sized_read (fake_guarded_read sel def)"
  by (rule sized_readI)
    (auto simp: fake_guarded_read_def consume_failure_def fake_read_def split: option.splits if_splits)

interpretation fake: bit_port fake_ops
  by unfold_locales (simp_all add: fake_ops_def sized_fake_read)

lemma fake_key_inj: "fake_key u a = fake_key v b \<longleftrightarrow> u = v \<and> a = b"
proof
  assume k: "fake_key u a = fake_key v b"
  have bit_hi: "bit (fake_key w c) (n + 16) \<longleftrightarrow> bit w n" if "n < 8" for w c n
    using that by (auto simp: fake_key_def bit_simps dest: bit_imp_le_length)
  have bit_lo: "bit (fake_key w c) n \<longleftrightarrow> bit c n" if "n < 16" for w c n
    using that by (auto simp: fake_key_def bit_simps)
  have "u = v" by (rule bit_word_eqI) (use bit_hi [of _ u a] bit_hi [of _ v b] k in auto)
  moreover have "a = b" by (rule bit_word_eqI) (use bit_lo [of _ u a] bit_lo [of _ v b] k in auto)
  ultimately show "u = v \<and> a = b" ..
qed simp

lemma fake_store_other:
  assumes "\<forall>i<length vs. a + of_nat i \<noteq> b"
  shows "map_of (fake_store u a vs m) (fake_key u b) = map_of m (fake_key u b)"
  using assms
proof (induction vs arbitrary: a m)
  case (Cons v vs)
  have "\<forall>i<length vs. a + 1 + of_nat i \<noteq> b" using Cons.prems
    by (auto simp: add.assoc)
  moreover have "a \<noteq> b" using Cons.prems by fastforce
  ultimately show ?case using Cons.IH by (simp add: fake_key_inj)
qed simp

lemma fake_store_read:
  assumes "length vs \<le> 65536" "i < length vs"
  shows "map_of (fake_store u a vs m) (fake_key u (a + of_nat i)) = Some (vs ! i)"
  using assms
proof (induction vs arbitrary: a m i)
  case (Cons v vs)
  show ?case
  proof (cases i)
    case 0
    have "a + 1 + of_nat j \<noteq> a" if "j < length vs" for j
    proof
      assume "a + 1 + of_nat j = a"
      then have "(of_nat (Suc j) :: u16) = 0" by (simp add: add.assoc add.commute)
      moreover have "unat (of_nat (Suc j) :: u16) = Suc j"
        using that Cons.prems(1) by (simp add: unat_of_nat del: of_nat_Suc)
      ultimately show False by simp
    qed
    then show ?thesis using 0 by (simp add: fake_store_other)
  next
    case (Suc k)
    then show ?thesis using Cons.IH [of k "a + 1"] Cons.prems by (simp add: add.assoc)
  qed
qed simp

text \<open>
  Registers written to the simulated slave are read back unchanged, for every block up to the
  size of the address space, wherever it starts.
\<close>

theorem fake_write_read:
  assumes "fk_connected t" "fk_next_error t = None" "length vs < 65536"
  shows "snd (tp_read_holding_registers fake_ops
     (fst (tp_write_multiple_registers fake_ops t u a vs)) u a (of_nat (length vs))) = Ok vs"
proof -
  have "unat (of_nat (length vs) :: u16) = length vs" using assms(3) by (simp add: unat_of_nat)
  then show ?thesis
    using assms fake_store_read [of vs _ u a "fk_holding t"]
    by (auto simp: fake_ops_def fake_guarded_read_def fake_write_multiple_registers_def
        fake_guarded_write_def consume_failure_def fake_read_def intro!: nth_equalityI)
qed

theorem fake_write_read_witness:
  "snd (tp_read_holding_registers fake_ops
     (fst (tp_write_multiple_registers fake_ops (fst (fake_connect fake_new [] 502)) 1 65535 [5, 6])) 1 65535 2) = Ok [5, 6]"
  using fake_write_read [of "fst (fake_connect fake_new [] 502)" "[5, 6]" 1 65535]
  by (simp add: fake_connect_def fake_new_def)

end
