(* ===== verification/Dispatcher_Laws.thy ===== *)
theory Dispatcher_Laws
  imports Dispatcher Fake_Transport
begin

text \<open>
  The laws of the dispatcher: what a poll publishes, how the synchronous and the asynchronous poll
  relate, when groups are polled, what a flush of the write queue does with every queued write, and
  the bound of the queues over all sequences of operations.
\<close>

section \<open>The store after a publication\<close>

abbreviation tag_of :: "('t, 'h) dispatcher \<Rightarrow> tag_id \<Rightarrow> tag_value option" where
  "tag_of s i \<equiv> get (d_store s) i"

lemma tag_of_store_publish [store_simps]:
  "tag_of (store_publish i v s) j = (if i = j then Some v else tag_of s j)"
  using get_publish [of "d_store s" i v j] by (simp add: store_publish_def case_prod_unfold)

lemma tag_of_publish_quality [store_simps]:
  "tag_of (publish_quality i q r now v s) j =
     (if i = j \<and> d_has_store s
      then Some (case v of
          None \<Rightarrow> with_quality (tag_of s i) q r now
        | Some x \<Rightarrow> (with_quality (tag_of s i) q r now)\<lparr>tv_value := x, tv_source_ts := now\<rparr>)
      else tag_of s j)"
  by (auto simp: publish_quality_def Let_def store_simps split: option.split)

section \<open>Polling one tag\<close>

text \<open>What a poll reads, by area; bits come as 0/1 registers.\<close>

definition area_read :: "'t transport_ops \<Rightarrow> tag_binding \<Rightarrow> 't \<Rightarrow> 't \<times> u16 list result" where
  "area_read ops b t =
     (let qty = word_of_int (regs_for (tb_tag b)); addr = word_of_int (tag_address (tb_tag b));
          u = tb_unit_id b;
          bits = (\<lambda>(t, r). (t, and_then r (\<lambda>bs. Ok (bits_to_regs bs))))
      in case tag_area (tb_tag b) of
           Holding \<Rightarrow> tp_read_holding_registers ops t u addr qty
         | Input \<Rightarrow> tp_read_input_registers ops t u addr qty
         | Coil \<Rightarrow> bits (tp_read_coils ops t u addr qty)
         | Discrete \<Rightarrow> bits (tp_read_discrete_inputs ops t u addr qty))"

definition register_area :: "tag_binding \<Rightarrow> bool" where
  "register_area b \<longleftrightarrow> tag_area (tb_tag b) = Holding \<or> tag_area (tb_tag b) = Input"

text \<open>The reason a synchronous poll publishes for a failed read.\<close>

definition poll_failure_reason :: "tag_binding \<Rightarrow> error \<Rightarrow> quality_reason" where
  "poll_failure_reason b e =
     (if register_area b then read_failure_reason (err_code e) else QR_NoCommunication)"

text \<open>The value a poll leaves in the store, from the previous one and the outcome of the read.\<close>

definition polled_value ::
  "(error \<Rightarrow> quality_reason) \<Rightarrow> tag_binding \<Rightarrow> timestamp_ms \<Rightarrow> u16 list result \<Rightarrow>
     tag_value option \<Rightarrow> tag_value" where
  "polled_value reason b now r old =
     (case r of
        Ok rs \<Rightarrow> (case decode (tb_tag b) rs of
                   Ok v \<Rightarrow> good_value v now
                 | _ \<Rightarrow> with_quality old Bad QR_DecodingError now)
      | Err e \<Rightarrow> with_quality old Bad (reason e) now
      | Undef \<Rightarrow> with_quality old Bad QR_None now)"

definition poll_outcome :: "tag_binding \<Rightarrow> u16 list result \<Rightarrow> unit result" where
  "poll_outcome b r =
     (case r of
        Ok rs \<Rightarrow> and_then (decode (tb_tag b) rs) (\<lambda>_. Ok ())
      | Err e \<Rightarrow> Err (transport_error e)
      | Undef \<Rightarrow> Undef)"

lemma finish_regs_store:
  assumes "d_has_store s" "snd (finish_regs b now t0 r s) \<noteq> Undef"
  shows "tag_of (fst (finish_regs b now t0 r s)) j =
    (if j = tb_id b
     then Some (polled_value (\<lambda>e. read_failure_reason (err_code e)) b now r (tag_of s j))
     else tag_of s j)"
  using assms
  by (auto simp: finish_regs_def Let_def polled_value_def store_simps split: result.splits)

lemma finish_regs_result: "snd (finish_regs b now t0 r s) = poll_outcome b r"
  by (auto simp: finish_regs_def Let_def poll_outcome_def split: result.splits)

lemma finish_bits_result:
  "snd (finish_bits b now t0 r s) = poll_outcome b (and_then r (\<lambda>bs. Ok (bits_to_regs bs)))"
  by (auto simp: finish_bits_def Let_def finish_regs_result poll_outcome_def split: result.splits)

lemma on_transport_heap: "d_heap (fst (on_transport f a s)) = (d_heap s)(a := fst (f (d_heap s a)))"
  "snd (on_transport f a s) = snd (f (d_heap s a))"
  by (simp_all add: on_transport_def split: prod.split)

lemma poll_tag_result:
  assumes "d_has_store s" "d_has_clock s"
  shows "snd (poll_tag ops b a now s) = poll_outcome b (snd (area_read ops b (d_heap s a)))"
    and "d_heap (fst (poll_tag ops b a now s)) = (d_heap s)(a := fst (area_read ops b (d_heap s a)))"
  using assms
  by (auto simp: poll_tag_def area_read_def Let_def case_prod_unfold finish_regs_result finish_bits_result
      on_transport_heap split: area.split)

lemma finish_bits_store:
  assumes "d_has_store s" "snd (finish_bits b now t0 r s) \<noteq> Undef"
  shows "tag_of (fst (finish_bits b now t0 r s)) j =
    (if j = tb_id b
     then Some (polled_value (\<lambda>_. QR_NoCommunication) b now (and_then r (\<lambda>bs. Ok (bits_to_regs bs))) (tag_of s j))
     else tag_of s j)"
  using assms
  by (auto simp: finish_bits_def Let_def finish_regs_store polled_value_def store_simps split: result.splits)

lemma poll_tag_store:
  assumes "d_has_store s" "d_has_clock s" "snd (poll_tag ops b a now s) \<noteq> Undef"
  shows "snd (poll_tag ops b a now s) = poll_outcome b (snd (area_read ops b (d_heap s a))) \<and>
    tag_of (fst (poll_tag ops b a now s)) (tb_id b) =
      Some (polled_value (poll_failure_reason b) b now (snd (area_read ops b (d_heap s a))) (tag_of s (tb_id b))) \<and>
    (\<forall>j. j = tb_id b \<or> tag_of (fst (poll_tag ops b a now s)) j = tag_of s j)"
proof (intro conjI allI)
  show "snd (poll_tag ops b a now s) = poll_outcome b (snd (area_read ops b (d_heap s a)))"
    by (rule poll_tag_result(1) [OF assms(1,2)])
  have "tag_of (fst (poll_tag ops b a now s)) j =
      (if j = tb_id b
       then Some (polled_value (poll_failure_reason b) b now (snd (area_read ops b (d_heap s a))) (tag_of s j))
       else tag_of s j)" for j
    using assms
    by (cases "tag_area (tb_tag b)")
      (simp_all add: poll_tag_def area_read_def Let_def case_prod_unfold finish_regs_store
        finish_bits_store on_transport_heap poll_failure_reason_def [abs_def] register_area_def)
  then show "tag_of (fst (poll_tag ops b a now s)) (tb_id b) =
      Some (polled_value (poll_failure_reason b) b now (snd (area_read ops b (d_heap s a))) (tag_of s (tb_id b)))"
    "j = tb_id b \<or> tag_of (fst (poll_tag ops b a now s)) j = tag_of s j" for j
    by auto
qed

text \<open>
  C14: Outcome of a synchronous poll of one tag. A successful read and decode publishes the new value
  as Good with both time stamps set to the poll time. Every failure publishes Bad with its reason
  and keeps the last engineering value and source time stamp. No other tag changes, and the
  result of the call is the error of the step that failed.
\<close>

theorem poll_tag_outcome:
  assumes "d_has_store s" "d_has_clock s" "snd (poll_tag ops b a now s) \<noteq> Undef"
  shows "snd (poll_tag ops b a now s) = poll_outcome b (snd (area_read ops b (d_heap s a))) \<and>
    tag_of (fst (poll_tag ops b a now s)) (tb_id b) =
      Some (polled_value (poll_failure_reason b) b now (snd (area_read ops b (d_heap s a))) (tag_of s (tb_id b))) \<and>
    (\<forall>j. j = tb_id b \<or> tag_of (fst (poll_tag ops b a now s)) j = tag_of s j)"
  by (rule poll_tag_store [OF assms])

section \<open>The asynchronous poll of a tag\<close>

lemma poll_tag_async_result:
  assumes "d_has_store s" "d_has_clock s"
  shows "snd (poll_tag_async ops b a now s) = poll_outcome b (snd (area_read ops b (d_heap s a)))"
    and "d_heap (fst (poll_tag_async ops b a now s)) = (d_heap s)(a := fst (area_read ops b (d_heap s a)))"
  using assms
  by (auto simp: poll_tag_async_def area_read_def Let_def case_prod_unfold finish_regs_result
      on_transport_heap split: area.split)


section \<open>Memory safety of a poll\<close>

text \<open>The tags for which the codec reads no more registers than the poll requests.\<close>

definition quantity_covers :: "tag \<Rightarrow> bool" where
  "quantity_covers t \<longleftrightarrow>
     (case tag_quantity t of None \<Rightarrow> True
      | Some q \<Rightarrow> register_count_for (tag_ty t) \<le> q \<and> q < 65536)"

lemma regs_for_count: "tag_quantity t = None \<Longrightarrow> regs_for t = register_count_for (tag_ty t)"
  by (cases "tag_ty t") (simp_all add: regs_for_def)

lemma register_count_bounds: "1 \<le> register_count_for ty" "register_count_for ty \<le> 4"
  by (cases ty; simp)+

lemma decode_covered:
  assumes "quantity_covers t" "length rs = unat (word_of_int (regs_for t) :: u16)"
  shows "decode t rs \<noteq> Undef"
proof -
  have "register_count_for (tag_ty t) \<le> regs_for t" "regs_for t < 65536"
    using assms(1) register_count_bounds [of "tag_ty t"] regs_for_count [of t]
    by (auto simp: quantity_covers_def regs_for_def split: option.splits)
  then have "int (length rs) = regs_for t"
    using assms(2) register_count_bounds(1) [of "tag_ty t"]
      uint_nat [of "word_of_int (regs_for t) :: u16", symmetric]
    by (simp add: uint_word_of_int)
  then have "register_count_for (tag_ty t) \<le> int (length rs)"
    using \<open>register_count_for (tag_ty t) \<le> regs_for t\<close> by simp
  then show ?thesis by (auto simp: decode_Undef_iff)
qed

context register_port
begin

text \<open>Polling a register tag through any adapter that keeps the contract is memory safe.\<close>

lemma poll_register_tag_defined:
  assumes "register_area b" "quantity_covers (tb_tag b)"
  shows "snd (poll_tag ops b a now s) \<noteq> Undef"
proof (cases "d_has_store s \<and> d_has_clock s")
  case True
  let ?r = "snd (area_read ops b (d_heap s a))"
  have "?r \<noteq> Undef" "?r = Ok rs \<Longrightarrow> length rs = unat (word_of_int (regs_for (tb_tag b)) :: u16)" for rs
    using assms(1) sized_readD [OF holding_sized] sized_readD [OF input_sized]
    by (auto simp: register_area_def area_read_def Let_def)
  then have "poll_outcome b ?r \<noteq> Undef"
    using decode_covered [OF assms(2)] by (cases ?r) (auto simp: poll_outcome_def and_then_eq_Undef)
  then show ?thesis using True by (simp add: poll_tag_result)
qed (simp add: poll_tag_def)

end

context bit_port
begin

lemma poll_any_tag_defined:
  assumes "quantity_covers (tb_tag b)"
  shows "snd (poll_tag ops b a now s) \<noteq> Undef"
proof (cases "d_has_store s \<and> d_has_clock s")
  case True
  let ?r = "snd (area_read ops b (d_heap s a))"
  have "?r \<noteq> Undef" "?r = Ok rs \<Longrightarrow> length rs = unat (word_of_int (regs_for (tb_tag b)) :: u16)" for rs
    using sized_readD [OF holding_sized] sized_readD [OF input_sized]
      sized_readD [OF coils_sized] sized_readD [OF discrete_sized]
    by (auto simp: area_read_def Let_def case_prod_unfold and_then_eq_Undef and_then_eq_Ok
        bits_to_regs_def split: area.splits)
  then have "poll_outcome b ?r \<noteq> Undef"
    using decode_covered [OF assms] by (cases ?r) (auto simp: poll_outcome_def and_then_eq_Undef)
  then show ?thesis using True by (simp add: poll_tag_result)
qed (simp add: poll_tag_def)

lemma poll_tags_defined:
  "list_all (\<lambda>b. quantity_covers (tb_tag b)) bs \<Longrightarrow> fe \<noteq> Undef \<Longrightarrow> snd (poll_tags ops a now bs fe s) \<noteq> Undef"
proof (induction bs arbitrary: fe s)
  case (Cons b bs)
  then show ?case using poll_any_tag_defined [of b a now s]
    by (cases "poll_tag ops b a now s"; cases "snd (poll_tag ops b a now s)") (auto simp: first_error_def)
qed simp

end

section \<open>Frames of the composed operations\<close>

lemma poll_tags_frame_all:
  "d_index (fst (poll_tags ops a now bs fe s)) = d_index s \<and>
    d_has_store (fst (poll_tags ops a now bs fe s)) = d_has_store s \<and>
    d_has_clock (fst (poll_tags ops a now bs fe s)) = d_has_clock s \<and>
    d_has_metrics (fst (poll_tags ops a now bs fe s)) = d_has_metrics s \<and>
    d_has_tracer (fst (poll_tags ops a now bs fe s)) = d_has_tracer s \<and>
    d_transports (fst (poll_tags ops a now bs fe s)) = d_transports s \<and>
    d_last_poll_ms (fst (poll_tags ops a now bs fe s)) = d_last_poll_ms s \<and>
    d_write_queues (fst (poll_tags ops a now bs fe s)) = d_write_queues s \<and>
    d_clock (fst (poll_tags ops a now bs fe s)) = d_clock s \<and>
    d_spans (fst (poll_tags ops a now bs fe s)) = d_spans s"
proof (induction bs arbitrary: fe s)
  case (Cons b bs)
  then show ?case
    using poll_tag_frame [of ops b a now s]
    by (cases "poll_tag ops b a now s"; cases "snd (poll_tag ops b a now s)") simp_all
qed simp

lemmas poll_tags_frame [simp] = poll_tags_frame_all [THEN conjunct1] poll_tags_frame_all [THEN conjunct2, THEN conjunct1] poll_tags_frame_all [THEN conjunct2, THEN conjunct2, THEN conjunct1] poll_tags_frame_all [THEN conjunct2, THEN conjunct2, THEN conjunct2, THEN conjunct1] poll_tags_frame_all [THEN conjunct2, THEN conjunct2, THEN conjunct2, THEN conjunct2, THEN conjunct1] poll_tags_frame_all [THEN conjunct2, THEN conjunct2, THEN conjunct2, THEN conjunct2, THEN conjunct2, THEN conjunct1] poll_tags_frame_all [THEN conjunct2, THEN conjunct2, THEN conjunct2, THEN conjunct2, THEN conjunct2, THEN conjunct2, THEN conjunct1] poll_tags_frame_all [THEN conjunct2, THEN conjunct2, THEN conjunct2, THEN conjunct2, THEN conjunct2, THEN conjunct2, THEN conjunct2, THEN conjunct1] poll_tags_frame_all [THEN conjunct2, THEN conjunct2, THEN conjunct2, THEN conjunct2, THEN conjunct2, THEN conjunct2, THEN conjunct2, THEN conjunct2, THEN conjunct1] poll_tags_frame_all [THEN conjunct2, THEN conjunct2, THEN conjunct2, THEN conjunct2, THEN conjunct2, THEN conjunct2, THEN conjunct2, THEN conjunct2, THEN conjunct2]

lemma poll_group_frame [simp]:
  "d_index (fst (poll_group ops g a now s)) = d_index s"
  "d_has_store (fst (poll_group ops g a now s)) = d_has_store s"
  "d_has_clock (fst (poll_group ops g a now s)) = d_has_clock s"
  "d_has_metrics (fst (poll_group ops g a now s)) = d_has_metrics s"
  "d_has_tracer (fst (poll_group ops g a now s)) = d_has_tracer s"
  "d_transports (fst (poll_group ops g a now s)) = d_transports s"
  "d_last_poll_ms (fst (poll_group ops g a now s)) = d_last_poll_ms s"
  "d_write_queues (fst (poll_group ops g a now s)) = d_write_queues s"
  "d_clock (fst (poll_group ops g a now s)) = d_clock s"
  "d_spans (fst (poll_group ops g a now s)) = d_spans s"
  by (simp_all add: poll_group_def split: option.split result.split)

lemma poll_groups_frame_all:
  "d_index (fst (poll_groups ops eid a now gs fe s)) = d_index s \<and>
    d_has_store (fst (poll_groups ops eid a now gs fe s)) = d_has_store s \<and>
    d_has_clock (fst (poll_groups ops eid a now gs fe s)) = d_has_clock s \<and>
    d_has_metrics (fst (poll_groups ops eid a now gs fe s)) = d_has_metrics s \<and>
    d_has_tracer (fst (poll_groups ops eid a now gs fe s)) = d_has_tracer s \<and>
    d_transports (fst (poll_groups ops eid a now gs fe s)) = d_transports s \<and>
    d_write_queues (fst (poll_groups ops eid a now gs fe s)) = d_write_queues s \<and>
    d_clock (fst (poll_groups ops eid a now gs fe s)) = d_clock s \<and>
    d_spans (fst (poll_groups ops eid a now gs fe s)) = d_spans s"
proof (induction gs arbitrary: fe s)
  case (Cons g gs)
  then show ?case
    using poll_group_frame [of ops g a now s]
    by (cases "poll_group ops g a now s"; cases "snd (poll_group ops g a now s)") simp_all
qed simp

lemmas poll_groups_frame [simp] = poll_groups_frame_all [THEN conjunct1] poll_groups_frame_all [THEN conjunct2, THEN conjunct1] poll_groups_frame_all [THEN conjunct2, THEN conjunct2, THEN conjunct1] poll_groups_frame_all [THEN conjunct2, THEN conjunct2, THEN conjunct2, THEN conjunct1] poll_groups_frame_all [THEN conjunct2, THEN conjunct2, THEN conjunct2, THEN conjunct2, THEN conjunct1] poll_groups_frame_all [THEN conjunct2, THEN conjunct2, THEN conjunct2, THEN conjunct2, THEN conjunct2, THEN conjunct1] poll_groups_frame_all [THEN conjunct2, THEN conjunct2, THEN conjunct2, THEN conjunct2, THEN conjunct2, THEN conjunct2, THEN conjunct1] poll_groups_frame_all [THEN conjunct2, THEN conjunct2, THEN conjunct2, THEN conjunct2, THEN conjunct2, THEN conjunct2, THEN conjunct2, THEN conjunct1] poll_groups_frame_all [THEN conjunct2, THEN conjunct2, THEN conjunct2, THEN conjunct2, THEN conjunct2, THEN conjunct2, THEN conjunct2, THEN conjunct2]

lemma fail_write_frame [simp]:
  "d_index (fst (fail_write eid now sp p r rest e s)) = d_index s"
  "d_has_store (fst (fail_write eid now sp p r rest e s)) = d_has_store s"
  "d_has_clock (fst (fail_write eid now sp p r rest e s)) = d_has_clock s"
  "d_has_metrics (fst (fail_write eid now sp p r rest e s)) = d_has_metrics s"
  "d_has_tracer (fst (fail_write eid now sp p r rest e s)) = d_has_tracer s"
  "d_transports (fst (fail_write eid now sp p r rest e s)) = d_transports s"
  "d_last_poll_ms (fst (fail_write eid now sp p r rest e s)) = d_last_poll_ms s"
  "d_heap (fst (fail_write eid now sp p r rest e s)) = d_heap s"
  "d_clock (fst (fail_write eid now sp p r rest e s)) = d_clock s"
  "d_clock_reads (fst (fail_write eid now sp p r rest e s)) = d_clock_reads s"
  by (simp_all add: fail_write_def Let_def)

lemma confirm_writes_frame_all:
  "d_index (confirm_writes now ws s) = d_index s \<and>
    d_has_store (confirm_writes now ws s) = d_has_store s \<and>
    d_has_clock (confirm_writes now ws s) = d_has_clock s \<and>
    d_has_metrics (confirm_writes now ws s) = d_has_metrics s \<and>
    d_has_tracer (confirm_writes now ws s) = d_has_tracer s \<and>
    d_transports (confirm_writes now ws s) = d_transports s \<and>
    d_last_poll_ms (confirm_writes now ws s) = d_last_poll_ms s \<and>
    d_write_queues (confirm_writes now ws s) = d_write_queues s \<and>
    d_heap (confirm_writes now ws s) = d_heap s \<and>
    d_clock (confirm_writes now ws s) = d_clock s \<and>
    d_clock_reads (confirm_writes now ws s) = d_clock_reads s \<and>
    d_metrics (confirm_writes now ws s) = d_metrics s \<and>
    d_spans (confirm_writes now ws s) = d_spans s"
  by (induction ws arbitrary: s) (simp_all add: confirm_writes_def)

lemmas confirm_writes_frame [simp] = confirm_writes_frame_all [THEN conjunct1] confirm_writes_frame_all [THEN conjunct2, THEN conjunct1] confirm_writes_frame_all [THEN conjunct2, THEN conjunct2, THEN conjunct1] confirm_writes_frame_all [THEN conjunct2, THEN conjunct2, THEN conjunct2, THEN conjunct1] confirm_writes_frame_all [THEN conjunct2, THEN conjunct2, THEN conjunct2, THEN conjunct2, THEN conjunct1] confirm_writes_frame_all [THEN conjunct2, THEN conjunct2, THEN conjunct2, THEN conjunct2, THEN conjunct2, THEN conjunct1] confirm_writes_frame_all [THEN conjunct2, THEN conjunct2, THEN conjunct2, THEN conjunct2, THEN conjunct2, THEN conjunct2, THEN conjunct1] confirm_writes_frame_all [THEN conjunct2, THEN conjunct2, THEN conjunct2, THEN conjunct2, THEN conjunct2, THEN conjunct2, THEN conjunct2, THEN conjunct1] confirm_writes_frame_all [THEN conjunct2, THEN conjunct2, THEN conjunct2, THEN conjunct2, THEN conjunct2, THEN conjunct2, THEN conjunct2, THEN conjunct2, THEN conjunct1] confirm_writes_frame_all [THEN conjunct2, THEN conjunct2, THEN conjunct2, THEN conjunct2, THEN conjunct2, THEN conjunct2, THEN conjunct2, THEN conjunct2, THEN conjunct2, THEN conjunct1] confirm_writes_frame_all [THEN conjunct2, THEN conjunct2, THEN conjunct2, THEN conjunct2, THEN conjunct2, THEN conjunct2, THEN conjunct2, THEN conjunct2, THEN conjunct2, THEN conjunct2, THEN conjunct1] confirm_writes_frame_all [THEN conjunct2, THEN conjunct2, THEN conjunct2, THEN conjunct2, THEN conjunct2, THEN conjunct2, THEN conjunct2, THEN conjunct2, THEN conjunct2, THEN conjunct2, THEN conjunct2, THEN conjunct1] confirm_writes_frame_all [THEN conjunct2, THEN conjunct2, THEN conjunct2, THEN conjunct2, THEN conjunct2, THEN conjunct2, THEN conjunct2, THEN conjunct2, THEN conjunct2, THEN conjunct2, THEN conjunct2, THEN conjunct2]

lemma write_head_frame:
  assumes "write_head ops a p ps s = Sent s' wr ms rest"
  obtains h where "s' = s\<lparr>d_heap := h\<rparr>"
  using assms
  by (auto simp: write_head_def Let_def on_transport_def split: result.splits option.splits if_splits
      prod.splits merge_result.splits)

lemma flush_loop_frame_all:
  "d_index (fst (flush_loop ops eid a now sp ps s)) = d_index s \<and>
    d_has_store (fst (flush_loop ops eid a now sp ps s)) = d_has_store s \<and>
    d_has_clock (fst (flush_loop ops eid a now sp ps s)) = d_has_clock s \<and>
    d_has_metrics (fst (flush_loop ops eid a now sp ps s)) = d_has_metrics s \<and>
    d_has_tracer (fst (flush_loop ops eid a now sp ps s)) = d_has_tracer s \<and>
    d_transports (fst (flush_loop ops eid a now sp ps s)) = d_transports s \<and>
    d_last_poll_ms (fst (flush_loop ops eid a now sp ps s)) = d_last_poll_ms s \<and>
    d_clock (fst (flush_loop ops eid a now sp ps s)) = d_clock s \<and>
    d_clock_reads (fst (flush_loop ops eid a now sp ps s)) = d_clock_reads s"
proof (induction ops eid a now sp ps s rule: flush_loop.induct)
  case (2 ops eid a now sp p ps s)
  show ?case
  proof (cases "write_head ops a p ps s")
    case (Sent s' wr ms rest)
    then obtain h where "s' = s\<lparr>d_heap := h\<rparr>" by (rule write_head_frame)
    with Sent 2(2) [OF Sent] show ?thesis by (cases wr) simp_all
  qed (use 2(1) in simp_all)
qed simp

lemmas flush_loop_frame [simp] = flush_loop_frame_all [THEN conjunct1] flush_loop_frame_all [THEN conjunct2, THEN conjunct1] flush_loop_frame_all [THEN conjunct2, THEN conjunct2, THEN conjunct1] flush_loop_frame_all [THEN conjunct2, THEN conjunct2, THEN conjunct2, THEN conjunct1] flush_loop_frame_all [THEN conjunct2, THEN conjunct2, THEN conjunct2, THEN conjunct2, THEN conjunct1] flush_loop_frame_all [THEN conjunct2, THEN conjunct2, THEN conjunct2, THEN conjunct2, THEN conjunct2, THEN conjunct1] flush_loop_frame_all [THEN conjunct2, THEN conjunct2, THEN conjunct2, THEN conjunct2, THEN conjunct2, THEN conjunct2, THEN conjunct1] flush_loop_frame_all [THEN conjunct2, THEN conjunct2, THEN conjunct2, THEN conjunct2, THEN conjunct2, THEN conjunct2, THEN conjunct2, THEN conjunct1] flush_loop_frame_all [THEN conjunct2, THEN conjunct2, THEN conjunct2, THEN conjunct2, THEN conjunct2, THEN conjunct2, THEN conjunct2, THEN conjunct2]

lemma flush_writes_frame [simp]:
  "d_index (fst (flush_writes ops eid s)) = d_index s"
  "d_has_store (fst (flush_writes ops eid s)) = d_has_store s"
  "d_has_clock (fst (flush_writes ops eid s)) = d_has_clock s"
  "d_has_metrics (fst (flush_writes ops eid s)) = d_has_metrics s"
  "d_has_tracer (fst (flush_writes ops eid s)) = d_has_tracer s"
  "d_transports (fst (flush_writes ops eid s)) = d_transports s"
  "d_last_poll_ms (fst (flush_writes ops eid s)) = d_last_poll_ms s"
  "d_clock (fst (flush_writes ops eid s)) = d_clock s"
  by (simp_all add: flush_writes_def Let_def case_prod_unfold split: option.split)

lemma mark_endpoint_bad_fold:
  "fold (\<lambda>b s. if tb_endpoint_id b \<noteq> eid then s else publish_quality (tb_id b) Bad r now None s) bs s =
   fold (\<lambda>b. publish_quality (tb_id b) Bad r now None) (filter (\<lambda>b. tb_endpoint_id b = eid) bs) s"
  by (induction bs arbitrary: s) simp_all

lemma fold_quality_frame_all:
  "d_index (fold (\<lambda>b. publish_quality (tb_id b) Bad r now None) bs s) = d_index s \<and>
    d_has_store (fold (\<lambda>b. publish_quality (tb_id b) Bad r now None) bs s) = d_has_store s \<and>
    d_has_clock (fold (\<lambda>b. publish_quality (tb_id b) Bad r now None) bs s) = d_has_clock s \<and>
    d_has_metrics (fold (\<lambda>b. publish_quality (tb_id b) Bad r now None) bs s) = d_has_metrics s \<and>
    d_has_tracer (fold (\<lambda>b. publish_quality (tb_id b) Bad r now None) bs s) = d_has_tracer s \<and>
    d_transports (fold (\<lambda>b. publish_quality (tb_id b) Bad r now None) bs s) = d_transports s \<and>
    d_last_poll_ms (fold (\<lambda>b. publish_quality (tb_id b) Bad r now None) bs s) = d_last_poll_ms s \<and>
    d_write_queues (fold (\<lambda>b. publish_quality (tb_id b) Bad r now None) bs s) = d_write_queues s \<and>
    d_heap (fold (\<lambda>b. publish_quality (tb_id b) Bad r now None) bs s) = d_heap s \<and>
    d_clock (fold (\<lambda>b. publish_quality (tb_id b) Bad r now None) bs s) = d_clock s \<and>
    d_clock_reads (fold (\<lambda>b. publish_quality (tb_id b) Bad r now None) bs s) = d_clock_reads s \<and>
    d_metrics (fold (\<lambda>b. publish_quality (tb_id b) Bad r now None) bs s) = d_metrics s \<and>
    d_spans (fold (\<lambda>b. publish_quality (tb_id b) Bad r now None) bs s) = d_spans s"
  by (induction bs arbitrary: s) simp_all

lemmas fold_quality_frame [simp] = fold_quality_frame_all [THEN conjunct1] fold_quality_frame_all [THEN conjunct2, THEN conjunct1] fold_quality_frame_all [THEN conjunct2, THEN conjunct2, THEN conjunct1] fold_quality_frame_all [THEN conjunct2, THEN conjunct2, THEN conjunct2, THEN conjunct1] fold_quality_frame_all [THEN conjunct2, THEN conjunct2, THEN conjunct2, THEN conjunct2, THEN conjunct1] fold_quality_frame_all [THEN conjunct2, THEN conjunct2, THEN conjunct2, THEN conjunct2, THEN conjunct2, THEN conjunct1] fold_quality_frame_all [THEN conjunct2, THEN conjunct2, THEN conjunct2, THEN conjunct2, THEN conjunct2, THEN conjunct2, THEN conjunct1] fold_quality_frame_all [THEN conjunct2, THEN conjunct2, THEN conjunct2, THEN conjunct2, THEN conjunct2, THEN conjunct2, THEN conjunct2, THEN conjunct1] fold_quality_frame_all [THEN conjunct2, THEN conjunct2, THEN conjunct2, THEN conjunct2, THEN conjunct2, THEN conjunct2, THEN conjunct2, THEN conjunct2, THEN conjunct1] fold_quality_frame_all [THEN conjunct2, THEN conjunct2, THEN conjunct2, THEN conjunct2, THEN conjunct2, THEN conjunct2, THEN conjunct2, THEN conjunct2, THEN conjunct2, THEN conjunct1] fold_quality_frame_all [THEN conjunct2, THEN conjunct2, THEN conjunct2, THEN conjunct2, THEN conjunct2, THEN conjunct2, THEN conjunct2, THEN conjunct2, THEN conjunct2, THEN conjunct2, THEN conjunct1] fold_quality_frame_all [THEN conjunct2, THEN conjunct2, THEN conjunct2, THEN conjunct2, THEN conjunct2, THEN conjunct2, THEN conjunct2, THEN conjunct2, THEN conjunct2, THEN conjunct2, THEN conjunct2, THEN conjunct1] fold_quality_frame_all [THEN conjunct2, THEN conjunct2, THEN conjunct2, THEN conjunct2, THEN conjunct2, THEN conjunct2, THEN conjunct2, THEN conjunct2, THEN conjunct2, THEN conjunct2, THEN conjunct2, THEN conjunct2]

lemma mark_endpoint_bad_frame [simp]:
  "d_index (mark_endpoint_bad eid r now s) = d_index s"
  "d_has_store (mark_endpoint_bad eid r now s) = d_has_store s"
  "d_has_clock (mark_endpoint_bad eid r now s) = d_has_clock s"
  "d_has_metrics (mark_endpoint_bad eid r now s) = d_has_metrics s"
  "d_has_tracer (mark_endpoint_bad eid r now s) = d_has_tracer s"
  "d_transports (mark_endpoint_bad eid r now s) = d_transports s"
  "d_last_poll_ms (mark_endpoint_bad eid r now s) = d_last_poll_ms s"
  "d_write_queues (mark_endpoint_bad eid r now s) = d_write_queues s"
  "d_heap (mark_endpoint_bad eid r now s) = d_heap s"
  "d_clock (mark_endpoint_bad eid r now s) = d_clock s"
  "d_clock_reads (mark_endpoint_bad eid r now s) = d_clock_reads s"
  "d_metrics (mark_endpoint_bad eid r now s) = d_metrics s"
  "d_spans (mark_endpoint_bad eid r now s) = d_spans s"
  by (simp_all add: mark_endpoint_bad_def mark_endpoint_bad_fold)

lemma ensure_connected_frame [simp]:
  "d_index (fst (ensure_connected ops eid a now s)) = d_index s"
  "d_has_store (fst (ensure_connected ops eid a now s)) = d_has_store s"
  "d_has_clock (fst (ensure_connected ops eid a now s)) = d_has_clock s"
  "d_has_metrics (fst (ensure_connected ops eid a now s)) = d_has_metrics s"
  "d_has_tracer (fst (ensure_connected ops eid a now s)) = d_has_tracer s"
  "d_transports (fst (ensure_connected ops eid a now s)) = d_transports s"
  "d_last_poll_ms (fst (ensure_connected ops eid a now s)) = d_last_poll_ms s"
  "d_write_queues (fst (ensure_connected ops eid a now s)) = d_write_queues s"
  "d_clock (fst (ensure_connected ops eid a now s)) = d_clock s"
  "d_clock_reads (fst (ensure_connected ops eid a now s)) = d_clock_reads s"
  "d_metrics (fst (ensure_connected ops eid a now s)) = d_metrics s"
  "d_spans (fst (ensure_connected ops eid a now s)) = d_spans s"
  by (simp_all add: ensure_connected_def case_prod_unfold split: option.split result.split)

lemma log_failure_frame [simp]:
  "d_index (fst (log_failure sp (s, r))) = d_index s"
  "d_has_store (fst (log_failure sp (s, r))) = d_has_store s"
  "d_has_clock (fst (log_failure sp (s, r))) = d_has_clock s"
  "d_has_metrics (fst (log_failure sp (s, r))) = d_has_metrics s"
  "d_has_tracer (fst (log_failure sp (s, r))) = d_has_tracer s"
  "d_transports (fst (log_failure sp (s, r))) = d_transports s"
  "d_last_poll_ms (fst (log_failure sp (s, r))) = d_last_poll_ms s"
  "d_write_queues (fst (log_failure sp (s, r))) = d_write_queues s"
  "d_store (fst (log_failure sp (s, r))) = d_store s"
  "d_calls (fst (log_failure sp (s, r))) = d_calls s"
  "d_heap (fst (log_failure sp (s, r))) = d_heap s"
  "d_clock (fst (log_failure sp (s, r))) = d_clock s"
  "d_clock_reads (fst (log_failure sp (s, r))) = d_clock_reads s"
  "d_metrics (fst (log_failure sp (s, r))) = d_metrics s"
  by (cases r; simp)+

section \<open>When groups are polled\<close>

lemma set_last_poll_stamp:
  "map_of (d_last_poll_ms (set_last_poll eid now g s)) k =
     (if k = poll_key eid g then Some now else map_of (d_last_poll_ms s) k)"
  by (simp add: set_last_poll_def)

lemma poll_groups_stamp:
  assumes "poll_groups ops eid a now gs fe s = (s', r)" "r \<noteq> Undef"
  shows "map_of (d_last_poll_ms s') k = Some now \<or> map_of (d_last_poll_ms s') k = map_of (d_last_poll_ms s) k"
    and "g \<in> set gs \<Longrightarrow> group_due eid now g s \<Longrightarrow> map_of (d_last_poll_ms s') (poll_key eid g) = Some now"
proof -
  have "(\<forall>k. map_of (d_last_poll_ms s') k = Some now \<or> map_of (d_last_poll_ms s') k = map_of (d_last_poll_ms s) k) \<and>
      (\<forall>g\<in>set gs. group_due eid now g s \<longrightarrow> map_of (d_last_poll_ms s') (poll_key eid g) = Some now)"
    using assms
  proof (induction gs arbitrary: fe s)
    case (Cons g gs)
    show ?case
    proof (cases "group_due eid now g s")
      case False
      then show ?thesis using Cons.IH [of fe s] Cons.prems by auto
    next
      case True
      obtain fe2 s2 where s2: "poll_groups ops eid a now gs fe2 s2 = (s', r)"
          "d_last_poll_ms s2 = d_last_poll_ms (set_last_poll eid now g s)"
      proof -
        obtain s1 r1 where p: "poll_group ops g a now s = (s1, r1)" by force
        then have l: "d_last_poll_ms s1 = d_last_poll_ms s" using poll_group_frame [of ops g a now s] by simp
        show thesis
          using Cons.prems True p l that
          by (cases r1) (auto simp: set_last_poll_def)
      qed
      have due: "group_due eid now h s2 \<or> poll_key eid h = poll_key eid g" if "group_due eid now h s" for h
        using that by (auto simp: group_due_def s2(2) set_last_poll_stamp Let_def)
      have ih: "map_of (d_last_poll_ms s') k = Some now \<or> map_of (d_last_poll_ms s') k = map_of (d_last_poll_ms s2) k"
        and ih': "\<forall>h\<in>set gs. group_due eid now h s2 \<longrightarrow> map_of (d_last_poll_ms s') (poll_key eid h) = Some now" for k
        using Cons.IH [OF s2(1) Cons.prems(2)] by blast+
      have g: "map_of (d_last_poll_ms s') (poll_key eid g) = Some now"
        using ih [of "poll_key eid g"] by (auto simp: s2(2) set_last_poll_stamp)
      show ?thesis
      proof (intro conjI ballI impI allI)
        show "map_of (d_last_poll_ms s') k = Some now \<or> map_of (d_last_poll_ms s') k = map_of (d_last_poll_ms s) k" for k
          using ih [of k] by (auto simp: s2(2) set_last_poll_stamp split: if_splits)
        fix h assume "h \<in> set (g # gs)" "group_due eid now h s"
        then show "map_of (d_last_poll_ms s') (poll_key eid h) = Some now"
          using due [of h] ih' g by auto
      qed
    qed
  qed auto
  then show "map_of (d_last_poll_ms s') k = Some now \<or> map_of (d_last_poll_ms s') k = map_of (d_last_poll_ms s) k"
    "g \<in> set gs \<Longrightarrow> group_due eid now g s \<Longrightarrow> map_of (d_last_poll_ms s') (poll_key eid g) = Some now"
    by blast+
qed

lemma poll_groups_none_due:
  "\<forall>g\<in>set gs. \<not> group_due eid now g s \<Longrightarrow> poll_groups ops eid a now gs fe s = (s, fe)"
  by (induction gs) auto

lemma poll_due_Ok:
  assumes "poll_due ops eid now s = (s', Ok ())"
  obtains a s1 s2 where "map_of (d_transports s) eid = Some (Some a)"
    "ensure_connected ops eid a now s1 = (s2, Ok ())"
    "flush_writes ops eid s2 = (fst (flush_writes ops eid s2), Ok ())"
    "poll_groups ops eid a now (groups_for_endpoint (d_index s) eid) (Ok ()) (fst (flush_writes ops eid s2)) = (s', Ok ())"
    "d_index s1 = d_index s" "d_last_poll_ms s1 = d_last_poll_ms s"
proof -
  let ?s1 = "span_log (snd (start_span ''modbus.poll'' s)) (SpanAttribute ''endpoint_id'' eid) (fst (start_span ''modbus.poll'' s))"
  have lf: "log_failure sp x = (s', Ok ()) \<longleftrightarrow> x = (s', Ok ())" for sp x
    by (cases x; cases "snd x") auto
  define r where "r = (\<lambda>a. ensure_connected ops eid a now ?s1)"
  have u: "log_failure (snd (start_span ''modbus.poll'' s))
      (case map_of (d_transports s) eid of
         Some (Some a) \<Rightarrow> (case r a of
             (s, Ok _) \<Rightarrow> (case flush_writes ops eid s of
                 (s, Ok _) \<Rightarrow> poll_groups ops eid a now (groups_for_endpoint (d_index s) eid) (Ok ()) s
               | (s, r) \<Rightarrow> (s, r))
           | (s, r) \<Rightarrow> (s, r))
       | _ \<Rightarrow> (?s1, Err (dispatcher_error EC_NotFound ''transport not bound'' False))) = (s', Ok ())"
    using assms by (simp add: poll_due_def Let_def case_prod_unfold r_def cong: option.case_cong)
  obtain a where a: "map_of (d_transports s) eid = Some (Some a)"
    using u by (cases "map_of (d_transports s) eid"; cases "the (map_of (d_transports s) eid)") auto
  obtain s2 where s2: "r a = (s2, Ok ())"
    using u a by (cases "r a"; cases "snd (r a)") (auto simp: lf)
  obtain s3 where s3: "flush_writes ops eid s2 = (s3, Ok ())"
    using u a s2 by (cases "flush_writes ops eid s2"; cases "snd (flush_writes ops eid s2)") (auto simp: lf)
  have "d_index (fst (r a)) = d_index s" by (simp add: r_def)
  then have "d_index s3 = d_index s"
    using flush_writes_frame(1) [of ops eid s2] s2 s3 by simp
  then have "poll_groups ops eid a now (groups_for_endpoint (d_index s) eid) (Ok ()) s3 = (s', Ok ())"
    using u a s2 s3 by (simp add: lf)
  with a s2 s3 show thesis by (intro that [of a ?s1 s2]) (simp_all add: r_def)
qed


section \<open>Write queues\<close>

lemma queue_of_cong: "d_write_queues s = d_write_queues s' \<Longrightarrow> queue_of s e = queue_of s' e"
  by (simp add: queue_of_def)

lemma queue_of_set_queue [simp]: "queue_of (set_queue e q s) e' = (if e = e' then q else queue_of s e')"
  by (simp add: queue_of_def set_queue_def)

lemma queue_of_frames [simp]:
  "queue_of (metric m s) e = queue_of s e" "queue_of (span_log sp ev s) e = queue_of s e"
  "queue_of (publish_quality i q r now v s) e = queue_of s e"
  "queue_of (confirm_writes now ws s) e = queue_of s e" "queue_of (s\<lparr>d_heap := h\<rparr>) e = queue_of s e"
  "queue_of (fst (start_span n s)) e = queue_of s e" "queue_of (fst (now_ms s)) e = queue_of s e"
  by (rule queue_of_cong; simp)+

lemma queue_of_requeue [simp]:
  "queue_of (requeue e rest s) e' = (if e = e' then rest @ queue_of s e else queue_of s e')"
  by (simp add: requeue_def Let_def)

lemma queue_of_fail_write [simp]:
  "queue_of (fst (fail_write eid now sp p r rest e s)) e' =
     (if eid = e' then rest @ queue_of s eid else queue_of s e')"
  by (simp add: fail_write_def Let_def)

lemma fail_write_result [simp]: "snd (fail_write eid now sp p r rest e s) = Err e"
  by (simp add: fail_write_def Let_def)

lemma merge_coils_error_suffix:
  "merge_coils ix u n bits ms ps = MergeError q rest e \<Longrightarrow> \<exists>c. ps = c @ q # rest"
proof (induction ps arbitrary: n bits ms)
  case (Cons p ps)
  then show ?case
    by (fastforce split: result.splits option.splits if_splits intro: append_Cons [symmetric])
qed simp

lemma write_head_failed_suffix:
  assumes "write_head ops a p ps s = EncodeFailed q rest e"
  shows "\<exists>c. p # ps = c @ q # rest"
proof -
  have "(q = p \<and> rest = ps) \<or> (\<exists>c. ps = c @ q # rest)"
    using assms
    by (auto simp: write_head_def Let_def split: result.splits option.splits if_splits prod.splits
        merge_result.splits dest!: merge_coils_error_suffix)
  then show ?thesis by (metis append_Cons append_Nil)
qed

text \<open>A flush leaves a suffix of its batch in front of the queue of its endpoint, and nothing after
  success; other queues are not touched.\<close>

lemma flush_loop_queue:
  "\<exists>done rest. ps = done @ rest \<and> (snd (flush_loop ops eid a now sp ps s) = Ok () \<longrightarrow> rest = []) \<and>
     (\<forall>e. queue_of (fst (flush_loop ops eid a now sp ps s)) e =
        (if e = eid then rest @ queue_of s eid else queue_of s e))"
proof (induction ops eid a now sp ps s rule: flush_loop.induct)
  case (2 ops eid a now sp p ps s)
  show ?case
  proof (cases "write_head ops a p ps s")
    case Skip
    with 2(1) [OF Skip] show ?thesis by (auto intro: exI [of _ "p # _"])
  next
    case (EncodeFailed q rest e)
    obtain c where "p # ps = c @ q # rest" using write_head_failed_suffix [OF EncodeFailed] by blast
    then have c: "p # ps = (c @ [q]) @ rest" by simp
    have f: "flush_loop ops eid a now sp (p # ps) s = fail_write eid now sp q QR_DecodingError rest e s"
      using EncodeFailed by simp
    show ?thesis unfolding f using c by (metis fail_write_result queue_of_fail_write result.distinct(1))
  next
    case StepUndef
    then show ?thesis by (intro exI [of _ "p # ps"] exI [of _ "[]"]) auto
  next
    case (Sent s' wr ms rest)
    obtain h where s': "s' = s\<lparr>d_heap := h\<rparr>" using write_head_frame [OF Sent] .
    obtain c where c: "ms = p # c" "ps = c @ rest" using write_head_split [OF Sent] by blast
    show ?thesis
    proof (cases wr)
      case (Ok u)
      obtain dn rs where "rest = dn @ rs"
          "snd (flush_loop ops eid a now sp rest (confirm_writes now ms s')) = result.Ok () \<longrightarrow> rs = []"
          "\<forall>e. queue_of (fst (flush_loop ops eid a now sp rest (confirm_writes now ms s'))) e =
            (if e = eid then rs @ queue_of s eid else queue_of s e)"
        using 2(2) [OF Sent Ok] unfolding s' queue_of_frames by metis
      then show ?thesis using Sent Ok c by (intro exI [of _ "p # c @ dn"] exI [of _ rs]) auto
    next
      case (Err e)
      then show ?thesis using Sent s' by (intro exI [of _ "[p]"] exI [of _ ps]) auto
    next
      case Undef
      then show ?thesis using Sent s' by (intro exI [of _ "p # ps"] exI [of _ "[]"]) auto
    qed
  qed
qed auto

lemma flush_writes_queue:
  "\<exists>done rest. queue_of s eid = done @ rest \<and> (snd (flush_writes ops eid s) = Ok () \<longrightarrow> rest = []) \<and>
     (\<forall>e. queue_of (fst (flush_writes ops eid s)) e = (if e = eid then rest else queue_of s e))"
proof (cases "queue_of s eid = []")
  case False
  let ?s1 = "metric (GaugeSet ''modbus_write_queue_depth'' 0) (set_queue eid [] s)"
  let ?sp = "snd (start_span ''modbus.write'' ?s1)"
  let ?s2 = "span_log ?sp (SpanCount ''write_count'' (int (length (queue_of s eid))))
      (span_log ?sp (SpanAttribute ''endpoint_id'' eid) (fst (start_span ''modbus.write'' ?s1)))"
  show ?thesis
  proof (cases "\<exists>a. map_of (d_transports s) eid = Some (Some a)")
    case True
    then obtain a where a: "map_of (d_transports s) eid = Some (Some a)" ..
    define s3 where "s3 = fst (if d_has_clock s then now_ms ?s2 else (?s2, 0))"
    define now where "now = snd (if d_has_clock s then now_ms ?s2 else (?s2, 0))"
    have f: "flush_writes ops eid s = flush_loop ops eid a now ?sp (queue_of s eid) s3"
      using False a by (simp add: flush_writes_def Let_def case_prod_unfold s3_def now_def)
    have "queue_of s3 e = (if e = eid then [] else queue_of s e)" for e by (auto simp: s3_def)
    then show ?thesis unfolding f using flush_loop_queue [of "queue_of s eid" ops eid a now ?sp s3] by auto
  next
    case False
    with \<open>queue_of s eid \<noteq> []\<close> have "flush_writes ops eid s =
      (span_log ?sp (SpanError ''transport not bound'') (requeue eid (queue_of s eid) ?s2),
       Err (dispatcher_error EC_NotFound ''transport not bound'' False))"
      by (auto simp: flush_writes_def Let_def case_prod_unfold split: option.split)
    then show ?thesis by (intro exI [of _ "[]"] exI [of _ "queue_of s eid"]) auto
  qed
qed (auto simp: flush_writes_def intro!: exI [of _ "[]"])

section \<open>The bound of the write queues\<close>

text \<open>The operations of the dispatcher as steps; each runs to its end before the next begins.\<close>

inductive dispatcher_step :: "'t transport_ops \<Rightarrow> ('t, 'h) dispatcher \<Rightarrow> ('t, 'h) dispatcher \<Rightarrow> bool"
  for ops where
  Step_bind: "dispatcher_step ops s (bind_transport eid t s)"
| Step_enqueue: "dispatcher_step ops s (fst (enqueue_write i v s))"
| Step_flush: "dispatcher_step ops s (fst (flush_writes ops eid s))"
| Step_poll: "dispatcher_step ops s (fst (poll_due ops eid now s))"
| Step_poll_async: "dispatcher_step ops s (fst (poll_due_async ops eid now s))"
| Step_mark_bad: "dispatcher_step ops s (mark_endpoint_bad eid reason now s)"

inductive_cases dispatcher_stepE: "dispatcher_step ops s s'"

definition queues_bounded :: "('t, 'h) dispatcher \<Rightarrow> bool" where
  "queues_bounded s \<longleftrightarrow> (\<forall>e. length (queue_of s e) \<le> kMaxWriteQueueDepth)"

text \<open>Queues that only lose elements.\<close>

definition queues_shrink :: "('t, 'h) dispatcher \<Rightarrow> ('t, 'h) dispatcher \<Rightarrow> bool" where
  "queues_shrink s s' \<longleftrightarrow> (\<forall>e. length (queue_of s' e) \<le> length (queue_of s e))"

lemma queues_shrink_refl: "d_write_queues s' = d_write_queues s \<Longrightarrow> queues_shrink s s'"
  by (simp add: queues_shrink_def queue_of_def)

lemma queues_shrink_trans: "queues_shrink s s' \<Longrightarrow> queues_shrink s' s'' \<Longrightarrow> queues_shrink s s''"
  by (meson order_trans queues_shrink_def)

lemma queues_shrink_bounded: "queues_bounded s \<Longrightarrow> queues_shrink s s' \<Longrightarrow> queues_bounded s'"
  by (meson order_trans queues_shrink_def queues_bounded_def)

lemma flush_writes_shrink: "queues_shrink s (fst (flush_writes ops eid s))"
proof -
  obtain dn rest where q: "queue_of s eid = dn @ rest"
      "\<forall>e. queue_of (fst (flush_writes ops eid s)) e = (if e = eid then rest else queue_of s e)"
    using flush_writes_queue [of s eid ops] by auto
  then have "length rest \<le> length (queue_of s eid)" by simp
  with q(2) show ?thesis by (simp add: queues_shrink_def)
qed

lemma fst_log_failure: "d_write_queues (fst (log_failure sp x)) = d_write_queues (fst x)"
  by (cases x; cases "snd x") auto

lemma poll_due_shrink: "queues_shrink s (fst (poll_due ops eid now s))"
proof -
  let ?sp = "snd (start_span ''modbus.poll'' s)"
  let ?s1 = "span_log ?sp (SpanAttribute ''endpoint_id'' eid) (fst (start_span ''modbus.poll'' s))"
  have e: "d_write_queues (fst (ensure_connected ops eid a now ?s1)) = d_write_queues s" for a by simp
  have "queues_shrink s (fst (case ensure_connected ops eid a now ?s1 of
          (s, Ok _) \<Rightarrow> (case flush_writes ops eid s of
              (s, Ok _) \<Rightarrow> poll_groups ops eid a now (groups_for_endpoint (d_index s) eid) (Ok ()) s
            | (s, r) \<Rightarrow> (s, r))
        | (s, r) \<Rightarrow> (s, r)))" (is "queues_shrink s (fst (?f a))") for a
  proof -
    obtain s2 r2 where c: "ensure_connected ops eid a now ?s1 = (s2, r2)" by force
    obtain s3 r3 where f: "flush_writes ops eid s2 = (s3, r3)" by force
    have "queues_shrink s s2" using e [of a] c by (simp add: queues_shrink_refl)
    moreover have "queues_shrink s2 s3" using flush_writes_shrink [of s2 ops eid] f by simp
    moreover have "queues_shrink s3 (fst (poll_groups ops eid a now (groups_for_endpoint (d_index s3) eid) (Ok ()) s3))"
      by (rule queues_shrink_refl) simp
    ultimately show ?thesis
      unfolding c f by (cases r2; cases r3) (auto simp: c f intro: queues_shrink_trans)
  qed
  moreover have "queues_shrink s ?s1" by (rule queues_shrink_refl) simp
  ultimately have "queues_shrink s (fst (case map_of (d_transports ?s1) eid of
      Some (Some a) \<Rightarrow> ?f a
    | _ \<Rightarrow> (?s1, Err (dispatcher_error EC_NotFound ''transport not bound'' False))))"
    by (auto split: option.split)
  then show ?thesis
    by (simp add: poll_due_def Let_def case_prod_unfold queues_shrink_def queue_of_def fst_log_failure
        cong: option.case_cong)
qed

lemma poll_chain_frame [simp]: "d_write_queues (fst (poll_chain ops a now bs fe s)) = d_write_queues s"
proof (induction bs arbitrary: fe s)
  case (Cons b bs)
  then show ?case
    using poll_tag_async_frame(8) [of ops b a now s]
    by (cases "poll_tag_async ops b a now s"; cases "snd (poll_tag_async ops b a now s)") simp_all
qed simp

lemma collect_due_frame [simp]: "d_write_queues (fst (collect_due eid now gs s)) = d_write_queues s"
  by (induction gs arbitrary: s) (simp_all add: case_prod_unfold split: result.split)

lemma run_polls_shrink: "queues_shrink s (fst (run_polls ops eid a now s))"
proof -
  obtain s2 r2 where f: "flush_writes ops eid s = (s2, r2)" by force
  obtain s3 r3 where c: "collect_due eid now (groups_for_endpoint (d_index s2) eid) s2 = (s3, r3)" by force
  have s2: "queues_shrink s s2" using flush_writes_shrink [of s ops eid] f by simp
  have s3: "queues_shrink s s3" 
    using collect_due_frame [of eid now "groups_for_endpoint (d_index s2) eid" s2] c s2
    by (auto intro: queues_shrink_trans queues_shrink_refl)
  have "queues_shrink s (fst (poll_chain ops a now bs (Ok ()) s3))" for bs
    by (rule queues_shrink_trans [OF s3 queues_shrink_refl]) simp
  with s2 s3 show ?thesis
    unfolding run_polls_def f by (cases r2; cases r3) (auto simp: c)
qed

lemma poll_due_async_shrink: "queues_shrink s (fst (poll_due_async ops eid now s))"
proof -
  let ?sp = "snd (start_span ''modbus.poll'' s)"
  let ?s1 = "span_log ?sp (SpanAttribute ''async'' ''true'')
      (span_log ?sp (SpanAttribute ''endpoint_id'' eid) (fst (start_span ''modbus.poll'' s)))"
  have "queues_shrink s (fst (case ensure_connected ops eid a now ?s1 of
          (s, Ok _) \<Rightarrow> run_polls ops eid a now s | (s, r) \<Rightarrow> (s, r)))" (is "queues_shrink s (fst (?f a))") for a
  proof -
    obtain s2 r2 where c: "ensure_connected ops eid a now ?s1 = (s2, r2)" by force
    have "d_write_queues (fst (ensure_connected ops eid a now ?s1)) = d_write_queues s" by simp
    then have "queues_shrink s s2" using c by (simp add: queues_shrink_refl)
    then show ?thesis
      unfolding c using run_polls_shrink [of s2 ops eid a now] by (cases r2) (auto intro: queues_shrink_trans)
  qed
  moreover have "queues_shrink s ?s1" by (rule queues_shrink_refl) simp
  ultimately have "queues_shrink s (fst (case map_of (d_transports ?s1) eid of
      Some (Some a) \<Rightarrow> ?f a
    | _ \<Rightarrow> (?s1, Err (dispatcher_error EC_NotFound ''transport not bound'' False))))"
    by (auto split: option.split)
  then show ?thesis
    by (simp add: poll_due_async_def Let_def case_prod_unfold queues_shrink_def queue_of_def fst_log_failure
        cong: option.case_cong)
qed

lemma enqueue_write_bounded:
  assumes "queues_bounded s" shows "queues_bounded (fst (enqueue_write i v s))"
  using assms
  by (auto simp: enqueue_write_def queues_bounded_def Let_def split: result.split option.split)

lemma dispatcher_step_bounded:
  assumes "dispatcher_step ops s s'" "queues_bounded s" shows "queues_bounded s'"
  using assms(1)
proof cases
  case (Step_bind eid t)
  then show ?thesis using assms(2) by (simp add: queues_bounded_def bind_transport_def queue_of_def)
next
  case (Step_enqueue i v)
  then show ?thesis using assms(2) by (simp add: enqueue_write_bounded)
next
  case (Step_flush eid)
  then show ?thesis using queues_shrink_bounded [OF assms(2) flush_writes_shrink] by simp
next
  case (Step_poll eid now)
  then show ?thesis using queues_shrink_bounded [OF assms(2) poll_due_shrink] by simp
next
  case (Step_poll_async eid now)
  then show ?thesis using queues_shrink_bounded [OF assms(2) poll_due_async_shrink] by simp
next
  case (Step_mark_bad eid reason now)
  then show ?thesis using assms(2) by (simp add: queues_bounded_def queue_of_def)
qed


text \<open>
  The bound does not survive a write that another thread enqueues while a flush is under way:
  the flush has taken the full batch out, the enqueue succeeds, and when the flush then fails it
  puts the rest of the batch back in front of the new write without looking at the limit.
\<close>

theorem write_queue_overrun:
  assumes "find_by_id (d_index s) i = Ok (Some b)" "tag_writable (tb_tag b)" "tb_endpoint_id b = eid"
    and "length (queue_of s eid) = kMaxWriteQueueDepth"
  shows "snd (enqueue_write i v (set_queue eid [] s)) = Ok () \<and>
    length (queue_of (requeue eid (queue_of s eid) (fst (enqueue_write i v (set_queue eid [] s)))) eid) =
      kMaxWriteQueueDepth + 1"
proof -
  have "0 < kMaxWriteQueueDepth" by (simp add: kMaxWriteQueueDepth_def)
  with assms show ?thesis by (simp add: enqueue_write_def Let_def)
qed

section \<open>What a flush does with every write\<close>

text \<open>The value a confirmed write leaves in the store.\<close>

definition confirmed :: "scalar_value \<Rightarrow> timestamp_ms \<Rightarrow> tag_value option \<Rightarrow> tag_value" where
  "confirmed v now old = (with_quality old Good QR_None now)\<lparr>tv_value := v, tv_source_ts := now\<rparr>"

lemma confirmed_confirmed [simp]: "confirmed v now (Some (confirmed w now old)) = confirmed v now old"
  by (cases old) (simp_all add: confirmed_def with_quality_Some with_quality_None)

definition last_write :: "tag_id \<Rightarrow> pending_write list \<Rightarrow> pending_write option" where
  "last_write i ws = find (\<lambda>w. pw_tag_id w = i) (rev ws)"

lemma last_write_Nil [simp]: "last_write i [] = None"
  by (simp add: last_write_def)

lemma last_write_Cons:
  "last_write i (w # ws) = (case last_write i ws of Some x \<Rightarrow> Some x
     | None \<Rightarrow> if pw_tag_id w = i then Some w else None)"
  by (simp add: last_write_def find_append split: option.split)

lemma tag_of_confirm_writes:
  assumes "d_has_store s"
  shows "tag_of (confirm_writes now ws s) i =
    (case last_write i ws of None \<Rightarrow> tag_of s i | Some w \<Rightarrow> Some (confirmed (pw_value w) now (tag_of s i)))"
  using assms
proof (induction ws arbitrary: s)
  case (Cons w ws)
  let ?s = "publish_quality (pw_tag_id w) Good QR_None now (Some (pw_value w)) s"
  have c: "confirm_writes now (w # ws) s = confirm_writes now ws ?s" by (simp add: confirm_writes_def)
  show ?case unfolding c using Cons.IH [of ?s] Cons.prems
    by (auto simp: last_write_Cons store_simps confirmed_def [symmetric] split: option.split)
qed (simp add: confirm_writes_def)

definition known_write :: "runtime_index \<Rightarrow> pending_write \<Rightarrow> bool" where
  "known_write ix w \<longleftrightarrow> (\<exists>b. find_by_id ix (pw_tag_id w) = Ok (Some b))"

lemma confirm_writes_Cons:
  "confirm_writes now (w # ws) s =
     confirm_writes now ws (publish_quality (pw_tag_id w) Good QR_None now (Some (pw_value w)) s)"
  by (simp add: confirm_writes_def)

lemma confirm_writes_append: "confirm_writes now (xs @ ys) s = confirm_writes now ys (confirm_writes now xs s)"
  by (simp add: confirm_writes_def)

lemma merge_coils_known:
  "merge_coils ix u n bits ms ps = Merged bits'' ms' rest \<Longrightarrow> \<forall>w\<in>set ms. known_write ix w \<Longrightarrow>
     \<forall>w\<in>set ms'. known_write ix w"
proof (induction ps arbitrary: n bits ms)
  case (Cons p ps)
  from Cons.prems(1) consider "ms' = ms"
    | b n' bits' where "find_by_id ix (pw_tag_id p) = Ok (Some b)"
        "merge_coils ix u n' bits' (ms @ [p]) ps = Merged bits'' ms' rest"
    by (auto split: result.splits option.splits if_splits)
  then show ?case
  proof cases
    case 2
    then have "\<forall>w\<in>set (ms @ [p]). known_write ix w" using Cons.prems(2) by (auto simp: known_write_def)
    with Cons.IH [OF 2(2)] show ?thesis by blast
  qed (use Cons.prems(2) in simp)
qed simp

lemma write_head_known:
  assumes "write_head ops a p ps s = Sent s' wr ms rest"
  shows "\<forall>w\<in>set ms. known_write (d_index s) w"
  using assms
  by (auto simp: write_head_def Let_def split: result.splits option.splits if_splits prod.splits
      merge_result.splits dest!: merge_coils_known) (auto simp: known_write_def)

lemma write_head_skip: "write_head ops a p ps s = Skip \<Longrightarrow> \<not> known_write (d_index s) p"
  by (auto simp: write_head_def known_write_def Let_def split: result.splits option.splits if_splits prod.splits
      merge_result.splits)

lemma store_heap_irrelevant:
  "d_store (confirm_writes now ws (s\<lparr>d_heap := h\<rparr>)) = d_store (confirm_writes now ws s)"
proof -
  have p: "publish_quality i q r now v (s\<lparr>d_heap := h\<rparr>) = (publish_quality i q r now v s)\<lparr>d_heap := h\<rparr>" for i q r v s
    by (simp add: publish_quality_def store_publish_def Let_def case_prod_unfold)
  have "confirm_writes now ws (s\<lparr>d_heap := h\<rparr>) = (confirm_writes now ws s)\<lparr>d_heap := h\<rparr>"
    by (induction ws arbitrary: s) (simp_all add: confirm_writes_def p)
  then show ?thesis by simp
qed

lemma confirm_writes_store_cong:
  "d_store s = d_store s' \<Longrightarrow> d_has_store s = d_has_store s' \<Longrightarrow>
   d_store (confirm_writes now ws s) = d_store (confirm_writes now ws s')"
proof (induction ws arbitrary: s s')
  case (Cons w ws)
  show ?case unfolding confirm_writes_Cons
    by (rule Cons.IH) (use Cons.prems in \<open>simp_all add: publish_quality_def store_publish_def Let_def case_prod_unfold\<close>)
qed (simp add: confirm_writes_def)

lemma flush_loop_Ok:
  assumes "snd (flush_loop ops eid a now sp ps s) = Ok ()"
  shows "d_store (fst (flush_loop ops eid a now sp ps s)) =
    d_store (confirm_writes now (filter (known_write (d_index s)) ps) s)"
  using assms
proof (induction ops eid a now sp ps s rule: flush_loop.induct)
  case (2 ops eid a now sp p ps s)
  show ?case
  proof (cases "write_head ops a p ps s")
    case Skip
    then show ?thesis using 2(1) [OF Skip] 2(3) write_head_skip [OF Skip] by simp
  next
    case (Sent s' wr ms rest)
    obtain h where s': "s' = s\<lparr>d_heap := h\<rparr>" using write_head_frame [OF Sent] .
    obtain c where c: "ms = p # c" "ps = c @ rest" using write_head_split [OF Sent] by blast
    from 2(3) Sent obtain u where wr: "wr = Ok u" by (cases wr) auto
    let ?k = "known_write (d_index s)"
    have "filter ?k (p # ps) = ms @ filter ?k rest"
      using write_head_known [OF Sent] c by (auto simp: filter_id_conv)
    moreover have "d_store (fst (flush_loop ops eid a now sp rest (confirm_writes now ms s'))) =
        d_store (confirm_writes now (filter ?k rest) (confirm_writes now ms s'))"
      using 2(2) [OF Sent wr] 2(3) Sent wr by (simp add: s')
    moreover have "d_store (confirm_writes now ms s') = d_store (confirm_writes now ms s)"
      by (simp add: s' store_heap_irrelevant)
    ultimately show ?thesis
      using Sent wr confirm_writes_store_cong [of "confirm_writes now ms s'" "confirm_writes now ms s" now "filter ?k rest"]
      by (simp add: confirm_writes_append s')
  qed (use 2(3) in simp_all)
qed (simp add: confirm_writes_def)

lemma flush_writes_loop:
  assumes "queue_of s eid \<noteq> []" "map_of (d_transports s) eid = Some (Some a)"
  obtains now sp s3 where "flush_writes ops eid s = flush_loop ops eid a now sp (queue_of s eid) s3"
    "d_store s3 = d_store s" "d_has_store s3 = d_has_store s" "d_index s3 = d_index s"
    "d_heap s3 = d_heap s" "queue_of s3 eid = []"
    "now = (if d_has_clock s then d_clock s (d_clock_reads s) else 0)"
proof -
  let ?s1 = "metric (GaugeSet ''modbus_write_queue_depth'' 0) (set_queue eid [] s)"
  let ?sp = "snd (start_span ''modbus.write'' ?s1)"
  let ?s2 = "span_log ?sp (SpanCount ''write_count'' (int (length (queue_of s eid))))
      (span_log ?sp (SpanAttribute ''endpoint_id'' eid) (fst (start_span ''modbus.write'' ?s1)))"
  let ?c = "if d_has_clock s then now_ms ?s2 else (?s2, 0)"
  have "flush_writes ops eid s = flush_loop ops eid a (snd ?c) ?sp (queue_of s eid) (fst ?c)"
    using assms by (simp add: flush_writes_def Let_def case_prod_unfold)
  moreover have "snd ?c = (if d_has_clock s then d_clock s (d_clock_reads s) else 0)"
    by (simp add: now_ms_def)
  ultimately show thesis by (intro that [of "snd ?c" ?sp "fst ?c"]) auto
qed

text \<open>
  C17: A flush that succeeds empties the queue of its endpoint and confirms every queued write of a
  known tag: afterwards the store holds, for each of these tags, the value of the last write queued
  for it, with quality Good and the flush time; every other tag keeps its value.
\<close>

theorem flush_writes_success:
  assumes "flush_writes ops eid s = (s', Ok ())" "d_has_store s"
    and "now = (if d_has_clock s then d_clock s (d_clock_reads s) else 0)"
  shows "queue_of s' eid = [] \<and>
    tag_of s' i = (case last_write i (filter (known_write (d_index s)) (queue_of s eid)) of
        None \<Rightarrow> tag_of s i
      | Some w \<Rightarrow> Some (confirmed (pw_value w) now (tag_of s i)))"
proof (intro conjI)
  obtain dn rest where "snd (flush_writes ops eid s) = Ok () \<longrightarrow> rest = []"
      "\<forall>e. queue_of (fst (flush_writes ops eid s)) e = (if e = eid then rest else queue_of s e)"
    using flush_writes_queue [of s eid ops] by auto
  with assms(1) show "queue_of s' eid = []" by simp
  show "tag_of s' i = (case last_write i (filter (known_write (d_index s)) (queue_of s eid)) of
        None \<Rightarrow> tag_of s i | Some w \<Rightarrow> Some (confirmed (pw_value w) now (tag_of s i)))"
  proof (cases "queue_of s eid = []")
    case True
    then show ?thesis using assms(1) by (simp add: flush_writes_def)
  next
    case False
    obtain a where a: "map_of (d_transports s) eid = Some (Some a)"
    proof (cases "map_of (d_transports s) eid")
      case (Some p)
      then show thesis using assms(1) False that
        by (cases p) (simp_all add: flush_writes_def Let_def case_prod_unfold)
    qed (use assms(1) False in \<open>simp add: flush_writes_def Let_def case_prod_unfold\<close>)
    obtain now' sp s3 where f: "flush_writes ops eid s = flush_loop ops eid a now' sp (queue_of s eid) s3"
      and s3: "d_store s3 = d_store s" "d_has_store s3 = d_has_store s" "d_index s3 = d_index s"
        "now' = (if d_has_clock s then d_clock s (d_clock_reads s) else 0)"
      using flush_writes_loop [OF False a] by metis
    have "tag_of s' i = tag_of (confirm_writes now' (filter (known_write (d_index s)) (queue_of s eid)) s3) i"
      using flush_loop_Ok [of ops eid a now' sp "queue_of s eid" s3] assms(1) f s3(3) by simp
    also have "\<dots> = (case last_write i (filter (known_write (d_index s)) (queue_of s eid)) of
        None \<Rightarrow> tag_of s i | Some w \<Rightarrow> Some (confirmed (pw_value w) now (tag_of s i)))"
    proof -
      have "now' = now" using assms(3) s3(4) by simp
      then show ?thesis
        using assms(2) s3(2) by (simp add: tag_of_confirm_writes s3(1) split: option.split)
    qed
    finally show ?thesis .
  qed
qed

section \<open>Failed flushes\<close>

text \<open>Every queued coil write can be encoded.\<close>

definition coil_encodable :: "runtime_index \<Rightarrow> pending_write \<Rightarrow> bool" where
  "coil_encodable ix w \<longleftrightarrow>
     (case find_by_id ix (pw_tag_id w) of
        Ok (Some b) \<Rightarrow> tag_area (tb_tag b) \<noteq> Coil \<or> is_ok (encode (tb_tag b) (pw_value w))
      | _ \<Rightarrow> True)"

abbreviation coils_encodable :: "runtime_index \<Rightarrow> pending_write list \<Rightarrow> bool" where
  "coils_encodable ix \<equiv> list_all (coil_encodable ix)"

lemma merge_coils_encodable: "coils_encodable ix ps \<Longrightarrow> merge_coils ix u n bits ms ps \<noteq> MergeError q rest e"
proof (induction ps arbitrary: n bits ms)
  case (Cons p ps)
  then show ?case
    by (auto simp: coil_encodable_def split: result.splits option.splits if_splits)
qed simp

lemma write_head_encode_failed:
  assumes "write_head ops a p ps s = EncodeFailed q rest e" "coils_encodable (d_index s) ps"
  shows "q = p \<and> rest = ps"
  using assms merge_coils_encodable [OF assms(2)]
  by (auto simp: write_head_def Let_def split: result.splits option.splits if_splits prod.splits
      merge_result.splits)

lemma tag_of_fail_write:
  assumes "d_has_store s"
  shows "tag_of (fst (fail_write eid now sp p r rest e s)) i =
    (if i = pw_tag_id p then Some (with_quality (tag_of s i) Bad r now) else tag_of s i)"
  using assms by (auto simp: fail_write_def Let_def store_simps)

definition rejected_at ::
  "runtime_index \<Rightarrow> timestamp_ms \<Rightarrow> pending_write list \<Rightarrow> pending_write list \<Rightarrow> pending_write \<Rightarrow>
     (tag_id \<Rightarrow> tag_value option) \<Rightarrow> (tag_id \<Rightarrow> tag_value option) \<Rightarrow> bool" where
  "rejected_at ix now ps dn p old new \<longleftrightarrow>
     (\<exists>rest r. ps = dn @ p # rest \<and> r \<in> {QR_DecodingError, QR_WriteRejected} \<and>
       (\<forall>i. new i =
         (let cur = (case last_write i (filter (known_write ix) dn) of
                None \<Rightarrow> old i | Some w \<Rightarrow> Some (confirmed (pw_value w) now (old i)))
          in if i = pw_tag_id p then Some (with_quality cur Bad r now) else cur)))"

lemma last_write_append:
  "last_write i (xs @ ys) = (case last_write i ys of Some w \<Rightarrow> Some w | None \<Rightarrow> last_write i xs)"
  by (simp add: last_write_def find_append split: option.split)

lemma flush_loop_Err:
  assumes "snd (flush_loop ops eid a now sp ps s) = Err e" "coils_encodable (d_index s) ps" "d_has_store s"
  shows "\<exists>dn p. rejected_at (d_index s) now ps dn p (tag_of s) (tag_of (fst (flush_loop ops eid a now sp ps s))) \<and>
    queue_of (fst (flush_loop ops eid a now sp ps s)) eid = drop (Suc (length dn)) ps @ queue_of s eid"
  using assms
proof (induction ops eid a now sp ps s rule: flush_loop.induct)
  case (2 ops eid a now sp p ps s)
  let ?k = "known_write (d_index s)"
  have ce: "coils_encodable (d_index s) ps" using 2(4) by simp
  show ?case
  proof (cases "write_head ops a p ps s")
    case Skip
    obtain dn q where "rejected_at (d_index s) now ps dn q (tag_of s) (tag_of (fst (flush_loop ops eid a now sp ps s)))"
        "queue_of (fst (flush_loop ops eid a now sp ps s)) eid = drop (Suc (length dn)) ps @ queue_of s eid"
      using 2(1) [OF Skip] 2(3,5) Skip ce by auto
    then show ?thesis
      using Skip write_head_skip [OF Skip] by (intro exI [of _ "p # dn"] exI [of _ q]) (auto simp: rejected_at_def)
  next
    case (EncodeFailed q rest e')
    then have q: "q = p" "rest = ps" using write_head_encode_failed ce by blast+
    show ?thesis
      using EncodeFailed q 2(5)
      by (intro exI [of _ "[]"] exI [of _ p]) (auto simp: rejected_at_def tag_of_fail_write)
  next
    case (Sent s' wr ms rest)
    obtain h where s': "s' = s\<lparr>d_heap := h\<rparr>" using write_head_frame [OF Sent] .
    obtain c where c: "ms = p # c" "ps = c @ rest" using write_head_split [OF Sent] by blast
    show ?thesis
    proof (cases wr)
      case (Ok u)
      let ?s2 = "confirm_writes now ms s'"
      have ix: "d_index ?s2 = d_index s" "d_has_store ?s2" using 2(5) by (simp_all add: s')
      obtain dn q where r: "rejected_at (d_index s) now rest dn q (tag_of ?s2) (tag_of (fst (flush_loop ops eid a now sp rest ?s2)))"
          "queue_of (fst (flush_loop ops eid a now sp rest ?s2)) eid = drop (Suc (length dn)) rest @ queue_of ?s2 eid"
        using 2(2) [OF Sent Ok] 2(3) Sent Ok ce c ix by auto
      have cur: "(case last_write i (filter ?k dn) of None \<Rightarrow> tag_of ?s2 i | Some w \<Rightarrow> Some (confirmed (pw_value w) now (tag_of ?s2 i))) =
          (case last_write i (filter ?k (ms @ dn)) of None \<Rightarrow> tag_of s i | Some w \<Rightarrow> Some (confirmed (pw_value w) now (tag_of s i)))" for i
      proof -
        have "filter ?k ms = ms" using write_head_known [OF Sent] by (auto simp: filter_id_conv)
        moreover have "tag_of ?s2 i = (case last_write i ms of None \<Rightarrow> tag_of s i | Some w \<Rightarrow> Some (confirmed (pw_value w) now (tag_of s i)))"
          using 2(5) by (simp add: tag_of_confirm_writes s' split: option.split)
        ultimately show ?thesis by (auto simp: last_write_append split: option.split)
      qed
      have "rejected_at (d_index s) now (p # ps) (ms @ dn) q (tag_of s) (tag_of (fst (flush_loop ops eid a now sp rest ?s2)))"
        using r(1) c unfolding rejected_at_def cur by auto
      then show ?thesis
        using Sent Ok r(2) c by (intro exI [of _ "ms @ dn"] exI [of _ q]) (simp add: s')
    next
      case (Err e')
      then show ?thesis using Sent s' 2(5)
        by (intro exI [of _ "[]"] exI [of _ p]) (auto simp: rejected_at_def tag_of_fail_write)
    qed (use 2(3) Sent in simp)
  qed (use 2(3) in simp)
qed simp

text \<open>
  C18: A flush that fails loses no write: the batch splits into writes that were sent and confirmed
  (in queue order), one write whose tag is published Bad with the reason of the failure, and the
  writes after it, which are back in the queue. The condition is that every queued coil write can
  be encoded.
\<close>

theorem flush_writes_failure:
  assumes "flush_writes ops eid s = (s', Err e)" "map_of (d_transports s) eid = Some (Some a)"
    and "coils_encodable (d_index s) (queue_of s eid)" "d_has_store s"
    and "now = (if d_has_clock s then d_clock s (d_clock_reads s) else 0)"
  shows "\<exists>dn p. rejected_at (d_index s) now (queue_of s eid) dn p (tag_of s) (tag_of s') \<and>
    queue_of s' eid = drop (Suc (length dn)) (queue_of s eid)"
proof -
  have "queue_of s eid \<noteq> []" using assms(1) by (auto simp: flush_writes_def)
  then obtain now' sp s3 where f: "flush_writes ops eid s = flush_loop ops eid a now' sp (queue_of s eid) s3"
    and s3: "d_store s3 = d_store s" "d_has_store s3 = d_has_store s" "d_index s3 = d_index s"
      "queue_of s3 eid = []" "now' = (if d_has_clock s then d_clock s (d_clock_reads s) else 0)"
    using flush_writes_loop [OF _ assms(2)] by metis
  have n: "now' = now" using assms(5) s3(5) by simp
  have l: "flush_loop ops eid a now sp (queue_of s eid) s3 = (s', Err e)" using assms(1) f n by simp
  show ?thesis
    using flush_loop_Err [of ops eid a now sp "queue_of s eid" s3 e] assms(3,4) s3(1-4) by (simp add: l)
qed

section \<open>Lost coil writes\<close>

text \<open>
  The condition of the previous theorem is needed. Two adjacent coils of one unit, a good write for
  the first and a write that cannot be encoded for the second: the flush fails, the first write is
  neither sent, nor kept in the queue, nor reported on its tag.
\<close>

theorem flush_loses_merged_coil:
  assumes "queue_of s eid = [w1, w2]" "map_of (d_transports s) eid = Some (Some a)"
    and "find_by_id (d_index s) (pw_tag_id w1) = Ok (Some b1)" "find_by_id (d_index s) (pw_tag_id w2) = Ok (Some b2)"
    and "pw_tag_id w1 \<noteq> pw_tag_id w2"
    and "tag_area (tb_tag b1) = Coil" "tag_area (tb_tag b2) = Coil" "tb_unit_id b2 = tb_unit_id b1"
    and "0 \<le> tag_address (tb_tag b1)" "tag_address (tb_tag b1) < 65536"
    and "tag_address (tb_tag b2) = tag_address (tb_tag b1) + int (length rs)"
    and "encode (tb_tag b1) (pw_value w1) = Ok rs" "encode (tb_tag b2) (pw_value w2) = Err e"
  shows "snd (flush_writes ops eid s) = Err e \<and> d_heap (fst (flush_writes ops eid s)) = d_heap s \<and>
    queue_of (fst (flush_writes ops eid s)) eid = [] \<and>
    tag_of (fst (flush_writes ops eid s)) (pw_tag_id w1) = tag_of s (pw_tag_id w1)"
proof -
  have addr: "int (unat (word_of_int (tag_address (tb_tag b1)) :: u16)) = tag_address (tb_tag b1)"
    using assms(9,10) uint_nat [of "word_of_int (tag_address (tb_tag b1)) :: u16", symmetric]
    by (simp add: uint_word_of_int)
  obtain now sp s3 where f: "flush_writes ops eid s = flush_loop ops eid a now sp (queue_of s eid) s3"
    and s3: "d_store s3 = d_store s" "d_has_store s3 = d_has_store s" "d_index s3 = d_index s"
      "d_heap s3 = d_heap s" "queue_of s3 eid = []"
    using flush_writes_loop [OF _ assms(2)] assms(1) by (metis list.distinct(1))
  have "write_head ops a w1 [w2] s3 = EncodeFailed w2 [] e"
    using assms addr by (simp add: write_head_def s3(3) Let_def)
  then have l: "flush_loop ops eid a now sp [w1, w2] s3 = fail_write eid now sp w2 QR_DecodingError [] e s3"
    by simp
  have "tag_of (fst (fail_write eid now sp w2 QR_DecodingError [] e s3)) (pw_tag_id w1) = tag_of s (pw_tag_id w1)"
    using assms(5) s3(1) by (simp add: fail_write_def Let_def store_simps)
  moreover have "d_heap (fst (fail_write eid now sp w2 QR_DecodingError [] e s3)) = d_heap s"
    by (simp add: s3(4) fail_write_def Let_def)
  ultimately show ?thesis
    unfolding f assms(1) l by (simp add: s3(5))
qed

section \<open>Endpoint failures\<close>

lemma tag_of_fold_quality:
  "d_has_store s \<Longrightarrow> tag_of (fold (\<lambda>b. publish_quality (tb_id b) Bad r now None) bs s) i =
     (if i \<in> tb_id ` set bs then Some (with_quality (tag_of s i) Bad r now) else tag_of s i)"
proof (induction bs arbitrary: s)
  case (Cons b bs)
  then show ?case by (auto simp: store_simps)
qed simp

text \<open>
  Marking an endpoint bad turns exactly its tags Bad with the given reason and keeps the last
  value and source time of each; the tags of other endpoints do not change.
\<close>

theorem mark_endpoint_bad_spec:
  assumes "d_has_store s"
  shows "tag_of (mark_endpoint_bad eid reason now s) i =
    (if \<exists>b\<in>set (ri_tags (d_index s)). tb_id b = i \<and> tb_endpoint_id b = eid
     then Some (with_quality (tag_of s i) Bad reason now) else tag_of s i)"
  using assms by (auto simp: mark_endpoint_bad_def mark_endpoint_bad_fold tag_of_fold_quality)

section \<open>A sample dispatcher\<close>

text \<open>One device with a holding-register flag and two adjacent coils, on the simulated slave.\<close>

definition lab_tag :: "string \<Rightarrow> area \<Rightarrow> int \<Rightarrow> tag" where
  "lab_tag n ar addr = \<lparr>tag_name = n, tag_node_path = [], tag_area = ar, tag_address = addr,
     tag_ty = TBool, tag_quantity = None, tag_byte_order = [], tag_scale = FNaN, tag_offset = FNaN,
     tag_unit = [], tag_writable = True, tag_group = [], tag_description = []\<rparr>"

definition lab_endpoint :: endpoint where
  "lab_endpoint = \<lparr>ep_id = ''e'', ep_host = ''h'', ep_port = 502, ep_transport = Tcp,
     ep_connect_timeout_ms = 1, ep_response_timeout_ms = 1, ep_reconnect_delay_ms = 1\<rparr>"

definition lab_device :: device where
  "lab_device = \<lparr>dev_id = ''d'', dev_endpoint_id = ''e'', dev_unit_id = 1, dev_profile_id = [],
     dev_description = [], dev_tags = [lab_tag ''r'' Holding 0, lab_tag ''c1'' Coil 10, lab_tag ''c2'' Coil 11]\<rparr>"

definition lab_group :: poll_group where
  "lab_group = \<lparr>grp_id = ''g'', grp_period_ms = 1000, grp_priority = Normal, grp_device_id = ''d'',
     grp_blocks = [], grp_tag_names = []\<rparr>"

definition lab_project :: project where
  "lab_project = \<lparr>prj_schema_version = 1, prj_name = [], prj_description = [], prj_address_base = 0,
     prj_opcua = default_opc_ua_settings, prj_endpoints = [lab_endpoint], prj_device_profiles = [],
     prj_devices = [lab_device], prj_poll_groups = [lab_group]\<rparr>"

definition lab :: "(fake_transport, unit) dispatcher" where
  "lab = \<lparr>d_index = build lab_project, d_has_store = True, d_has_clock = True, d_has_metrics = True,
     d_has_tracer = False, d_transports = [(''e'', Some 0)], d_last_poll_ms = [], d_write_queues = [],
     d_store = empty_tag_store, d_calls = [], d_heap = (\<lambda>_. fake_new\<lparr>fk_connected := True\<rparr>),
     d_clock = (\<lambda>_. 7), d_clock_reads = 0, d_metrics = [], d_spans = []\<rparr>"

definition lab_write :: "tag_id \<Rightarrow> scalar_value \<Rightarrow> pending_write" where
  "lab_write i v = \<lparr>pw_tag_id = i, pw_value = v\<rparr>"

definition lab_binding :: tag_binding where
  "lab_binding = \<lparr>tb_id = 1, tb_device_id = ''d'', tb_endpoint_id = ''e'', tb_unit_id = 1,
     tb_tag = lab_tag ''r'' Holding 0\<rparr>"

lemma lab_index: "d_index lab = \<lparr>ri_project = lab_project, ri_tags = [
   \<lparr>tb_id = 1, tb_device_id = ''d'', tb_endpoint_id = ''e'', tb_unit_id = 1, tb_tag = lab_tag ''r'' Holding 0\<rparr>,
   \<lparr>tb_id = 2, tb_device_id = ''d'', tb_endpoint_id = ''e'', tb_unit_id = 1, tb_tag = lab_tag ''c1'' Coil 10\<rparr>,
   \<lparr>tb_id = 3, tb_device_id = ''d'', tb_endpoint_id = ''e'', tb_unit_id = 1, tb_tag = lab_tag ''c2'' Coil 11\<rparr>],
   ri_by_id = [(1, 0), (2, 1), (3, 2)], ri_by_name = [(''r'', 0), (''c1'', 1), (''c2'', 2)]\<rparr>"
  by (simp add: lab_def build_def lab_project_def lab_device_def build_tag_def emplace_def lab_tag_def)

lemma lab_simps [simp]:
  "d_has_store lab" "d_has_clock lab" "d_has_metrics lab" "\<not> d_has_tracer lab" "d_transports lab = [(''e'', Some 0)]"
  "d_last_poll_ms lab = []" "d_write_queues lab = []" "d_store lab = empty_tag_store"
  "d_heap lab = (\<lambda>_. fake_new\<lparr>fk_connected := True\<rparr>)" "d_clock lab = (\<lambda>_. 7)" "d_clock_reads lab = 0"
  by (simp_all add: lab_def)

lemma lab_lookup [simp]:
  "find_by_id (d_index lab) 1 = Ok (Some lab_binding)"
  "find_by_id (d_index lab) 2 = Ok (Some (lab_binding\<lparr>tb_id := 2, tb_tag := lab_tag ''c1'' Coil 10\<rparr>))"
  "find_by_id (d_index lab) 3 = Ok (Some (lab_binding\<lparr>tb_id := 3, tb_tag := lab_tag ''c2'' Coil 11\<rparr>))"
  by (simp_all add: lab_index find_by_id_def lab_binding_def)

lemma lab_tag_simps [simp]:
  "tag_area (lab_tag n ar addr) = ar" "tag_address (lab_tag n ar addr) = addr" "tag_ty (lab_tag n ar addr) = TBool"
  "tag_quantity (lab_tag n ar addr) = None" "tag_writable (lab_tag n ar addr)" "regs_for (lab_tag n ar addr) = 1"
  by (simp_all add: lab_tag_def regs_for_def)

lemma lab_encode [simp]: "encode (lab_tag n ar addr) (SBool b) = Ok [if b then 1 else 0]"
  "encode (lab_tag n ar addr) (SU16 w) = translator_error EC_InvalidArgument ''bool expected''"
  by (simp_all add: encode_def encode_bool_def)

lemma lab_poll_result: "snd (poll_tag fake_ops lab_binding 0 5 lab) = Ok ()"
  by (simp add: poll_tag_result area_read_def lab_binding_def fake_ops_def fake_guarded_read_def
      consume_failure_def fake_read_def fake_new_def poll_outcome_def decode_def ensure_count_def decode_bool_def Let_def)

theorem poll_tag_outcome_witness:
  "snd (poll_tag fake_ops lab_binding 0 5 lab) = poll_outcome lab_binding (snd (area_read fake_ops lab_binding (d_heap lab 0))) \<and>
    tag_of (fst (poll_tag fake_ops lab_binding 0 5 lab)) (tb_id lab_binding) =
      Some (polled_value (poll_failure_reason lab_binding) lab_binding 5 (snd (area_read fake_ops lab_binding (d_heap lab 0)))
        (tag_of lab (tb_id lab_binding))) \<and>
    (\<forall>j. j = tb_id lab_binding \<or> tag_of (fst (poll_tag fake_ops lab_binding 0 5 lab)) j = tag_of lab j)"
  by (rule poll_tag_outcome) (simp_all add: lab_poll_result)


theorem mark_endpoint_bad_spec_witness:
  "tag_of (mark_endpoint_bad ''e'' QR_NoCommunication 9 lab) 2 = Some (with_quality None Bad QR_NoCommunication 9)"
  using mark_endpoint_bad_spec [of lab "''e''" QR_NoCommunication 9 2]
  by (simp add: lab_index get_def empty_tag_store_def)

definition lab_full :: "(fake_transport, unit) dispatcher" where
  "lab_full = set_queue ''e'' (replicate 1024 (lab_write 1 (SBool True))) lab"

theorem write_queue_overrun_witness:
  "snd (enqueue_write 1 (SBool False) (set_queue ''e'' [] lab_full)) = Ok () \<and>
    length (queue_of (requeue ''e'' (queue_of lab_full ''e'')
      (fst (enqueue_write 1 (SBool False) (set_queue ''e'' [] lab_full)))) ''e'') = kMaxWriteQueueDepth + 1"
  by (rule write_queue_overrun [of _ _ lab_binding])
    (simp_all add: lab_full_def lab_binding_def [symmetric], simp_all add: lab_binding_def kMaxWriteQueueDepth_def)


definition lab_coils :: "(fake_transport, unit) dispatcher" where
  "lab_coils = set_queue ''e'' [lab_write 2 (SBool True), lab_write 3 (SU16 5)] lab"

theorem flush_loses_merged_coil_witness:
  "snd (flush_writes fake_ops ''e'' lab_coils) =
     Err (mk_error EC_InvalidArgument ''bool expected'' ''core.translator'' False) \<and>
   d_heap (fst (flush_writes fake_ops ''e'' lab_coils)) = d_heap lab_coils \<and>
   queue_of (fst (flush_writes fake_ops ''e'' lab_coils)) ''e'' = [] \<and>
   tag_of (fst (flush_writes fake_ops ''e'' lab_coils)) (pw_tag_id (lab_write 2 (SBool True))) =
     tag_of lab_coils (pw_tag_id (lab_write 2 (SBool True)))"
  by (rule flush_loses_merged_coil [where a = 0 and ?w2.0 = "lab_write 3 (SU16 5)" and rs = "[1]"
        and ?b1.0 = "lab_binding\<lparr>tb_id := 2, tb_tag := lab_tag ''c1'' Coil 10\<rparr>"
        and ?b2.0 = "lab_binding\<lparr>tb_id := 3, tb_tag := lab_tag ''c2'' Coil 11\<rparr>"])
    (simp_all add: lab_coils_def lab_write_def translator_error_def)

lemmas lab_fake = fake_ops_def fake_guarded_read_def consume_failure_def fake_read_def fake_new_def
  fake_write_single_coil_def fake_guarded_write_def fake_write_multiple_coils_def

definition lab_one :: "(fake_transport, unit) dispatcher" where
  "lab_one = set_queue ''e'' [lab_write 2 (SBool True)] lab"

lemma lab_one_flush: "snd (flush_writes fake_ops ''e'' lab_one) = Ok ()"
  by (simp add: flush_writes_def lab_one_def Let_def start_span_def metric_def now_ms_def write_head_def
      lab_write_def on_transport_def write_coils_def lab_fake regs_to_bits_def lab_binding_def [symmetric]
      set_queue_def queue_of_def)

theorem flush_writes_success_witness:
  "queue_of (fst (flush_writes fake_ops ''e'' lab_one)) ''e'' = [] \<and>
   tag_of (fst (flush_writes fake_ops ''e'' lab_one)) 2 = Some (confirmed (SBool True) 7 None)"
proof -
  have "flush_writes fake_ops ''e'' lab_one = (fst (flush_writes fake_ops ''e'' lab_one), Ok ())"
    using lab_one_flush by (metis prod.collapse)
  from flush_writes_success [OF this, of 7 2] show ?thesis
    by (simp add: lab_one_def known_write_def lab_write_def last_write_Cons get_def empty_tag_store_def)
qed

lemma lab_coils_flush: "flush_writes fake_ops ''e'' (set_queue ''e'' [lab_write 1 (SU16 5), lab_write 2 (SBool True)] lab) =
    (fst (flush_writes fake_ops ''e'' (set_queue ''e'' [lab_write 1 (SU16 5), lab_write 2 (SBool True)] lab)),
     translator_error EC_InvalidArgument ''bool expected'')"
  by (simp add: flush_writes_def Let_def start_span_def metric_def now_ms_def write_head_def
      lab_write_def translator_error_def lab_binding_def fail_write_def)

theorem flush_writes_failure_witness:
  "\<exists>dn p. rejected_at (d_index lab) 7 [lab_write 1 (SU16 5), lab_write 2 (SBool True)] dn p (tag_of lab)
      (tag_of (fst (flush_writes fake_ops ''e'' (set_queue ''e'' [lab_write 1 (SU16 5), lab_write 2 (SBool True)] lab)))) \<and>
    queue_of (fst (flush_writes fake_ops ''e'' (set_queue ''e'' [lab_write 1 (SU16 5), lab_write 2 (SBool True)] lab))) ''e'' =
      drop (Suc (length dn)) [lab_write 1 (SU16 5), lab_write 2 (SBool True)]"
  using flush_writes_failure [OF lab_coils_flush [unfolded translator_error_def], of 0 7]
  by (simp add: coil_encodable_def lab_write_def lab_binding_def)

lemma poll_tags_all_ok:
  assumes "d_has_store s" "d_has_clock s"
    and "list_all (\<lambda>b. fst (area_read ops b (d_heap s a)) = d_heap s a \<and>
      poll_outcome b (snd (area_read ops b (d_heap s a))) = Ok ()) bs"
  shows "snd (poll_tags ops a now bs (Ok ()) s) = Ok ()"
  using assms
proof (induction bs arbitrary: s)
  case (Cons b bs)
  then have "d_heap (fst (poll_tag ops b a now s)) = d_heap s" "snd (poll_tag ops b a now s) = Ok ()"
    by (simp_all add: poll_tag_result)
  moreover from this have "snd (poll_tags ops a now bs (Ok ()) (fst (poll_tag ops b a now s))) = Ok ()"
    using Cons.prems by (intro Cons.IH) simp_all
  ultimately show ?case
    by (cases "poll_tag ops b a now s") (simp add: first_error_def)
qed simp

lemma lab_poll_due: "snd (poll_due fake_ops ''e'' 5 lab) = Ok ()"
proof -
  have g: "groups_for_endpoint (d_index lab) ''e'' = [lab_group]"
    by (simp add: lab_index groups_for_endpoint_def ri_device_def lab_project_def lab_device_def lab_group_def)
  have t: "group_tags (d_index lab) lab_group = Ok (ri_tags (d_index lab))"
    by (simp add: lab_index group_tags_def implicit_group_tags_def lab_group_def lab_tag_def)
  have d: "ri_device (d_index lab) (grp_device_id lab_group) = Some lab_device"
    by (simp add: lab_index ri_device_def lab_project_def lab_device_def lab_group_def)
  have "snd (poll_tags fake_ops 0 5 (ri_tags (d_index lab)) (Ok ()) lab) = Ok ()"
    by (rule poll_tags_all_ok) (simp_all add: lab_index area_read_def lab_fake poll_outcome_def
        decode_def ensure_count_def decode_bool_def lab_tag_def bits_to_regs_def regs_for_def)
  then have p: "snd (poll_group fake_ops lab_group 0 5 lab) = Ok ()"
    by (simp add: poll_group_def d t)
  have "group_due ''e'' 5 lab_group lab" by (simp add: group_due_def)
  with p have "snd (poll_groups fake_ops ''e'' 0 5 [lab_group] (Ok ()) lab) = Ok ()"
    by (cases "poll_group fake_ops lab_group 0 5 lab") simp
  moreover have "tp_is_connected fake_ops (d_heap lab 0)" by (simp add: fake_ops_def)
  moreover have "queue_of lab ''e'' = []" by (simp add: queue_of_def)
  ultimately show ?thesis
    by (cases "poll_groups fake_ops ''e'' 0 5 [lab_group] (Ok ()) lab")
      (simp del: poll_groups.simps add: poll_due_def Let_def start_span_def ensure_connected_def flush_writes_def g)
qed


end
