(* ===== verification/Modbus_Protocol.thy ===== *)
theory Modbus_Protocol
  imports Domain
begin

text \<open>
  The Modbus application layer of \<open>Src/adapters/modbus_protocol.cpp\<close>: MBAP framing, the request
  PDUs, the response decoders and the read and write calls built from them. A transaction
  (\<open>ModbusTransact\<close>) is a state transformer: it takes the unit and the request PDU and returns the new
  state of the channel with the response PDU.
\<close>

section \<open>Framing\<close>

definition proto_err :: "error_code \<Rightarrow> string \<Rightarrow> bool \<Rightarrow> error" where
  "proto_err c m r = mk_error c m ''adapters.modbus'' r"

definition append_u16 :: "u8 list \<Rightarrow> u16 \<Rightarrow> u8 list" where
  "append_u16 out w = out @ [hi8 w, lo8 w]"

definition pack_mbap :: "u16 \<Rightarrow> u8 \<Rightarrow> u8 list \<Rightarrow> u8 list" where
  "pack_mbap transaction_id u pdu =
     (let req = append_u16 [] transaction_id;
          req = append_u16 req 0;
          req = append_u16 req (of_nat (1 + length pdu))
      in req @ [u] @ pdu)"

record unpacked_adu =
  adu_transaction_id :: u16
  adu_unit :: u8
  adu_pdu :: "u8 list"

definition unpack_adu :: "u8 list \<Rightarrow> unpacked_adu result" where
  "unpack_adu adu =
     (if length adu < 8 then Err (proto_err EC_Decoding ''short Modbus ADU'' False)
      else let len = unat (join8 (adu ! 4) (adu ! 5))
           in if len < 2 \<or> 6 + len \<noteq> length adu
              then Err (proto_err EC_Decoding ''bad MBAP length'' False)
              else if adu ! 7 AND 0x80 \<noteq> 0
              then let ex = (if len > 2 then int (unat (adu ! 8)) else -1)
                   in Err ((proto_err EC_ModbusException ''modbus exception'' True)
                           \<lparr>err_protocol_status := Some ex\<rparr>)
              else Ok \<lparr>adu_transaction_id = join8 (adu ! 0) (adu ! 1), adu_unit = adu ! 6,
                       adu_pdu = drop 7 adu\<rparr>)"

section \<open>Request PDUs\<close>

definition make_read_registers_pdu :: "u8 \<Rightarrow> u16 \<Rightarrow> u16 \<Rightarrow> u8 list" where
  "make_read_registers_pdu function address quantity =
     append_u16 (append_u16 [function] address) quantity"

definition make_read_bits_pdu :: "u8 \<Rightarrow> u16 \<Rightarrow> u16 \<Rightarrow> u8 list" where
  "make_read_bits_pdu function address quantity = make_read_registers_pdu function address quantity"

definition make_write_single_register_pdu :: "u16 \<Rightarrow> u16 \<Rightarrow> u8 list" where
  "make_write_single_register_pdu address v = append_u16 (append_u16 [0x06] address) v"

definition make_write_multiple_registers_pdu :: "u16 \<Rightarrow> u16 list \<Rightarrow> u8 list" where
  "make_write_multiple_registers_pdu address values =
     foldl append_u16
       (append_u16 (append_u16 [0x10] address) (of_nat (length values)) @ [of_nat (length values * 2)])
       values"

definition make_write_single_coil_pdu :: "u16 \<Rightarrow> bool \<Rightarrow> u8 list" where
  "make_write_single_coil_pdu address v =
     append_u16 (append_u16 [0x05] address) (if v then 0xFF00 else 0x0000)"

text \<open>The loop that packs the coil bytes: bit \<open>i mod 8\<close> of byte \<open>i div 8\<close>.\<close>

definition pack_coil :: "u8 list \<Rightarrow> nat \<Rightarrow> u8 list \<Rightarrow> u8 list" where
  "pack_coil values i packed =
     (if values ! i \<noteq> 0
      then packed[i div 8 := packed ! (i div 8) OR push_bit (i mod 8) 1]
      else packed)"

definition pack_coils :: "u8 list \<Rightarrow> u8 list" where
  "pack_coils values =
     fold (pack_coil values) [0..<length values] (replicate ((length values + 7) div 8) 0)"

definition make_write_multiple_coils_pdu :: "u16 \<Rightarrow> u8 list \<Rightarrow> u8 list result" where
  "make_write_multiple_coils_pdu address values =
     (if values = [] \<or> length values > 1968
      then Err (proto_err EC_InvalidArgument ''FC15 quantity out of range'' False)
      else Ok (append_u16 (append_u16 [0x0F] address) (of_nat (length values)) @
               [of_nat ((length values + 7) div 8)] @ pack_coils values))"

section \<open>Response decoders\<close>

fun read_registers :: "u8 list \<Rightarrow> nat list \<Rightarrow> u16 list result" where
  "read_registers resp [] = Ok []"
| "read_registers resp (i # is) =
     and_then (read_at resp (2 + i * 2)) (\<lambda>hi.
     and_then (read_at resp (3 + i * 2)) (\<lambda>lo.
     and_then (read_registers resp is) (\<lambda>out. Ok (join8 hi lo # out))))"

definition decode_register_response :: "u8 list \<Rightarrow> u16 \<Rightarrow> u16 list result" where
  "decode_register_response resp quantity =
     (if length resp < 2 then Err (proto_err EC_Decoding ''short register response'' False)
      else let byte_count = unat (resp ! 1)
           in if length resp < 2 + byte_count \<or> byte_count \<noteq> unat quantity * 2
              then Err (proto_err EC_Decoding ''register byte count mismatch'' False)
              else read_registers resp [0..<unat quantity])"

fun read_bits :: "u8 list \<Rightarrow> nat list \<Rightarrow> bool list result" where
  "read_bits resp [] = Ok []"
| "read_bits resp (i # is) =
     and_then (read_at resp (2 + i div 8)) (\<lambda>byte.
     and_then (read_bits resp is) (\<lambda>out. Ok ((drop_bit (i mod 8) byte AND 1 \<noteq> 0) # out)))"

definition decode_bits_response :: "u8 list \<Rightarrow> u16 \<Rightarrow> bool list result" where
  "decode_bits_response resp quantity =
     (if length resp < 2 then Err (proto_err EC_Decoding ''short bit response'' False)
      else let byte_count = unat (resp ! 1)
           in if length resp < 2 + byte_count
              then Err (proto_err EC_Decoding ''bit byte count mismatch'' False)
              else read_bits resp [0..<unat quantity])"

section \<open>Transactions\<close>

type_synonym 't transact = "'t \<Rightarrow> u8 \<Rightarrow> u8 list \<Rightarrow> 't \<times> u8 list result"

definition modbus_read_registers ::
  "'t transact \<Rightarrow> 't \<Rightarrow> u8 \<Rightarrow> u8 \<Rightarrow> u16 \<Rightarrow> u16 \<Rightarrow> 't \<times> u16 list result" where
  "modbus_read_registers tx s function u address quantity =
     (case tx s u (make_read_registers_pdu function address quantity) of
        (s', resp) \<Rightarrow> (s', and_then resp (\<lambda>r. decode_register_response r quantity)))"

definition modbus_read_bits ::
  "'t transact \<Rightarrow> 't \<Rightarrow> u8 \<Rightarrow> u8 \<Rightarrow> u16 \<Rightarrow> u16 \<Rightarrow> 't \<times> bool list result" where
  "modbus_read_bits tx s function u address quantity =
     (case tx s u (make_read_bits_pdu function address quantity) of
        (s', resp) \<Rightarrow> (s', and_then resp (\<lambda>r. decode_bits_response r quantity)))"

definition modbus_write_single_register ::
  "'t transact \<Rightarrow> 't \<Rightarrow> u8 \<Rightarrow> u16 \<Rightarrow> u16 \<Rightarrow> 't \<times> unit result" where
  "modbus_write_single_register tx s u address v =
     (case tx s u (make_write_single_register_pdu address v) of
        (s', resp) \<Rightarrow> (s', and_then resp (\<lambda>_. Ok ())))"

definition modbus_write_multiple_registers ::
  "'t transact \<Rightarrow> 't \<Rightarrow> u8 \<Rightarrow> u16 \<Rightarrow> u16 list \<Rightarrow> 't \<times> unit result" where
  "modbus_write_multiple_registers tx s u address values =
     (case tx s u (make_write_multiple_registers_pdu address values) of
        (s', resp) \<Rightarrow> (s', and_then resp (\<lambda>_. Ok ())))"

definition modbus_write_single_coil ::
  "'t transact \<Rightarrow> 't \<Rightarrow> u8 \<Rightarrow> u16 \<Rightarrow> bool \<Rightarrow> 't \<times> unit result" where
  "modbus_write_single_coil tx s u address v =
     (case tx s u (make_write_single_coil_pdu address v) of
        (s', resp) \<Rightarrow> (s', and_then resp (\<lambda>_. Ok ())))"

definition modbus_write_multiple_coils ::
  "'t transact \<Rightarrow> 't \<Rightarrow> u8 \<Rightarrow> u16 \<Rightarrow> u8 list \<Rightarrow> 't \<times> unit result" where
  "modbus_write_multiple_coils tx s u address values =
     (case make_write_multiple_coils_pdu address values of
        Ok pdu \<Rightarrow> (case tx s u pdu of (s', resp) \<Rightarrow> (s', and_then resp (\<lambda>_. Ok ())))
      | Err e \<Rightarrow> (s, Err e)
      | Undef \<Rightarrow> (s, Undef))"

section \<open>Framing round trip\<close>

lemma unpack_pack:
  assumes "pdu = f # data" "length pdu < 65535"
  shows "unpack_adu (pack_mbap tid u pdu) =
    (if f AND 0x80 = 0 then Ok \<lparr>adu_transaction_id = tid, adu_unit = u, adu_pdu = pdu\<rparr>
     else Err ((proto_err EC_ModbusException ''modbus exception'' True)\<lparr>err_protocol_status :=
       Some (case data of [] \<Rightarrow> -1 | x # _ \<Rightarrow> int (unat x))\<rparr>))"
proof -
  have "unat (of_nat (1 + length pdu) :: u16) = 1 + length pdu"
    using assms(2) by (simp add: unat_of_nat del: of_nat_Suc of_nat_add)
  then show ?thesis
    using assms by (cases data) (auto simp: unpack_adu_def pack_mbap_def append_u16_def Let_def
        simp del: of_nat_Suc of_nat_add)
qed

text \<open>
  C29: A PDU framed by \<open>pack_mbap\<close> is recovered by \<open>unpack_adu\<close> with its transaction and unit ids when
  it is not empty and fits the 16-bit length field; when the function code has the exception bit
  the result is the Modbus exception error that carries the exception code.
\<close>

theorem unpack_pack_mbap:
  assumes "pdu = f # data" "length pdu < 65535"
  shows "unpack_adu (pack_mbap tid u pdu) =
    (if f AND 0x80 = 0 then Ok \<lparr>adu_transaction_id = tid, adu_unit = u, adu_pdu = pdu\<rparr>
     else Err ((proto_err EC_ModbusException ''modbus exception'' True)\<lparr>err_protocol_status :=
       Some (case data of [] \<Rightarrow> -1 | x # _ \<Rightarrow> int (unat x))\<rparr>))"
  by (rule unpack_pack [OF assms])

theorem unpack_pack_mbap_witness:
  "unpack_adu (pack_mbap 7 1 [0x83, 2]) =
     Err ((proto_err EC_ModbusException ''modbus exception'' True)\<lparr>err_protocol_status := Some 2\<rparr>)"
  using unpack_pack_mbap [of "[0x83, 2]" "0x83" "[2]" 7 1] by simp

section \<open>Register responses\<close>

definition regs_bytes :: "u16 list \<Rightarrow> u8 list" where
  "regs_bytes rs = concat (map (\<lambda>w. [hi8 w, lo8 w]) rs)"

lemma regs_bytes_Cons [simp]: "regs_bytes (r # rs) = hi8 r # lo8 r # regs_bytes rs"
  "regs_bytes [] = []"
  by (simp_all add: regs_bytes_def)

lemma length_regs_bytes [simp]: "length (regs_bytes rs) = 2 * length rs"
  by (induction rs) auto

lemma nth_regs_bytes:
  "i < length rs \<Longrightarrow> regs_bytes rs ! (2 * i) = hi8 (rs ! i) \<and> regs_bytes rs ! (2 * i + 1) = lo8 (rs ! i)"
  by (induction rs arbitrary: i) (auto simp: nth_Cons split: nat.splits)

lemma foldl_append_u16: "foldl append_u16 out rs = out @ regs_bytes rs"
  by (induction rs arbitrary: out) (simp_all add: append_u16_def)

lemma read_registers_spec:
  assumes "\<forall>i\<in>set is. 3 + i * 2 < length resp"
  shows "read_registers resp is = Ok (map (\<lambda>i. join8 (resp ! (2 + i * 2)) (resp ! (3 + i * 2))) is)"
  using assms by (induction "is") auto

lemma decode_register_response_cases:
  "decode_register_response resp q =
     (if 2 \<le> length resp \<and> 2 + unat (resp ! 1) \<le> length resp \<and> unat (resp ! 1) = unat q * 2
      then Ok (map (\<lambda>i. join8 (resp ! (2 + i * 2)) (resp ! (3 + i * 2))) [0..<unat q])
      else Err (proto_err EC_Decoding
        (if length resp < 2 then ''short register response'' else ''register byte count mismatch'') False))"
  by (auto simp: decode_register_response_def Let_def read_registers_spec)

text \<open>
  C30: A register response is decoded without ever reading outside the received bytes; it succeeds
  exactly when the byte count is twice the requested quantity and the bytes are there, and then
  yields as many registers as were requested.
\<close>

theorem decode_register_response_safe:
  "(case decode_register_response resp q of
      Ok rs \<Rightarrow> length rs = unat q
    | Err e \<Rightarrow> err_code e = EC_Decoding
    | Undef \<Rightarrow> False) \<and>
   (is_ok (decode_register_response resp q) \<longleftrightarrow>
      2 \<le> length resp \<and> unat (resp ! 1) = 2 * unat q \<and> 2 + 2 * unat q \<le> length resp)"
  by (auto simp: decode_register_response_cases proto_err_def)

lemma register_response_roundtrip:
  assumes "length rs \<le> 127"
  shows "decode_register_response (f # of_nat (2 * length rs) # regs_bytes rs @ junk) (of_nat (length rs)) = Ok rs"
proof -
  have u: "unat (of_nat (length rs) :: u16) = length rs" "unat (of_nat (2 * length rs) :: u8) = 2 * length rs"
    using assms by (simp_all add: unat_of_nat del: of_nat_mult)
  have n: "(regs_bytes rs @ junk) ! (i * 2) = hi8 (rs ! i)" "(regs_bytes rs @ junk) ! Suc (i * 2) = lo8 (rs ! i)"
    if "i < length rs" for i
    using nth_regs_bytes [OF that] that by (simp_all add: nth_append mult.commute)
  have "map (\<lambda>i. join8 ((regs_bytes rs @ junk) ! (i * 2)) ((regs_bytes rs @ junk) ! Suc (i * 2))) [0..<length rs] = rs"
    by (rule nth_equalityI) (simp_all add: n)
  then show ?thesis
    by (simp add: decode_register_response_cases u numeral_3_eq_3 del: of_nat_mult)
qed

text \<open>
  The registers a device puts into a response with its byte count come back unchanged, up to
  the 127 registers the one-byte count allows; trailing bytes are ignored.
\<close>

theorem decode_register_response_roundtrip:
  assumes "length rs \<le> 127"
  shows "decode_register_response (f # of_nat (2 * length rs) # regs_bytes rs @ junk) (of_nat (length rs)) = Ok rs"
  by (rule register_response_roundtrip [OF assms])

theorem decode_register_response_roundtrip_witness:
  "decode_register_response [3, 4, 0, 0x34, 0, 0xCD] 2 = Ok [0x34, 0xCD]"
  using decode_register_response_roundtrip [of "[0x34, 0xCD]" 3 "[]"]
  by (simp add: hi8_def lo8_def)

section \<open>Coil bits\<close>

lemma test_bit: "drop_bit k (b :: u8) AND 1 \<noteq> 0 \<longleftrightarrow> bit b k"
  by (simp add: and_one_eq bit_iff_odd_drop_bit odd_iff_mod_2_eq_one)

lemma read_bits_Ok:
  assumes "\<forall>i\<in>set is. 2 + i div 8 < length resp"
  shows "read_bits resp is = Ok (map (\<lambda>i. bit (resp ! (2 + i div 8)) (i mod 8)) is)"
  using assms by (induction "is") (auto simp: test_bit)

lemma read_bits_Undef: "read_bits resp is = Undef \<longleftrightarrow> (\<exists>i\<in>set is. length resp \<le> 2 + i div 8)"
proof (induction "is")
  case (Cons i "is")
  have "read_bits resp is \<noteq> Err e" for e by (induction "is") (auto simp: and_then_eq_Err)
  with Cons show ?case
    by (cases "2 + i div 8 < length resp") (auto simp: and_then_eq_Undef)
qed simp

lemma length_pack_coil [simp]: "length (pack_coil vs i p) = length p"
  by (simp add: pack_coil_def)

lemma pack_coil_bit:
  assumes "i div 8 < length p"
  shows "bit (pack_coil vs i p ! (j div 8)) (j mod 8) \<longleftrightarrow>
    bit (p ! (j div 8)) (j mod 8) \<or> (j = i \<and> vs ! i \<noteq> 0)"
proof -
  have "bit (push_bit (i mod 8) (1 :: u8)) (j mod 8) \<longleftrightarrow> i mod 8 = j mod 8"
    by (auto simp: bit_exp_iff)
  moreover have "i div 8 = j div 8 \<Longrightarrow> i mod 8 = j mod 8 \<longleftrightarrow> i = j"
    by (metis div_mult_mod_eq)
  ultimately show ?thesis
    using assms by (auto simp: pack_coil_def nth_list_update bit_or_iff)
qed

lemma fold_pack_coil:
  assumes "\<forall>i<k. i div 8 < length p"
  shows "length (fold (pack_coil vs) [0..<k] p) = length p"
    and "bit (fold (pack_coil vs) [0..<k] p ! (j div 8)) (j mod 8) \<longleftrightarrow>
      bit (p ! (j div 8)) (j mod 8) \<or> (j < k \<and> vs ! j \<noteq> 0)"
proof -
  have "length (fold (pack_coil vs) [0..<k] p) = length p \<and>
      (bit (fold (pack_coil vs) [0..<k] p ! (j div 8)) (j mod 8) \<longleftrightarrow>
        bit (p ! (j div 8)) (j mod 8) \<or> (j < k \<and> vs ! j \<noteq> 0))"
    using assms by (induction k) (auto simp: pack_coil_bit less_Suc_eq)
  then show "length (fold (pack_coil vs) [0..<k] p) = length p"
    "bit (fold (pack_coil vs) [0..<k] p ! (j div 8)) (j mod 8) \<longleftrightarrow>
      bit (p ! (j div 8)) (j mod 8) \<or> (j < k \<and> vs ! j \<noteq> 0)"
    by auto
qed

lemma pack_coils_spec:
  "length (pack_coils vs) = (length vs + 7) div 8"
  "j < length vs \<Longrightarrow> bit (pack_coils vs ! (j div 8)) (j mod 8) \<longleftrightarrow> vs ! j \<noteq> 0"
proof -
  let ?p = "replicate ((length vs + 7) div 8) 0 :: u8 list"
  have b: "\<forall>i<length vs. i div 8 < length ?p" by auto
  show "length (pack_coils vs) = (length vs + 7) div 8"
    using fold_pack_coil(1) [OF b] by (simp add: pack_coils_def)
  assume j: "j < length vs"
  then have "j div 8 < (length vs + 7) div 8" by auto
  then show "bit (pack_coils vs ! (j div 8)) (j mod 8) \<longleftrightarrow> vs ! j \<noteq> 0"
    using fold_pack_coil(2) [OF b, of vs j] j by (simp add: pack_coils_def)
qed

text \<open>
  The coil bits \<open>make_write_multiple_coils_pdu\<close> packs are the ones \<open>decode_bits_response\<close> reads: a
  device that echoes the packed bytes in a read response returns the written coils, for every
  quantity FC15 accepts.
\<close>

theorem coils_roundtrip:
  assumes "values \<noteq> []" "length values \<le> 1968"
  shows "\<exists>n packed. make_write_multiple_coils_pdu address values =
      Ok (0x0F # hi8 address # lo8 address # hi8 (of_nat (length values)) # lo8 (of_nat (length values)) # n # packed) \<and>
    decode_bits_response (f # n # packed) (of_nat (length values)) = Ok (map (\<lambda>b. b \<noteq> 0) values)"
proof -
  let ?n = "of_nat ((length values + 7) div 8) :: u8"
  have u: "unat (of_nat (length values) :: u16) = length values" "unat ?n = (length values + 7) div 8"
    using assms by (simp_all add: unat_of_nat)
  have "map (\<lambda>i. bit (pack_coils values ! (i div 8)) (i mod 8)) [0..<length values] = map (\<lambda>b. b \<noteq> 0) values"
    by (rule nth_equalityI) (simp_all add: pack_coils_spec)
  moreover have "\<forall>i\<in>{0..<length values}. i div 8 < (length values + 7) div 8" by auto
  ultimately have "decode_bits_response (f # ?n # pack_coils values) (of_nat (length values)) =
      Ok (map (\<lambda>b. b \<noteq> 0) values)"
    by (simp add: decode_bits_response_def u pack_coils_spec(1) read_bits_Ok)
  then show ?thesis
    using assms by (auto simp: make_write_multiple_coils_pdu_def append_u16_def)
qed

theorem coils_roundtrip_witness:
  "\<exists>n packed. make_write_multiple_coils_pdu 5 [1, 0, 1] =
      Ok (0x0F # hi8 5 # lo8 5 # hi8 3 # lo8 3 # n # packed) \<and>
    decode_bits_response (1 # n # packed) 3 = Ok [True, False, True]"
  using coils_roundtrip [of "[1, 0, 1]" 5 1] by simp

text \<open>
  Exactly when the bit decoder reads past the received bytes: the byte count of the response is
  consistent with its length, but nothing compares it with the requested quantity.
\<close>

theorem decode_bits_response_undefined_iff:
  "decode_bits_response resp q = Undef \<longleftrightarrow>
     2 \<le> length resp \<and> 2 + unat (resp ! 1) \<le> length resp \<and> 0 < unat q \<and>
     length resp \<le> 2 + (unat q - 1) div 8"
proof -
  have "(\<exists>i<unat q. length resp \<le> 2 + i div 8) \<longleftrightarrow> 0 < unat q \<and> length resp \<le> 2 + (unat q - 1) div 8"
  proof safe
    fix i assume "i < unat q" "length resp \<le> 2 + i div 8"
    moreover have "i div 8 \<le> (unat q - 1) div 8" using \<open>i < unat q\<close> by (intro div_le_mono) simp
    ultimately show "length resp \<le> 2 + (unat q - 1) div 8" by linarith
  qed (auto intro!: exI [of _ "unat q - 1"])
  then show ?thesis
    by (auto simp: decode_bits_response_def Let_def read_bits_Undef Bex_def)
qed

end
