(* ===== verification/Frame_Log.thy ===== *)
theory Frame_Log
  imports Text_Util Modbus_Protocol Transport_Port
begin

text \<open>
  The Modbus frame journal: the record of \<open>Src/ports/i_frame_log.hpp\<close>, the text format
  \<open>Src/adapters/frame_log.cpp\<close> writes, the parser and the replay transport of
  \<open>Src/adapters/frame_replay.cpp\<close>. The conversions of a \<open>double\<close> to and from text (\<open>out << x\<close> and
  \<open>in >> x\<close> for the round-trip time) are the arguments \<open>show_double\<close> and \<open>read_double\<close>.
\<close>

section \<open>Frames and the journal\<close>

record frame_record =
  fr_ts_ms :: timestamp_ms
  fr_endpoint_id :: string
  fr_tx :: "u8 list"
  fr_rx :: "u8 list"
  fr_exception_code :: "int option"
  fr_rtt_ms :: fp
  fr_error :: "string option"

definition quote_char :: char where "quote_char = CHR 0x22"
definition newline_char :: char where "newline_char = CHR 0x0A"

fun to_hex :: "u8 list \<Rightarrow> string" where
  "to_hex [] = []"
| "to_hex [b] = hex_byte b"
| "to_hex (b # c # bs) = hex_byte b @ CHR '' '' # to_hex (c # bs)"

definition log_header :: string where
  "log_header = ''# ts_ms endpoint rtt_ms exception error tx_hex | rx_hex'' @ [newline_char]"

definition sanitize_error :: "string \<Rightarrow> string" where
  "sanitize_error e = map (\<lambda>c. if c = quote_char \<or> c = newline_char then CHR ''_'' else c) e"

text \<open>The line \<open>FileFrameLog::log_frame\<close> writes, without its newline.\<close>

definition frame_line :: "(fp \<Rightarrow> string) \<Rightarrow> frame_record \<Rightarrow> string" where
  "frame_line show_double f =
     show_int (fr_ts_ms f) @ '' '' @ fr_endpoint_id f @ '' '' @ show_double (fr_rtt_ms f) @ '' '' @
     (case fr_exception_code f of Some c \<Rightarrow> show_int c | None \<Rightarrow> ''-'') @ '' '' @
     (case fr_error f of Some e \<Rightarrow> [quote_char] @ sanitize_error e @ [quote_char] | None \<Rightarrow> ''-'') @
     '' '' @ to_hex (fr_tx f) @ '' | '' @ to_hex (fr_rx f)"

text \<open>\<open>FileFrameLog\<close>: whether the file could be opened, and what was appended to it.\<close>

record file_frame_log =
  ff_open :: bool
  ff_text :: string

definition file_frame_log_new :: "bool \<Rightarrow> string \<Rightarrow> file_frame_log" where
  "file_frame_log_new opened content =
     \<lparr>ff_open = opened, ff_text = (if opened then content @ log_header else content)\<rparr>"

definition file_log_frame :: "(fp \<Rightarrow> string) \<Rightarrow> frame_record \<Rightarrow> file_frame_log \<Rightarrow> file_frame_log" where
  "file_log_frame show_double f l =
     (if \<not> ff_open l then l
      else l\<lparr>ff_text := ff_text l @ frame_line show_double f @ [newline_char]\<rparr>)"

type_synonym memory_frame_log = "frame_record list"

definition memory_log_frame :: "frame_record \<Rightarrow> memory_frame_log \<Rightarrow> memory_frame_log" where
  "memory_log_frame f l = l @ [f]"

definition memory_log_clear :: "memory_frame_log \<Rightarrow> memory_frame_log" where
  "memory_log_clear l = []"

section \<open>Parsing\<close>

definition replay_err :: "error_code \<Rightarrow> string \<Rightarrow> bool \<Rightarrow> error" where
  "replay_err c m r = mk_error c m ''adapters.frame_replay'' r"

definition hex_nibble :: "char \<Rightarrow> nat option" where
  "hex_nibble c = (let n = of_char c :: nat in
     if 48 \<le> n \<and> n \<le> 57 then Some (n - 48)
     else if 97 \<le> n \<and> n \<le> 102 then Some (n - 97 + 10)
     else if 65 \<le> n \<and> n \<le> 70 then Some (n - 65 + 10)
     else None)"

function parse_hex_bytes :: "string \<Rightarrow> u8 list result" where
  "parse_hex_bytes str =
     (case ltrim str of
        [] \<Rightarrow> Ok []
      | [c] \<Rightarrow> Err (replay_err EC_Decoding ''odd hex nibble'' False)
      | c # d # rest \<Rightarrow>
          (case (hex_nibble c, hex_nibble d) of
             (Some hi, Some lo) \<Rightarrow>
               and_then (parse_hex_bytes rest) (\<lambda>out. Ok (of_nat (hi * 16 + lo) # out))
           | _ \<Rightarrow> Err (replay_err EC_Decoding ''invalid hex byte'' False)))"
  by pat_completeness auto
termination
proof (relation "measure length", simp)
  fix str c cs d rest hi and lo :: nat
  assume "ltrim str = c # cs" "cs = d # rest"
  then have "length (ltrim str) = Suc (Suc (length rest))" by simp
  then show "(rest, str) \<in> measure length"
    using length_dropWhile_le [of is_space str] by (simp add: ltrim_def)
qed

declare parse_hex_bytes.simps [simp del]

text \<open>The error column: \<open>-\<close>, or a text with its quotes removed.\<close>

definition parse_error_column :: "string \<Rightarrow> string option" where
  "parse_error_column e =
     (if e = ''-'' then None
      else if e \<noteq> [] \<and> hd e = quote_char
      then (if length e \<ge> 2 \<and> last e = quote_char
            then Some (take (length e - 2) (drop 1 e))
            else Some (drop 1 e))
      else Some e)"

definition parse_exception_column :: "string \<Rightarrow> int option result" where
  "parse_exception_column e =
     (if e = ''-'' then Ok None
      else case stoi e of
             Some c \<Rightarrow> Ok (Some c)
           | None \<Rightarrow> Err (replay_err EC_Decoding ''bad exception code'' False))"

text \<open>The five extractions of the prefix and the text after them.\<close>

definition parse_prefix ::
  "(string \<Rightarrow> (fp \<times> string) option) \<Rightarrow> string \<Rightarrow>
     (timestamp_ms \<times> string \<times> fp \<times> string \<times> string \<times> string) option" where
  "parse_prefix read_double s =
     Option.bind (read_int64 s) (\<lambda>(ts, s).
     Option.bind (read_word s) (\<lambda>(eid, s).
     Option.bind (read_double s) (\<lambda>(rtt, s).
     Option.bind (read_word s) (\<lambda>(exc, s).
     Option.bind (read_word s) (\<lambda>(err, s). Some (ts, eid, rtt, exc, err, s))))))"

definition parse_frame_log_line ::
  "(string \<Rightarrow> (fp \<times> string) option) \<Rightarrow> string \<Rightarrow> frame_record result" where
  "parse_frame_log_line read_double line0 =
     (let line = trim line0 in
      if line = [] \<or> hd line = CHR ''#''
      then Err (replay_err EC_InvalidArgument ''comment or empty'' False)
      else if CHR ''|'' \<notin> set line
      then Err (replay_err EC_Decoding ''missing TX/RX separator'' False)
      else
        let prefix = takeWhile (\<lambda>c. c \<noteq> CHR ''|'') line;
            suffix = tl (dropWhile (\<lambda>c. c \<noteq> CHR ''|'') line)
        in case parse_prefix read_double prefix of
             None \<Rightarrow> Err (replay_err EC_Decoding ''bad frame log prefix'' False)
           | Some (ts, eid, rtt, exc, err, rest) \<Rightarrow>
               and_then (parse_exception_column exc) (\<lambda>code.
               and_then (parse_hex_bytes (trim (takeWhile (\<lambda>c. c \<noteq> newline_char) rest))) (\<lambda>tx.
               and_then (parse_hex_bytes (trim suffix)) (\<lambda>rx.
               Ok \<lparr>fr_ts_ms = ts, fr_endpoint_id = eid, fr_tx = tx, fr_rx = rx,
                   fr_exception_code = code, fr_rtt_ms = rtt,
                   fr_error = parse_error_column err\<rparr>))))"

text \<open>\<open>load_frame_log_file\<close> on the lines of the file, \<open>None\<close> when it cannot be opened.\<close>

fun load_lines ::
  "(string \<Rightarrow> (fp \<times> string) option) \<Rightarrow> string list \<Rightarrow> frame_record list result" where
  "load_lines read_double [] = Ok []"
| "load_lines read_double (l # ls) =
     (let t = trim l in
      if t = [] \<or> hd t = CHR ''#'' then load_lines read_double ls
      else and_then (parse_frame_log_line read_double t) (\<lambda>f.
           and_then (load_lines read_double ls) (\<lambda>fs. Ok (f # fs))))"

definition load_frame_log_file ::
  "(string \<Rightarrow> (fp \<times> string) option) \<Rightarrow> string \<Rightarrow> string list option \<Rightarrow> frame_record list result" where
  "load_frame_log_file read_double path content =
     (case content of
        None \<Rightarrow> Err (replay_err EC_NotFound (''cannot open frame log: '' @ path) False)
      | Some ls \<Rightarrow> load_lines read_double ls)"

section \<open>Replay\<close>

definition pdu_from_rx :: "frame_record \<Rightarrow> u8 list result" where
  "pdu_from_rx f =
     (case fr_error f of
        Some m \<Rightarrow> Err (replay_err EC_Connection m True)
      | None \<Rightarrow>
          (case fr_exception_code f of
             Some c \<Rightarrow> Err ((replay_err EC_ModbusException ''modbus exception'' True)
                            \<lparr>err_protocol_status := Some c\<rparr>)
           | None \<Rightarrow>
               (let rx = fr_rx f in
                if length rx < 8 then Err (replay_err EC_Decoding ''short replay RX'' False)
                else
                  let len = unat (join8 (rx ! 4) (rx ! 5)) in
                  if length rx = 7 + len \<and> len \<ge> 2
                  then (if length rx \<le> 8 then Err (replay_err EC_Decoding ''short replay PDU'' False)
                        else Ok (drop 8 rx))
                  else if length rx \<noteq> 6 + len
                  then Err (replay_err EC_Decoding ''RX length mismatch'' False)
                  else if length rx \<le> 7 then Err (replay_err EC_Decoding ''short replay PDU'' False)
                  else Ok (drop 7 rx))))"

definition replay_decode_registers :: "u8 list \<Rightarrow> u16 \<Rightarrow> u16 list result" where
  "replay_decode_registers pdu quantity =
     (if length pdu < 2 then Err (replay_err EC_Decoding ''short register PDU'' False)
      else let byte_count = unat (pdu ! 1)
           in if length pdu < 2 + byte_count \<or> byte_count \<noteq> unat quantity * 2
              then Err (replay_err EC_Decoding ''register byte count mismatch'' False)
              else read_registers pdu [0..<unat quantity])"

definition replay_decode_bits :: "u8 list \<Rightarrow> u16 \<Rightarrow> bool list result" where
  "replay_decode_bits pdu quantity =
     (if length pdu < 2 then Err (replay_err EC_Decoding ''short bit PDU'' False)
      else let byte_count = unat (pdu ! 1)
           in if length pdu < 2 + byte_count
              then Err (replay_err EC_Decoding ''bit byte count mismatch'' False)
              else read_bits pdu [0..<unat quantity])"

record replay_transport =
  rp_frames :: "frame_record list"
  rp_next :: nat
  rp_connected :: bool

definition replay_new :: "frame_record list \<Rightarrow> replay_transport" where
  "replay_new frames = \<lparr>rp_frames = frames, rp_next = 0, rp_connected = False\<rparr>"

definition replay_consume :: "replay_transport \<Rightarrow> replay_transport \<times> frame_record result" where
  "replay_consume t =
     (if \<not> rp_connected t then (t, Err (replay_err EC_Connection ''not connected'' True))
      else if rp_next t \<ge> length (rp_frames t)
      then (t, Err (replay_err EC_NotFound ''replay exhausted'' False))
      else (t\<lparr>rp_next := rp_next t + 1\<rparr>, Ok (rp_frames t ! rp_next t)))"

definition replay_next_pdu :: "replay_transport \<Rightarrow> replay_transport \<times> u8 list result" where
  "replay_next_pdu t = (case replay_consume t of (t, f) \<Rightarrow> (t, and_then f pdu_from_rx))"

definition replay_read_registers ::
  "replay_transport \<Rightarrow> u8 \<Rightarrow> u16 \<Rightarrow> u16 \<Rightarrow> replay_transport \<times> u16 list result" where
  "replay_read_registers t u address quantity =
     (case replay_next_pdu t of (t, pdu) \<Rightarrow> (t, and_then pdu (\<lambda>p. replay_decode_registers p quantity)))"

definition replay_read_bits ::
  "replay_transport \<Rightarrow> u8 \<Rightarrow> u16 \<Rightarrow> u16 \<Rightarrow> replay_transport \<times> bool list result" where
  "replay_read_bits t u address quantity =
     (case replay_next_pdu t of (t, pdu) \<Rightarrow> (t, and_then pdu (\<lambda>p. replay_decode_bits p quantity)))"

definition replay_write :: "replay_transport \<Rightarrow> replay_transport \<times> unit result" where
  "replay_write t = (case replay_next_pdu t of (t, pdu) \<Rightarrow> (t, and_then pdu (\<lambda>_. Ok ())))"

definition replay_ops :: "replay_transport transport_ops" where
  "replay_ops = \<lparr>tp_connect = \<lambda>t _ _. (t\<lparr>rp_connected := True\<rparr>, Ok ()),
     tp_close = \<lambda>t. t\<lparr>rp_connected := False\<rparr>, tp_is_connected = rp_connected,
     tp_read_holding_registers = replay_read_registers,
     tp_read_input_registers = replay_read_registers,
     tp_read_coils = replay_read_bits, tp_read_discrete_inputs = replay_read_bits,
     tp_write_single_register = \<lambda>t _ _ _. replay_write t,
     tp_write_multiple_registers = \<lambda>t _ _ _. replay_write t,
     tp_write_single_coil = \<lambda>t _ _ _. replay_write t,
     tp_write_multiple_coils = \<lambda>t _ _ _. replay_write t\<rparr>"

section \<open>Hexadecimal round trip\<close>

lemma hex_digit_props:
  assumes "n < 16"
  shows "hex_nibble (hex_digit n) = Some n" "\<not> is_space (hex_digit n)" "hex_digit n \<noteq> CHR ''|''"
    "hex_digit n \<noteq> newline_char"
proof -
  have o: "of_char (hex_digit n) = (if n < 10 then 48 + n else 87 + n)"
    using assms by (simp add: hex_digit_def)
  show "hex_nibble (hex_digit n) = Some n" "\<not> is_space (hex_digit n)"
    using assms by (simp_all add: hex_nibble_def is_space_def o)
  show "hex_digit n \<noteq> CHR ''|''"
  proof
    assume "hex_digit n = CHR ''|''"
    then have "of_char (hex_digit n) = (124::nat)" by simp
    then show False using o assms by (auto split: if_splits)
  qed
  show "hex_digit n \<noteq> newline_char"
  proof
    assume "hex_digit n = newline_char"
    then have "of_char (hex_digit n) = (10::nat)" by (simp add: newline_char_def)
    then show False using o assms by (auto split: if_splits)
  qed
qed

lemma unat_u8_nibbles: "unat (b :: u8) div 16 < 16" "unat b mod 16 < 16"
proof -
  have "unat b < 256" using unsigned_less [of b] by simp
  then show "unat b div 16 < 16" "unat b mod 16 < 16" by auto
qed

lemma hex_byte_chars: "c \<in> set (hex_byte b) \<Longrightarrow> \<not> is_space c \<and> c \<noteq> CHR ''|'' \<and> c \<noteq> newline_char"
  using hex_digit_props(2-4) unat_u8_nibbles [of b] by (auto simp: hex_byte_def)

lemma parse_hex_byte: "parse_hex_bytes (hex_byte b @ rest) = and_then (parse_hex_bytes rest) (\<lambda>out. Ok (b # out))"
  using unat_u8_nibbles [of b]
  by (subst parse_hex_bytes.simps) (simp add: hex_byte_def hex_digit_props)

lemma parse_hex_skip: "is_space c \<Longrightarrow> parse_hex_bytes (c # rest) = parse_hex_bytes rest"
  by (simp add: parse_hex_bytes.simps [of "c # rest"] parse_hex_bytes.simps [of rest])

lemma parse_to_hex: "parse_hex_bytes (to_hex bs) = Ok bs"
proof (induction bs rule: to_hex.induct)
  case (2 b)
  then show ?case using parse_hex_byte [of b "[]"] by (simp add: parse_hex_bytes.simps [of "[]"] ltrim_def)
next
  case (3 b c bs)
  then show ?case by (simp add: parse_hex_byte parse_hex_skip)
qed (simp add: parse_hex_bytes.simps ltrim_def)

lemma to_hex_chars: "c \<in> set (to_hex bs) \<Longrightarrow> c \<noteq> CHR ''|'' \<and> c \<noteq> newline_char"
  by (induction bs rule: to_hex.induct) (auto dest: hex_byte_chars simp: newline_char_def)

lemma hex_byte_ends: "hex_byte b \<noteq> []" "\<not> is_space (hd (hex_byte b))" "\<not> is_space (last (hex_byte b))"
  using unat_u8_nibbles [of b] by (auto simp: hex_byte_def hex_digit_props)

lemma to_hex_ends:
  "bs \<noteq> [] \<Longrightarrow> to_hex bs \<noteq> [] \<and> \<not> is_space (hd (to_hex bs)) \<and> \<not> is_space (last (to_hex bs))"
  by (induction bs rule: to_hex.induct) (auto simp: hex_byte_ends)

lemma trim_to_hex: "trim (to_hex bs) = to_hex bs"
  by (cases "bs = []") (auto simp: trim_id to_hex_ends)

section \<open>Journal lines\<close>

text \<open>
  The frames the journal format can carry: an endpoint id that is a single word without a bar, and
  an error text without white space, quotes or bars.
\<close>

definition word_ok :: "string \<Rightarrow> bool" where
  "word_ok w \<longleftrightarrow> w \<noteq> [] \<and> no_space w \<and> CHR ''|'' \<notin> set w"

definition journal_ok :: "frame_record \<Rightarrow> bool" where
  "journal_ok f \<longleftrightarrow> - (2 ^ 63) \<le> fr_ts_ms f \<and> fr_ts_ms f \<le> 2 ^ 63 - 1 \<and> word_ok (fr_endpoint_id f) \<and>
     (case fr_exception_code f of None \<Rightarrow> True | Some c \<Rightarrow> - (2 ^ 31) \<le> c \<and> c \<le> 2 ^ 31 - 1) \<and>
     (case fr_error f of None \<Rightarrow> True
      | Some e \<Rightarrow> no_space e \<and> CHR ''|'' \<notin> set e \<and> quote_char \<notin> set e)"

text \<open>What the two conversions of \<open>double\<close> have to do for one round-trip time.\<close>

definition double_text_ok :: "(fp \<Rightarrow> string) \<Rightarrow> (string \<Rightarrow> (fp \<times> string) option) \<Rightarrow> fp \<Rightarrow> bool" where
  "double_text_ok show_double read_double x \<longleftrightarrow> word_ok (show_double x) \<and>
     (\<forall>rest. read_double ('' '' @ show_double x @ '' '' @ rest) = Some (x, '' '' @ rest))"

definition exception_column :: "frame_record \<Rightarrow> string" where
  "exception_column f = (case fr_exception_code f of Some c \<Rightarrow> show_int c | None \<Rightarrow> ''-'')"

definition error_column :: "frame_record \<Rightarrow> string" where
  "error_column f = (case fr_error f of Some e \<Rightarrow> [quote_char] @ sanitize_error e @ [quote_char] | None \<Rightarrow> ''-'')"

lemma digit_not_bar: "is_digit c \<Longrightarrow> c \<noteq> CHR ''|''"
  by (auto simp: is_digit_def)

lemma word_ok_show_int: "word_ok (show_int i)"
  using show_int_no_space [of i] show_nat_digits(1) digit_not_bar
  by (auto simp: word_ok_def show_int_def list_all_iff split: if_splits)

lemma space_quote [simp]: "\<not> is_space quote_char" "quote_char \<noteq> CHR ''|''" "CHR ''|'' \<noteq> quote_char" "\<not> is_space CHR ''-''"
  by (simp_all add: is_space_def quote_char_def)

lemma is_space_newline: "is_space newline_char"
  by (simp add: is_space_def newline_char_def)

lemma sanitize_id: "no_space e \<Longrightarrow> quote_char \<notin> set e \<Longrightarrow> sanitize_error e = e"
  using is_space_newline by (auto simp: sanitize_error_def no_space_def list_all_iff intro!: map_idI)

lemma word_ok_columns:
  assumes "journal_ok f" shows "word_ok (exception_column f)" "word_ok (error_column f)"
proof -
  show "word_ok (exception_column f)"
    by (cases "fr_exception_code f")
      (simp_all add: exception_column_def word_ok_show_int, simp add: word_ok_def no_space_def)
  show "word_ok (error_column f)"
    using assms by (cases "fr_error f")
      (simp_all add: error_column_def journal_ok_def sanitize_id word_ok_def, simp_all add: no_space_def)
qed

lemma parse_columns:
  assumes "journal_ok f"
  shows "parse_exception_column (exception_column f) = Ok (fr_exception_code f)"
    and "parse_error_column (error_column f) = fr_error f"
proof -
  have "show_int c \<noteq> ''-''" for c
    using show_nat_digits(2) by (auto simp: show_int_def) (metis is_digit_not_sign(1) list.pred_inject(2) show_nat_digits(1))
  then show "parse_exception_column (exception_column f) = Ok (fr_exception_code f)"
    using assms by (auto simp: parse_exception_column_def exception_column_def journal_ok_def stoi_show_int
        split: option.splits)
  have q: "[quote_char] @ e @ [quote_char] \<noteq> ''-''" for e by (simp add: quote_char_def)
  show "parse_error_column (error_column f) = fr_error f"
    using assms q by (auto simp: parse_error_column_def error_column_def journal_ok_def sanitize_id
        split: option.splits)
qed

definition line_prefix :: "(fp \<Rightarrow> string) \<Rightarrow> frame_record \<Rightarrow> string" where
  "line_prefix sd f = show_int (fr_ts_ms f) @ '' '' @ fr_endpoint_id f @ '' '' @ sd (fr_rtt_ms f) @ '' '' @
     exception_column f @ '' '' @ error_column f @ '' '' @ to_hex (fr_tx f) @ '' ''"

lemma frame_line_prefix: "frame_line sd f = line_prefix sd f @ CHR ''|'' # CHR '' '' # to_hex (fr_rx f)"
  by (simp add: frame_line_def line_prefix_def exception_column_def error_column_def)

lemma parse_line_prefix:
  assumes "journal_ok f" "double_text_ok sd rd (fr_rtt_ms f)"
  shows "parse_prefix rd (line_prefix sd f) =
    Some (fr_ts_ms f, fr_endpoint_id f, fr_rtt_ms f, exception_column f, error_column f, '' '' @ to_hex (fr_tx f) @ '' '')"
proof -
  have n: "\<not> is_digit CHR '' ''" by (simp add: is_digit_def)
  have w: "word_ok (fr_endpoint_id f)" using assms(1) by (simp add: journal_ok_def)
  have rw: "word_ok w \<Longrightarrow> read_word (CHR '' '' # w @ CHR '' '' # r) = Some (w, CHR '' '' # r)" for w r
    by (simp add: read_word_skip read_word_token word_ok_def)
  have ri: "read_int64 (show_int (fr_ts_ms f) @ CHR '' '' # r) = Some (fr_ts_ms f, CHR '' '' # r)" for r
    using assms(1) n by (intro read_int_show_int) (auto simp: journal_ok_def)
  have rd: "rd (CHR '' '' # sd (fr_rtt_ms f) @ CHR '' '' # r) = Some (fr_rtt_ms f, CHR '' '' # r)" for r
    using assms(2) by (simp add: double_text_ok_def)
  show ?thesis
    by (simp add: parse_prefix_def line_prefix_def ri [simplified] rd rw [OF w] rw [OF word_ok_columns(1) [OF assms(1)]]
        rw [OF word_ok_columns(2) [OF assms(1)]])
qed

lemma line_prefix_no_bar:
  assumes "journal_ok f" "double_text_ok sd rd (fr_rtt_ms f)"
  shows "\<forall>c\<in>set (line_prefix sd f). c \<noteq> CHR ''|''"
  using assms word_ok_columns [OF assms(1)] word_ok_show_int [of "fr_ts_ms f"]
  by (auto simp: line_prefix_def double_text_ok_def word_ok_def journal_ok_def dest: to_hex_chars)

lemma line_prefix_start: "line_prefix sd f \<noteq> []" "\<not> is_space (hd (line_prefix sd f))"
  "hd (line_prefix sd f) \<noteq> CHR ''#''"
proof -
  obtain c s where c: "show_int (fr_ts_ms f) = c # s" "\<not> is_space c" "c = CHR ''-'' \<or> is_digit c"
    using show_int_no_space [of "fr_ts_ms f"] show_nat_digits
    by (cases "show_int (fr_ts_ms f)") (auto simp: no_space_def show_int_def split: if_splits,
        (metis list.pred_inject(2))+)
  then show "line_prefix sd f \<noteq> []" "\<not> is_space (hd (line_prefix sd f))"
    by (simp_all add: line_prefix_def)
  have "c \<noteq> CHR ''#''" using c(3) by (auto simp: is_digit_def)
  then show "hd (line_prefix sd f) \<noteq> CHR ''#''" using c(1) by (simp add: line_prefix_def)
qed

lemma trim_frame_line:
  "trim (frame_line sd f) = line_prefix sd f @ CHR ''|'' # (if fr_rx f = [] then [] else CHR '' '' # to_hex (fr_rx f))"
proof (cases "fr_rx f = []")
  case True
  have "\<not> is_space CHR ''|''" by (simp add: is_space_def)
  then have "trim (line_prefix sd f @ [CHR ''|'']) = line_prefix sd f @ [CHR ''|'']"
    using line_prefix_start [of sd f] by (intro trim_id) auto
  then show ?thesis
    using True trim_skip_end [of "CHR '' ''" "line_prefix sd f @ [CHR ''|'']"] by (simp add: frame_line_prefix)
next
  case False
  then show ?thesis
    using line_prefix_start [of sd f] to_hex_ends [of "fr_rx f"]
    by (simp add: frame_line_prefix) (intro trim_id, auto)
qed

text \<open>
  A journal line written by \<open>FileFrameLog\<close> is parsed back to the frame, for every frame whose
  endpoint id and error text are single words and whose round-trip time survives the conversion to
  text.
\<close>

theorem frame_line_roundtrip:
  assumes "journal_ok f" "double_text_ok sd rd (fr_rtt_ms f)"
  shows "parse_frame_log_line rd (frame_line sd f) = Ok f"
proof -
  let ?suf = "if fr_rx f = [] then [] else CHR '' '' # to_hex (fr_rx f)"
  let ?line = "line_prefix sd f @ CHR ''|'' # ?suf"
  note nb = line_prefix_no_bar [OF assms] and st = line_prefix_start [of sd f]
  have split: "takeWhile (\<lambda>c. c \<noteq> CHR ''|'') ?line = line_prefix sd f"
    "tl (dropWhile (\<lambda>c. c \<noteq> CHR ''|'') ?line) = ?suf"
    using nb by (auto simp: takeWhile_append dropWhile_append)
  have "takeWhile (\<lambda>c. c \<noteq> newline_char) ('' '' @ to_hex (fr_tx f) @ '' '') = '' '' @ to_hex (fr_tx f) @ '' ''"
    by (auto simp: takeWhile_eq_all_conv newline_char_def dest: to_hex_chars)
  moreover have "trim ('' '' @ to_hex (fr_tx f) @ '' '') = to_hex (fr_tx f)"
    using trim_skip_end [of "CHR '' ''" "to_hex (fr_tx f)"] by (simp add: trim_to_hex)
  moreover have "trim ?suf = to_hex (fr_rx f)" by (simp add: trim_to_hex)
  ultimately show ?thesis
    using st parse_columns [OF assms(1)]
    unfolding parse_frame_log_line_def trim_frame_line Let_def split parse_line_prefix [OF assms] option.case prod.case
    by (simp add: parse_to_hex)
qed

text \<open>A frame, and conversions of \<open>double\<close> that are right for its round-trip time 0.\<close>

definition sample_frame :: frame_record where
  "sample_frame = \<lparr>fr_ts_ms = 42, fr_endpoint_id = ''e1'', fr_tx = [0, 255], fr_rx = [16],
     fr_exception_code = Some 2, fr_rtt_ms = fp_zero64, fr_error = Some ''refused''\<rparr>"

definition show_zero :: "fp \<Rightarrow> string" where "show_zero x = ''0''"

definition read_zero :: "string \<Rightarrow> (fp \<times> string) option" where
  "read_zero s = (case read_word s of Some (w, r) \<Rightarrow> if w = ''0'' then Some (fp_zero64, r) else None
     | None \<Rightarrow> None)"

lemma double_text_ok_zero: "double_text_ok show_zero read_zero fp_zero64"
proof -
  have "word_ok ''0''" by (simp add: word_ok_def no_space_def is_space_def)
  then show ?thesis
    using read_word_token [of "''0''" "CHR '' ''"]
    by (simp add: double_text_ok_def show_zero_def read_zero_def read_word_skip word_ok_def)
qed

theorem frame_line_roundtrip_witness:
  "parse_frame_log_line read_zero (frame_line show_zero sample_frame) = Ok sample_frame"
proof (rule frame_line_roundtrip)
  show "journal_ok sample_frame"
    by (simp add: journal_ok_def sample_frame_def word_ok_def no_space_def is_space_def quote_char_def)
  show "double_text_ok show_zero read_zero (fr_rtt_ms sample_frame)"
    by (simp add: sample_frame_def double_text_ok_zero)
qed

definition timeout_frame :: frame_record where
  "timeout_frame = \<lparr>fr_ts_ms = 42, fr_endpoint_id = ''e1'', fr_tx = [1], fr_rx = [],
     fr_exception_code = None, fr_rtt_ms = fp_zero64, fr_error = Some ''recv timeout''\<rparr>"

lemma timeout_line: "frame_line show_zero timeout_frame = ''42 e1 0 - '' @ [quote_char] @ ''recv timeout'' @ [quote_char] @ '' 01 | ''"
proof -
  have "show_int 42 = ''42''" "hex_byte 1 = ''01''"
    by (simp_all add: show_int_def show_nat.simps [of 42] show_nat.simps [of 4] digit_char_def hex_byte_def hex_digit_def char_of_def bit_Suc_0_iff)
  then show ?thesis
    by (simp add: frame_line_def timeout_frame_def show_zero_def sanitize_error_def quote_char_def newline_char_def)
qed

text \<open>
  An error text with a blank (every time-out: \<open>recv timeout\<close>) makes the line unreadable: the
  second word of the error is taken for hexadecimal bytes, and loading the whole journal fails.
\<close>

theorem timeout_frame_unreadable:
  "parse_frame_log_line read_zero (frame_line show_zero timeout_frame) =
     Err (replay_err EC_Decoding ''invalid hex byte'' False) \<and>
   is_err (load_frame_log_file read_zero ''frames.log'' (Some [frame_line show_zero timeout_frame]))"
  unfolding timeout_line by code_simp

section \<open>Replay\<close>

lemma replay_decode_registers_cases:
  "replay_decode_registers resp q =
     (if 2 \<le> length resp \<and> 2 + unat (resp ! 1) \<le> length resp \<and> unat (resp ! 1) = unat q * 2
      then Ok (map (\<lambda>i. join8 (resp ! (2 + i * 2)) (resp ! (3 + i * 2))) [0..<unat q])
      else Err (replay_err EC_Decoding
        (if length resp < 2 then ''short register PDU'' else ''register byte count mismatch'') False))"
  by (auto simp: replay_decode_registers_def Let_def read_registers_spec)

lemma pdu_from_rx_defined [simp]: "pdu_from_rx f \<noteq> Undef"
  by (simp add: pdu_from_rx_def Let_def split: option.split)

lemma replay_consume_defined [simp]: "snd (replay_consume t) \<noteq> Undef"
  by (simp add: replay_consume_def)

interpretation rp: register_port replay_ops
proof unfold_locales
  have "sized_read replay_read_registers"
  proof (rule sized_readI)
    fix t u a q
    show "snd (replay_read_registers t u a q) \<noteq> Undef"
      using replay_consume_defined [of t]
      by (auto simp: replay_read_registers_def replay_next_pdu_def case_prod_unfold and_then_eq_Undef
          replay_decode_registers_cases)
    show "length xs = unat q" if "snd (replay_read_registers t u a q) = Ok xs" for xs
      using that by (auto simp: replay_read_registers_def replay_next_pdu_def case_prod_unfold and_then_eq_Ok
          replay_decode_registers_cases split: if_splits)
  qed
  then show "sized_read (tp_read_holding_registers replay_ops)" "sized_read (tp_read_input_registers replay_ops)"
    by (simp_all add: replay_ops_def)
qed

lemma pdu_from_rx_mbap:
  assumes "fr_error f = None" "fr_exception_code f = None" "fr_rx f = pack_mbap tid u pdu"
    and "pdu \<noteq> []" "length pdu < 65535"
  shows "pdu_from_rx f = Ok pdu"
proof -
  have "unat (of_nat (1 + length pdu) :: u16) = 1 + length pdu"
    using assms(5) by (simp add: unat_of_nat del: of_nat_Suc of_nat_add)
  then show ?thesis
    using assms by (cases pdu) (auto simp: pdu_from_rx_def pack_mbap_def append_u16_def Let_def
        simp del: of_nat_Suc of_nat_add)
qed

definition recorded_read :: "u16 list \<Rightarrow> frame_record \<Rightarrow> bool" where
  "recorded_read rs f \<longleftrightarrow> fr_error f = None \<and> fr_exception_code f = None \<and> length rs \<le> 127 \<and>
     (\<exists>tid u fc. fr_rx f = pack_mbap tid u (fc # of_nat (2 * length rs) # regs_bytes rs))"

fun replay_reads :: "nat list \<Rightarrow> replay_transport \<Rightarrow> u16 list result list" where
  "replay_reads [] t = []"
| "replay_reads (n # ns) t =
     (case replay_read_registers t 1 0 (of_nat n) of (t, r) \<Rightarrow> r # replay_reads ns t)"

lemma replay_decode_roundtrip:
  assumes "length rs \<le> 127"
  shows "replay_decode_registers (f # of_nat (2 * length rs) # regs_bytes rs) (of_nat (length rs)) = Ok rs"
  using register_response_roundtrip [OF assms, of f "[]"]
  by (simp add: replay_decode_registers_cases decode_register_response_cases split: if_splits)

lemma replay_read_recorded:
  assumes "rp_connected t" "rp_next t < length (rp_frames t)" "recorded_read rs (rp_frames t ! rp_next t)"
  shows "replay_read_registers t u a (of_nat (length rs)) = (t\<lparr>rp_next := rp_next t + 1\<rparr>, Ok rs)"
proof -
  obtain tid v fc where rx: "fr_rx (rp_frames t ! rp_next t) = pack_mbap tid v (fc # of_nat (2 * length rs) # regs_bytes rs)"
    using assms(3) by (auto simp: recorded_read_def)
  have "pdu_from_rx (rp_frames t ! rp_next t) = Ok (fc # of_nat (2 * length rs) # regs_bytes rs)"
    by (rule pdu_from_rx_mbap [OF _ _ rx]) (use assms(3) in \<open>auto simp: recorded_read_def\<close>)
  then show ?thesis
    using assms by (simp add: replay_read_registers_def replay_next_pdu_def replay_consume_def
        recorded_read_def replay_decode_roundtrip del: of_nat_mult)
qed

lemma replay_reads_from:
  assumes "rp_connected t" "list_all2 recorded_read rss (drop (rp_next t) (rp_frames t))"
  shows "replay_reads (map length rss) t = map Ok rss"
  using assms
proof (induction rss arbitrary: t)
  case (Cons rs rss)
  from Cons.prems(2) have n: "rp_next t < length (rp_frames t)"
    by (metis drop_all list.rel_distinct(2) not_less)
  then have d: "drop (rp_next t) (rp_frames t) = rp_frames t ! rp_next t # drop (Suc (rp_next t)) (rp_frames t)"
    by (simp add: Cons_nth_drop_Suc)
  have r: "replay_read_registers t 1 0 (of_nat (length rs)) = (t\<lparr>rp_next := rp_next t + 1\<rparr>, Ok rs)"
    by (rule replay_read_recorded [OF Cons.prems(1) n]) (use Cons.prems(2) d in simp)
  show ?case
    using Cons.IH [of "t\<lparr>rp_next := rp_next t + 1\<rparr>"] Cons.prems d by (simp add: r)
qed simp

text \<open>
  Replaying a journal of successful register reads yields, read by read and in order, the
  registers the field device answered with.
\<close>

theorem replay_faithful:
  assumes "list_all2 recorded_read rss frames"
  shows "replay_reads (map length rss) (fst (tp_connect replay_ops (replay_new frames) [] 502)) = map Ok rss"
  by (rule replay_reads_from) (use assms in \<open>simp_all add: replay_ops_def replay_new_def\<close>)

theorem replay_faithful_witness:
  "replay_reads (map length [[7, 8], [9 :: u16]]) (fst (tp_connect replay_ops (replay_new
     [sample_frame\<lparr>fr_exception_code := None, fr_error := None, fr_rx := pack_mbap 1 1 (3 # 4 # regs_bytes [7, 8])\<rparr>,
      sample_frame\<lparr>fr_exception_code := None, fr_error := None, fr_rx := pack_mbap 2 1 (3 # 2 # regs_bytes [9])\<rparr>]) [] 502)) =
   map Ok [[7, 8], [9]]"
  by (rule replay_faithful) (auto simp: recorded_read_def)

end
