(* ===== verification/Udp_Transport.thy ===== *)
theory Udp_Transport
  imports Frame_Log
begin

text \<open>
  The Modbus UDP adapter of \<open>Src/adapters/modbus_udp_transport.cpp\<close>. The operating system (sockets,
  clocks) is the argument \<open>net\<close> of the operations: a record of functions on the state of the network.
\<close>

section \<open>The network and the adapter\<close>

datatype udp_recv = Datagram "u8 list" | WouldBlock | RecvFailed

record 'n udp_net =
  un_now :: "'n \<Rightarrow> timestamp_ms"
  un_elapsed :: "'n \<Rightarrow> fp"
  un_socket :: "'n \<Rightarrow> 'n \<times> bool"
  un_pton :: "string \<Rightarrow> bool"
  un_connect :: "'n \<Rightarrow> string \<Rightarrow> u16 \<Rightarrow> 'n \<times> string option"
  un_close :: "'n \<Rightarrow> 'n"
  un_send :: "'n \<Rightarrow> u8 list \<Rightarrow> 'n \<times> bool"
  un_recv :: "'n \<Rightarrow> 'n \<times> udp_recv"

record 'n udp_transport =
  ut_net :: 'n
  ut_open :: bool
  ut_transaction_id :: u16
  ut_has_log :: bool
  ut_log :: memory_frame_log
  ut_endpoint_id :: string

definition udp_err :: "error_code \<Rightarrow> string \<Rightarrow> bool \<Rightarrow> error" where
  "udp_err c m r = mk_error c m ''adapters.modbus_udp'' r"

definition udp_new :: "'n \<Rightarrow> bool \<Rightarrow> string \<Rightarrow> 'n udp_transport" where
  "udp_new n has_log eid = \<lparr>ut_net = n, ut_open = False, ut_transaction_id = 1, ut_has_log = has_log,
     ut_log = [], ut_endpoint_id = eid\<rparr>"

definition udp_emit_frame :: "'n udp_net \<Rightarrow> frame_record \<Rightarrow> 'n udp_transport \<Rightarrow> 'n udp_transport" where
  "udp_emit_frame net f t =
     (if \<not> ut_has_log t then t
      else let f = (if fr_endpoint_id f = [] then f\<lparr>fr_endpoint_id := ut_endpoint_id t\<rparr> else f);
               f = (if fr_ts_ms f = 0 then f\<lparr>fr_ts_ms := un_now net (ut_net t)\<rparr> else f)
           in t\<lparr>ut_log := memory_log_frame f (ut_log t)\<rparr>)"

definition udp_close :: "'n udp_net \<Rightarrow> 'n udp_transport \<Rightarrow> 'n udp_transport" where
  "udp_close net t = (if ut_open t then t\<lparr>ut_net := un_close net (ut_net t), ut_open := False\<rparr> else t)"

definition udp_connect ::
  "'n udp_net \<Rightarrow> 'n udp_transport \<Rightarrow> string \<Rightarrow> u16 \<Rightarrow> 'n udp_transport \<times> unit result" where
  "udp_connect net t host port =
     (let t = udp_close net t in
      case un_socket net (ut_net t) of (n, ok) \<Rightarrow>
        if \<not> ok then (t\<lparr>ut_net := n\<rparr>, Err (udp_err EC_Connection ''socket() failed'' True))
        else let t = t\<lparr>ut_net := n, ut_open := True\<rparr> in
          if \<not> un_pton net host
          then (udp_close net t, Err (udp_err EC_InvalidArgument (''invalid host IPv4: '' @ host) False))
          else case un_connect net (ut_net t) host port of
                 (n, Some e) \<Rightarrow> (udp_close net (t\<lparr>ut_net := n\<rparr>),
                                Err (udp_err EC_Connection (''udp connect failed: '' @ e) True))
               | (n, None) \<Rightarrow> (t\<lparr>ut_net := n\<rparr>, Ok ()))"

text \<open>The completion of a transaction: the outcome goes into the frame, the frame into the journal.\<close>

definition udp_finish ::
  "'n udp_net \<Rightarrow> frame_record \<Rightarrow> u8 list result \<Rightarrow> 'n udp_transport \<Rightarrow> 'n udp_transport \<times> u8 list result" where
  "udp_finish net f r t =
     (let f = f\<lparr>fr_rtt_ms := un_elapsed net (ut_net t)\<rparr>;
          f = (case r of
                 Err e \<Rightarrow> (let f = f\<lparr>fr_error := Some (err_message e)\<rparr> in
                           if err_protocol_status e \<noteq> None
                           then f\<lparr>fr_exception_code := err_protocol_status e\<rparr> else f)
               | _ \<Rightarrow> f)
      in (udp_emit_frame net f t, r))"

definition udp_transact :: "'n udp_net \<Rightarrow> 'n udp_transport transact" where
  "udp_transact net t u pdu =
     (if \<not> ut_open t then (t, Err (udp_err EC_Connection ''not connected'' True))
      else
        let tid = ut_transaction_id t;
            t = t\<lparr>ut_transaction_id := tid + 1\<rparr>;
            req = pack_mbap tid u pdu;
            f = \<lparr>fr_ts_ms = un_now net (ut_net t), fr_endpoint_id = ut_endpoint_id t, fr_tx = req, fr_rx = [],
                 fr_exception_code = None, fr_rtt_ms = fp_zero64, fr_error = None\<rparr>
        in case un_send net (ut_net t) req of (n, ok) \<Rightarrow>
          let t = t\<lparr>ut_net := n\<rparr> in
          if \<not> ok then udp_finish net f (Err (udp_err EC_Connection ''send failed'' True)) t
          else case un_recv net (ut_net t) of (n, rcv) \<Rightarrow>
            let t = t\<lparr>ut_net := n\<rparr> in
            (case rcv of
               WouldBlock \<Rightarrow> udp_finish net f (Err (udp_err EC_Timeout ''recv timeout'' True)) t
             | RecvFailed \<Rightarrow> udp_finish net f (Err (udp_err EC_Connection ''recv failed'' True)) t
             | Datagram d \<Rightarrow>
                 let buf = take 260 d; f = f\<lparr>fr_rx := buf\<rparr> in
                 (case unpack_adu buf of
                    Undef \<Rightarrow> (t, Undef)
                  | Err e \<Rightarrow> udp_finish net f (Err e) t
                  | Ok a \<Rightarrow>
                      if adu_transaction_id a \<noteq> tid
                      then udp_finish net f (Err (udp_err EC_Decoding ''transaction id mismatch'' False)) t
                      else udp_finish net f (Ok (adu_pdu a)) t)))"

definition udp_ops :: "'n udp_net \<Rightarrow> 'n udp_transport transport_ops" where
  "udp_ops net = \<lparr>tp_connect = udp_connect net, tp_close = udp_close net, tp_is_connected = ut_open,
     tp_read_holding_registers = \<lambda>t. modbus_read_registers (udp_transact net) t 0x03,
     tp_read_input_registers = \<lambda>t. modbus_read_registers (udp_transact net) t 0x04,
     tp_read_coils = \<lambda>t. modbus_read_bits (udp_transact net) t 0x01,
     tp_read_discrete_inputs = \<lambda>t. modbus_read_bits (udp_transact net) t 0x02,
     tp_write_single_register = modbus_write_single_register (udp_transact net),
     tp_write_multiple_registers = modbus_write_multiple_registers (udp_transact net),
     tp_write_single_coil = modbus_write_single_coil (udp_transact net),
     tp_write_multiple_coils = modbus_write_multiple_coils (udp_transact net)\<rparr>"

section \<open>The adapter keeps the register contract\<close>

lemma unpack_adu_defined [simp]: "unpack_adu d \<noteq> Undef"
  by (simp add: unpack_adu_def Let_def)

lemma udp_finish_result [simp]: "snd (udp_finish net f r t) = r"
  by (simp add: udp_finish_def Let_def)

lemma udp_transact_defined: "snd (udp_transact net t u pdu) \<noteq> Undef"
  by (auto simp: udp_transact_def Let_def case_prod_unfold split: udp_recv.split result.split)

lemma decode_register_response_defined: "decode_register_response p q \<noteq> Undef"
  by (simp add: decode_register_response_cases)

lemma sized_modbus_read_registers:
  assumes "\<And>t u pdu. snd (tx t u pdu) \<noteq> Undef"
  shows "sized_read (\<lambda>t. modbus_read_registers tx t fc)"
proof (rule sized_readI)
  fix t u a q
  show "snd (modbus_read_registers tx t fc u a q) \<noteq> Undef"
    using assms by (auto simp: modbus_read_registers_def case_prod_unfold and_then_eq_Undef
        decode_register_response_defined)
  show "length xs = unat q" if "snd (modbus_read_registers tx t fc u a q) = Ok xs" for xs
    using that by (auto simp: modbus_read_registers_def case_prod_unfold and_then_eq_Ok
        decode_register_response_cases split: if_splits)
qed

interpretation udp: register_port "udp_ops net" for net
  by unfold_locales (simp_all add: udp_ops_def sized_modbus_read_registers udp_transact_defined)

section \<open>A responsive peer\<close>

text \<open>
  A device that answers every request at once with the reply \<open>answer pdu\<close>; the network keeps
  datagrams in order. The state is the receive queue of the socket.
\<close>

definition peer_net :: "(u8 list \<Rightarrow> u8 list) \<Rightarrow> u8 list list udp_net" where
  "peer_net answer = \<lparr>un_now = \<lambda>_. 1, un_elapsed = \<lambda>_. fp_zero64, un_socket = \<lambda>q. (q, True),
     un_pton = \<lambda>_. True, un_connect = \<lambda>q _ _. (q, None), un_close = \<lambda>q. [],
     un_send = \<lambda>q req. (q @ [pack_mbap (join8 (req ! 0) (req ! 1)) (req ! 6) (answer (drop 7 req))], True),
     un_recv = \<lambda>q. (case q of [] \<Rightarrow> ([], WouldBlock) | d # q \<Rightarrow> (q, Datagram d))\<rparr>"

text \<open>Replies a device may give: a function code without the exception bit, at most 253 bytes.\<close>

definition plain_reply :: "u8 list \<Rightarrow> bool" where
  "plain_reply r \<longleftrightarrow> r \<noteq> [] \<and> hd r AND 0x80 = 0 \<and> length r \<le> 253"

lemma peer_send: "un_send (peer_net answer) q (pack_mbap tid u pdu) = (q @ [pack_mbap tid u (answer pdu)], True)"
  by (simp add: peer_net_def pack_mbap_def append_u16_def Let_def eval_nat_numeral)

lemma unpack_reply:
  assumes "plain_reply r"
  shows "unpack_adu (take 260 (pack_mbap tid u r)) = Ok \<lparr>adu_transaction_id = tid, adu_unit = u, adu_pdu = r\<rparr>"
proof -
  obtain f d where r: "r = f # d" "f AND 0x80 = 0" "length d \<le> 252"
    using assms by (cases r) (auto simp: plain_reply_def)
  have "length (pack_mbap tid u r) \<le> 260"
    using r by (simp add: pack_mbap_def append_u16_def Let_def)
  then show ?thesis using unpack_pack [of r f d tid u] r by simp
qed

definition peer_step :: "(u8 list \<Rightarrow> u8 list) \<Rightarrow> u8 \<Rightarrow> u8 list \<Rightarrow> u8 list list udp_transport \<Rightarrow>
    u8 list list udp_transport \<times> u8 list result" where
  "peer_step answer u pdu t = udp_transact (peer_net answer) t u pdu"

lemma udp_finish_fields [simp]:
  "ut_net (fst (udp_finish net f r t)) = ut_net t" "ut_open (fst (udp_finish net f r t)) = ut_open t"
  "ut_transaction_id (fst (udp_finish net f r t)) = ut_transaction_id t"
  by (simp_all add: udp_finish_def udp_emit_frame_def Let_def)

lemma transact_backlog:
  assumes "ut_open t" "ut_net t = map (\<lambda>(i, r). pack_mbap i u r) backlog" "plain_reply (answer pdu)"
    and "\<forall>(i, r)\<in>set backlog. plain_reply r"
  shows "snd (udp_transact (peer_net answer) t u pdu) =
      (let first = hd (backlog @ [(ut_transaction_id t, answer pdu)])
       in if fst first = ut_transaction_id t then Ok (snd first)
          else Err (udp_err EC_Decoding ''transaction id mismatch'' False)) \<and>
    ut_open (fst (udp_transact (peer_net answer) t u pdu)) \<and>
    ut_transaction_id (fst (udp_transact (peer_net answer) t u pdu)) = ut_transaction_id t + 1 \<and>
    ut_net (fst (udp_transact (peer_net answer) t u pdu)) =
      map (\<lambda>(i, r). pack_mbap i u r) (tl (backlog @ [(ut_transaction_id t, answer pdu)]))"
proof -
  have rv: "un_recv (peer_net answer) (d # q) = (q, Datagram d)" for d q by (simp add: peer_net_def)
  show ?thesis
    using assms by (cases backlog)
      (auto simp: udp_transact_def Let_def peer_send rv unpack_reply)
qed

fun transacts :: "(u8 list \<Rightarrow> u8 list) \<Rightarrow> u8 \<Rightarrow> u8 list list \<Rightarrow> u8 list list udp_transport \<Rightarrow> u8 list result list" where
  "transacts answer u [] t = []"
| "transacts answer u (p # ps) t =
     (case udp_transact (peer_net answer) t u p of (t, r) \<Rightarrow> r # transacts answer u ps t)"

text \<open>
  With a responsive peer and no stale datagram in the socket, every transaction of a sequence
  succeeds with the reply to its own request, for ever: the 16-bit transaction counter may wrap.
\<close>

theorem udp_in_step:
  assumes "ut_open t" "ut_net t = []" "\<forall>p\<in>set ps. plain_reply (answer p)"
  shows "transacts answer u ps t = map (\<lambda>p. Ok (answer p)) ps"
  using assms
proof (induction ps arbitrary: t)
  case (Cons p ps)
  then show ?case using transact_backlog [of t u "[]" answer p] by (simp add: case_prod_unfold)
qed simp

text \<open>
  After one late response the adapter never recovers by itself: with the previous reply still
  in the socket, every later transaction of any sequence fails with a transaction id mismatch,
  although the peer answers every request correctly and at once.
\<close>

theorem udp_desync_forever:
  assumes "ut_open t" "ut_net t = [pack_mbap (ut_transaction_id t - 1) u r]" "plain_reply r"
    and "\<forall>p\<in>set ps. plain_reply (answer p)"
  shows "transacts answer u ps t = map (\<lambda>_. Err (udp_err EC_Decoding ''transaction id mismatch'' False)) ps"
  using assms
proof (induction ps arbitrary: t r)
  case (Cons p ps)
  have "ut_transaction_id t - 1 \<noteq> ut_transaction_id t" by simp
  then show ?case
    using Cons.prems Cons.IH [of _ "answer p"] transact_backlog [of t u "[(ut_transaction_id t - 1, r)]" answer p]
    by (simp add: case_prod_unfold)
qed simp

definition echo_answer :: "u8 list \<Rightarrow> u8 list" where "echo_answer p = p"

theorem udp_in_step_witness:
  "transacts echo_answer 1 [[6, 0, 1, 0, 2]] ((udp_new [] False ''e'')\<lparr>ut_open := True\<rparr>) = [Ok [6, 0, 1, 0, 2]]"
  using udp_in_step [of "(udp_new [] False ''e'')\<lparr>ut_open := True\<rparr>" "[[6, 0, 1, 0, 2]]" echo_answer 1]
  by (simp add: udp_new_def plain_reply_def echo_answer_def)

theorem udp_desync_forever_witness:
  "transacts echo_answer 1 [[6, 0, 1, 0, 2], [6, 0, 1, 0, 3]]
     ((udp_new [pack_mbap 0 1 [6, 0]] False ''e'')\<lparr>ut_open := True\<rparr>) =
   [Err (udp_err EC_Decoding ''transaction id mismatch'' False),
    Err (udp_err EC_Decoding ''transaction id mismatch'' False)]"
  using udp_desync_forever [of "(udp_new [pack_mbap 0 1 [6, 0]] False ''e'')\<lparr>ut_open := True\<rparr>" 1 "[6, 0]"
      "[[6, 0, 1, 0, 2], [6, 0, 1, 0, 3]]" echo_answer]
  by (simp add: udp_new_def plain_reply_def echo_answer_def)

text \<open>
  A Modbus exception is journalled with both its message and its code, and the replay tests the
  message first: the replayed read fails as a lost connection, without the exception code.
\<close>

theorem udp_exception_replayed_as_connection:
  assumes "ut_open t" "ut_has_log t" "ut_net t = []"
    and "answer pdu = f # data" "f AND 0x80 \<noteq> 0" "length data \<le> 252"
  shows "\<exists>e frame e'. snd (udp_transact (peer_net answer) t u pdu) = Err e \<and> err_code e = EC_ModbusException \<and>
    ut_log (fst (udp_transact (peer_net answer) t u pdu)) = ut_log t @ [frame] \<and>
    fr_exception_code frame = err_protocol_status e \<and>
    pdu_from_rx frame = Err e' \<and> err_code e' = EC_Connection \<and> err_protocol_status e' = None"
proof -
  have rv: "un_recv (peer_net answer) (d # q) = (q, Datagram d)" for d q by (simp add: peer_net_def)
  have "length (pack_mbap (ut_transaction_id t) u (answer pdu)) \<le> 260"
    using assms(4,6) by (simp add: pack_mbap_def append_u16_def Let_def)
  then have "unpack_adu (take 260 (pack_mbap (ut_transaction_id t) u (answer pdu))) =
      Err ((proto_err EC_ModbusException ''modbus exception'' True)\<lparr>err_protocol_status :=
        Some (case data of [] \<Rightarrow> -1 | x # _ \<Rightarrow> int (unat x))\<rparr>)"
    using unpack_pack [OF assms(4), of "ut_transaction_id t" u] assms(4-6) by simp
  then show ?thesis
    using assms(1-3)
    by (simp add: udp_transact_def Let_def peer_send rv udp_finish_def udp_emit_frame_def
        memory_log_frame_def pdu_from_rx_def replay_err_def proto_err_def mk_error_def)
qed

theorem udp_exception_replayed_as_connection_witness:
  "\<exists>e frame e'. snd (udp_transact (peer_net (\<lambda>p. [0x83, 2])) ((udp_new [] True ''e'')\<lparr>ut_open := True\<rparr>) 1 [3, 0]) = Err e \<and>
    err_code e = EC_ModbusException \<and>
    ut_log (fst (udp_transact (peer_net (\<lambda>p. [0x83, 2])) ((udp_new [] True ''e'')\<lparr>ut_open := True\<rparr>) 1 [3, 0])) = [frame] \<and>
    fr_exception_code frame = err_protocol_status e \<and>
    pdu_from_rx frame = Err e' \<and> err_code e' = EC_Connection \<and> err_protocol_status e' = None"
  using udp_exception_replayed_as_connection [of "(udp_new [] True ''e'')\<lparr>ut_open := True\<rparr>"
      "\<lambda>p. [0x83, 2]" "[3, 0]" "0x83" "[2]" 1]
  by (simp add: udp_new_def)

end
