(* ===== verification/Tcp_Transport.thy ===== *)
theory Tcp_Transport
  imports Udp_Transport
begin

text \<open>
  The Modbus TCP adapter of \<open>Src/adapters/modbus_tcp_transport.cpp\<close>. A transaction is a chain of
  completion handlers on one strand: the request is written, six header bytes and then the body are
  read, and a deadline timer cancels the pending operation. Each handler is an operation here, over
  the transport and the exchange in flight; \<open>tcp_transact\<close> runs them with the outcomes the network
  gives, and \<open>tcp_step\<close> is the relation of all orders in which Asio may call them. The network, the
  resolver and the clocks are the argument \<open>net\<close>. A call of \<open>close\<close> while an exchange is in flight is
  not modelled.
\<close>

section \<open>The network and the adapter\<close>

datatype io_error = OperationAborted string | EndOfFile string | OtherIo string

fun io_message :: "io_error \<Rightarrow> string" where
  "io_message (OperationAborted m) = m"
| "io_message (EndOfFile m) = m"
| "io_message (OtherIo m) = m"

datatype resolve_outcome = ResolveFailed string | ResolvedNothing | Resolved

record 'n tcp_net =
  tn_now :: "'n \<Rightarrow> timestamp_ms"
  tn_elapsed :: "'n \<Rightarrow> fp"
  tn_resolve :: "'n \<Rightarrow> string \<Rightarrow> string \<Rightarrow> 'n \<times> resolve_outcome"
  tn_connect :: "'n \<Rightarrow> 'n \<times> io_error option"
  tn_write :: "'n \<Rightarrow> u8 list \<Rightarrow> 'n \<times> io_error option"
  tn_read :: "'n \<Rightarrow> nat \<Rightarrow> 'n \<times> (io_error + u8 list)"
  tn_close :: "'n \<Rightarrow> 'n"

record 'n tcp_transport =
  tt_net :: 'n
  tt_response_timeout_ms :: int
  tt_has_log :: bool
  tt_log :: memory_frame_log
  tt_endpoint_id :: string
  tt_has_executor :: bool
  tt_worker :: bool
  tt_open :: bool
  tt_transaction_id :: u16
  tt_connected :: bool

definition tcp_err :: "error_code \<Rightarrow> string \<Rightarrow> bool \<Rightarrow> error" where
  "tcp_err c m r = mk_error c m ''adapters.modbus_tcp'' r"

definition tcp_new :: "'n \<Rightarrow> int \<Rightarrow> bool \<Rightarrow> string \<Rightarrow> 'n tcp_transport" where
  "tcp_new n timeout has_log eid =
     \<lparr>tt_net = n, tt_response_timeout_ms = (if timeout < 1 then 1 else timeout), tt_has_log = has_log,
      tt_log = [], tt_endpoint_id = eid, tt_has_executor = False, tt_worker = False, tt_open = False,
      tt_transaction_id = 1, tt_connected = False\<rparr>"

definition tcp_set_completion_executor :: "bool \<Rightarrow> 'n tcp_transport \<Rightarrow> 'n tcp_transport" where
  "tcp_set_completion_executor e t = t\<lparr>tt_has_executor := e\<rparr>"

definition tcp_set_frame_log :: "bool \<Rightarrow> 'n tcp_transport \<Rightarrow> 'n tcp_transport" where
  "tcp_set_frame_log l t = t\<lparr>tt_has_log := l\<rparr>"

definition tcp_set_endpoint_id :: "string \<Rightarrow> 'n tcp_transport \<Rightarrow> 'n tcp_transport" where
  "tcp_set_endpoint_id i t = t\<lparr>tt_endpoint_id := i\<rparr>"

definition ensure_worker :: "'n tcp_transport \<Rightarrow> 'n tcp_transport" where
  "ensure_worker t = (if tt_worker t then t else t\<lparr>tt_worker := True\<rparr>)"

definition stop_worker :: "'n tcp_transport \<Rightarrow> 'n tcp_transport" where
  "stop_worker t = t\<lparr>tt_worker := False\<rparr>"

definition tcp_emit_frame :: "'n tcp_net \<Rightarrow> frame_record \<Rightarrow> 'n tcp_transport \<Rightarrow> 'n tcp_transport" where
  "tcp_emit_frame net f t =
     (if \<not> tt_has_log t then t
      else let f = (if fr_endpoint_id f = [] then f\<lparr>fr_endpoint_id := tt_endpoint_id t\<rparr> else f);
               f = (if fr_ts_ms f = 0 then f\<lparr>fr_ts_ms := tn_now net (tt_net t)\<rparr> else f)
           in t\<lparr>tt_log := memory_log_frame f (tt_log t)\<rparr>)"

definition reset_socket :: "'n tcp_net \<Rightarrow> 'n tcp_transport \<Rightarrow> 'n tcp_transport" where
  "reset_socket net t = t\<lparr>tt_net := tn_close net (tt_net t), tt_open := False\<rparr>"

definition mark_disconnected :: "'n tcp_net \<Rightarrow> 'n tcp_transport \<Rightarrow> 'n tcp_transport" where
  "mark_disconnected net t =
     t\<lparr>tt_connected := False, tt_net := tn_close net (tt_net t), tt_open := False\<rparr>"

definition tcp_close :: "'n tcp_net \<Rightarrow> 'n tcp_transport \<Rightarrow> 'n tcp_transport" where
  "tcp_close net t =
     stop_worker (t\<lparr>tt_net := tn_close net (tt_net t), tt_open := False, tt_connected := False\<rparr>)"

definition tcp_is_connected :: "'n tcp_transport \<Rightarrow> bool" where
  "tcp_is_connected t \<longleftrightarrow> tt_connected t \<and> tt_open t"

text \<open>A completion runs at once, or is posted to the executor of the endpoint.\<close>

datatype 'a delivery = Inline 'a | Posted 'a

definition deliver :: "bool \<Rightarrow> 'a \<Rightarrow> 'n tcp_transport \<Rightarrow> 'a delivery" where
  "deliver inline_completion r t =
     (if \<not> inline_completion \<and> tt_has_executor t then Posted r else Inline r)"

fun delivered :: "'a delivery \<Rightarrow> 'a" where
  "delivered (Inline r) = r"
| "delivered (Posted r) = r"

fun map_delivery :: "('a \<Rightarrow> 'b) \<Rightarrow> 'a delivery \<Rightarrow> 'b delivery" where
  "map_delivery f (Inline r) = Inline (f r)"
| "map_delivery f (Posted r) = Posted (f r)"

section \<open>Connecting\<close>

definition tcp_connect ::
  "'n tcp_net \<Rightarrow> 'n tcp_transport \<Rightarrow> string \<Rightarrow> u16 \<Rightarrow> 'n tcp_transport \<times> unit result" where
  "tcp_connect net t host port =
     (let t = (reset_socket net (ensure_worker t))\<lparr>tt_connected := False\<rparr>
      in case tn_resolve net (tt_net t) host (show_int (uint port)) of (n, res) \<Rightarrow>
        let t = t\<lparr>tt_net := n\<rparr> in
        (case res of
           ResolveFailed m \<Rightarrow> (t, Err (tcp_err EC_InvalidArgument (''resolve failed: '' @ m) False))
         | ResolvedNothing \<Rightarrow> (t, Err (tcp_err EC_InvalidArgument (''resolve failed: '' @ host) False))
         | Resolved \<Rightarrow>
             (case tn_connect net (tt_net t) of
                (n, None) \<Rightarrow> (t\<lparr>tt_net := n, tt_open := True, tt_connected := True\<rparr>, Ok ())
              | (n, Some ec) \<Rightarrow>
                  ((reset_socket net (t\<lparr>tt_net := n, tt_open := True\<rparr>))\<lparr>tt_connected := False\<rparr>,
                   case ec of
                     OperationAborted _ \<Rightarrow> Err (tcp_err EC_Timeout ''operation timeout'' True)
                   | _ \<Rightarrow> Err (tcp_err EC_Connection (''connect failed: '' @ io_message ec) True)))))"

text \<open>\<open>async_connect\<close>: the same, with the result handed to the completion.\<close>

definition tcp_async_connect ::
  "'n tcp_net \<Rightarrow> 'n tcp_transport \<Rightarrow> string \<Rightarrow> u16 \<Rightarrow> 'n tcp_transport \<times> unit result delivery" where
  "tcp_async_connect net t host port =
     (case tcp_connect net t host port of (t, r) \<Rightarrow> (t, deliver False r t))"

section \<open>The handlers of a transaction\<close>

datatype tcp_phase = AwaitWrite | AwaitHeader | AwaitBody "u8 list" nat | Idle

datatype deadline_timer = Armed | Cancelled | Expired

record tcp_exchange =
  tx_phase :: tcp_phase
  tx_finished :: bool
  tx_deadline :: deadline_timer
  tx_cancelled :: bool
  tx_inline :: bool
  tx_frame :: frame_record
  tx_delivered :: "u8 list result delivery list"

type_synonym 'n tcp_state = "'n tcp_transport \<times> tcp_exchange"

definition tcp_frame_outcome :: "fp \<Rightarrow> u8 list result \<Rightarrow> frame_record \<Rightarrow> frame_record" where
  "tcp_frame_outcome rtt r f =
     (let f = f\<lparr>fr_rtt_ms := rtt\<rparr>
      in case r of
           Err e \<Rightarrow> (let f = f\<lparr>fr_error := Some (err_message e)\<rparr> in
                     if err_protocol_status e \<noteq> None
                     then f\<lparr>fr_exception_code := err_protocol_status e\<rparr> else f)
         | _ \<Rightarrow> f)"

definition disconnect_on :: "'n tcp_net \<Rightarrow> u8 list result \<Rightarrow> 'n tcp_transport \<Rightarrow> 'n tcp_transport" where
  "disconnect_on net r t = (case r of
     Err e \<Rightarrow> (if err_code e = EC_Connection \<or> err_code e = EC_Timeout
               then mark_disconnected net t else t)
   | _ \<Rightarrow> t)"

definition tcp_finish :: "'n tcp_net \<Rightarrow> u8 list result \<Rightarrow> 'n tcp_state \<Rightarrow> 'n tcp_state" where
  "tcp_finish net r st = (case st of (t, x) \<Rightarrow>
     let f = tcp_frame_outcome (tn_elapsed net (tt_net t)) r (tx_frame x);
         t = tcp_emit_frame net f (disconnect_on net r t)
     in (t, x\<lparr>tx_delivered := tx_delivered x @ [deliver (tx_inline x) r t]\<rparr>))"

text \<open>\<open>finished\<close> is set, the timer is cancelled and the outcome goes to \<open>finish\<close>.\<close>

definition tcp_complete :: "'n tcp_net \<Rightarrow> u8 list result \<Rightarrow> 'n tcp_state \<Rightarrow> 'n tcp_state" where
  "tcp_complete net r st = (case st of (t, x) \<Rightarrow>
     if tx_finished x then (t, x\<lparr>tx_phase := Idle\<rparr>)
     else tcp_finish net r
            (t, x\<lparr>tx_phase := Idle, tx_finished := True,
                  tx_deadline := (if tx_deadline x = Armed then Cancelled else tx_deadline x)\<rparr>))"

definition tcp_begin ::
  "'n tcp_net \<Rightarrow> bool \<Rightarrow> u8 \<Rightarrow> u8 list \<Rightarrow> 'n tcp_transport \<Rightarrow> 'n tcp_state" where
  "tcp_begin net inline_completion u pdu t =
     (let x = \<lparr>tx_phase = Idle, tx_finished = True, tx_deadline = Expired, tx_cancelled = False,
               tx_inline = inline_completion,
               tx_frame = \<lparr>fr_ts_ms = 0, fr_endpoint_id = [], fr_tx = [], fr_rx = [],
                           fr_exception_code = None, fr_rtt_ms = fp_zero64, fr_error = None\<rparr>,
               tx_delivered = []\<rparr>
      in if \<not> tt_connected t \<or> \<not> tt_open t
         then (t, x\<lparr>tx_delivered :=
                 [deliver inline_completion (Err (tcp_err EC_Connection ''not connected'' True)) t]\<rparr>)
         else let tid = tt_transaction_id t; t = t\<lparr>tt_transaction_id := tid + 1\<rparr>;
                  f = (tx_frame x)\<lparr>fr_ts_ms := tn_now net (tt_net t), fr_endpoint_id := tt_endpoint_id t,
                                  fr_tx := pack_mbap tid u pdu\<rparr>
              in (t, x\<lparr>tx_phase := AwaitWrite, tx_finished := False, tx_deadline := Armed, tx_frame := f\<rparr>))"

text \<open>The deadline handler: \<open>ec\<close> tells that the timer was cancelled.\<close>

definition tcp_on_deadline :: "bool \<Rightarrow> 'n tcp_state \<Rightarrow> 'n tcp_state" where
  "tcp_on_deadline ec st = (case st of (t, x) \<Rightarrow>
     if ec \<or> tx_finished x then (t, x\<lparr>tx_deadline := Expired\<rparr>)
     else (t, x\<lparr>tx_deadline := Expired, tx_cancelled := True\<rparr>))"

definition tcp_on_written :: "'n tcp_net \<Rightarrow> io_error option \<Rightarrow> 'n tcp_state \<Rightarrow> 'n tcp_state" where
  "tcp_on_written net ec st = (case st of (t, x) \<Rightarrow>
     if tx_finished x then (t, x\<lparr>tx_phase := Idle\<rparr>)
     else case ec of
            None \<Rightarrow> (t, x\<lparr>tx_phase := AwaitHeader\<rparr>)
          | Some (OperationAborted _) \<Rightarrow>
              tcp_complete net (Err (tcp_err EC_Timeout ''operation timeout'' True)) st
          | Some e \<Rightarrow>
              tcp_complete net (Err (tcp_err EC_Connection (''send failed: '' @ io_message e) True)) st)"

definition tcp_read_error :: "io_error \<Rightarrow> error" where
  "tcp_read_error ec = (case ec of
     OperationAborted _ \<Rightarrow> tcp_err EC_Timeout ''operation timeout'' True
   | EndOfFile _ \<Rightarrow> tcp_err EC_Connection ''peer closed'' True
   | OtherIo m \<Rightarrow> tcp_err EC_Connection (''recv failed: '' @ m) True)"

text \<open>A buffer of fixed size after a complete read.\<close>

definition fill_buffer :: "nat \<Rightarrow> u8 list \<Rightarrow> u8 list" where
  "fill_buffer k bs = take k (bs @ replicate k 0)"

definition tcp_on_header ::
  "'n tcp_net \<Rightarrow> io_error + u8 list \<Rightarrow> 'n tcp_state \<Rightarrow> 'n tcp_state" where
  "tcp_on_header net outcome st = (case st of (t, x) \<Rightarrow>
     if tx_finished x then (t, x\<lparr>tx_phase := Idle\<rparr>)
     else case outcome of
            Inl ec \<Rightarrow> tcp_complete net (Err (tcp_read_error ec)) st
          | Inr bs \<Rightarrow>
              let mbap = fill_buffer 6 bs; len = unat (join8 (mbap ! 4) (mbap ! 5)) in
              if len < 2 \<or> len > 254
              then tcp_complete net (Err (tcp_err EC_Decoding ''bad MBAP length'' False)) st
              else (t, x\<lparr>tx_phase := AwaitBody mbap len\<rparr>))"

definition tcp_body_result :: "u8 list \<Rightarrow> u8 list result" where
  "tcp_body_result body =
     (if length body < 2 then Err (tcp_err EC_Decoding ''short PDU'' False)
      else if body ! 1 AND 0x80 \<noteq> 0
      then Err ((tcp_err EC_ModbusException ''modbus exception'' True)
                \<lparr>err_protocol_status := Some (if length body > 2 then int (unat (body ! 2)) else -1)\<rparr>)
      else Ok (drop 1 body))"

definition tcp_on_body ::
  "'n tcp_net \<Rightarrow> u8 list \<Rightarrow> nat \<Rightarrow> io_error + u8 list \<Rightarrow> 'n tcp_state \<Rightarrow> 'n tcp_state" where
  "tcp_on_body net mbap len outcome st = (case st of (t, x) \<Rightarrow>
     case outcome of
       Inl ec \<Rightarrow> tcp_complete net (Err (tcp_read_error ec)) st
     | Inr bs \<Rightarrow>
         let body = fill_buffer len bs
         in tcp_complete net (tcp_body_result body)
              (t, x\<lparr>tx_frame := (tx_frame x)\<lparr>fr_rx := mbap @ body\<rparr>\<rparr>))"

section \<open>A transaction from start to end\<close>

definition tcp_write_stage :: "'n tcp_net \<Rightarrow> 'n tcp_state \<Rightarrow> 'n tcp_state" where
  "tcp_write_stage net st = (case st of (t, x) \<Rightarrow>
     if tx_phase x = AwaitWrite
     then case tn_write net (tt_net t) (fr_tx (tx_frame x)) of
            (n, ec) \<Rightarrow> tcp_on_written net ec (t\<lparr>tt_net := n\<rparr>, x)
     else st)"

definition tcp_header_stage :: "'n tcp_net \<Rightarrow> 'n tcp_state \<Rightarrow> 'n tcp_state" where
  "tcp_header_stage net st = (case st of (t, x) \<Rightarrow>
     if tx_phase x = AwaitHeader
     then case tn_read net (tt_net t) 6 of (n, r) \<Rightarrow> tcp_on_header net r (t\<lparr>tt_net := n\<rparr>, x)
     else st)"

definition tcp_body_stage :: "'n tcp_net \<Rightarrow> 'n tcp_state \<Rightarrow> 'n tcp_state" where
  "tcp_body_stage net st = (case st of (t, x) \<Rightarrow>
     case tx_phase x of
       AwaitBody mbap len \<Rightarrow>
         (case tn_read net (tt_net t) len of
            (n, r) \<Rightarrow> tcp_on_body net mbap len r (t\<lparr>tt_net := n\<rparr>, x))
     | _ \<Rightarrow> st)"

definition tcp_exchange_run ::
  "'n tcp_net \<Rightarrow> bool \<Rightarrow> u8 \<Rightarrow> u8 list \<Rightarrow> 'n tcp_transport \<Rightarrow> 'n tcp_state" where
  "tcp_exchange_run net inline_completion u pdu t =
     tcp_body_stage net (tcp_header_stage net (tcp_write_stage net
       (tcp_begin net inline_completion u pdu (ensure_worker t))))"

text \<open>\<open>async_transact\<close> with what its handler receives, and the blocking \<open>transact\<close>, whose handler
  fulfils a promise. A promise nobody fulfils would block for ever; that case is \<open>Undef\<close> here.\<close>

definition tcp_async_transact ::
  "'n tcp_net \<Rightarrow> bool \<Rightarrow> 'n tcp_transport \<Rightarrow> u8 \<Rightarrow> u8 list \<Rightarrow> 'n tcp_transport \<times> u8 list result delivery" where
  "tcp_async_transact net inline_completion t u pdu =
     (case tcp_exchange_run net inline_completion u pdu t of
        (t, x) \<Rightarrow> (t, case tx_delivered x of d # _ \<Rightarrow> d | [] \<Rightarrow> Inline Undef))"

definition tcp_transact :: "'n tcp_net \<Rightarrow> 'n tcp_transport transact" where
  "tcp_transact net t u pdu =
     (case tcp_async_transact net True t u pdu of (t, d) \<Rightarrow> (t, delivered d))"

definition tcp_ops :: "'n tcp_net \<Rightarrow> 'n tcp_transport transport_ops" where
  "tcp_ops net = \<lparr>tp_connect = tcp_connect net, tp_close = tcp_close net, tp_is_connected = tcp_is_connected,
     tp_read_holding_registers = \<lambda>t. modbus_read_registers (tcp_transact net) t 0x03,
     tp_read_input_registers = \<lambda>t. modbus_read_registers (tcp_transact net) t 0x04,
     tp_read_coils = \<lambda>t. modbus_read_bits (tcp_transact net) t 0x01,
     tp_read_discrete_inputs = \<lambda>t. modbus_read_bits (tcp_transact net) t 0x02,
     tp_write_single_register = modbus_write_single_register (tcp_transact net),
     tp_write_multiple_registers = modbus_write_multiple_registers (tcp_transact net),
     tp_write_single_coil = modbus_write_single_coil (tcp_transact net),
     tp_write_multiple_coils = modbus_write_multiple_coils (tcp_transact net)\<rparr>"

section \<open>The asynchronous operations\<close>

definition tcp_async_read_registers ::
  "'n tcp_net \<Rightarrow> u8 \<Rightarrow> 'n tcp_transport \<Rightarrow> u8 \<Rightarrow> u16 \<Rightarrow> u16 \<Rightarrow> 'n tcp_transport \<times> u16 list result delivery" where
  "tcp_async_read_registers net function t u address quantity =
     (case tcp_async_transact net False t u (make_read_registers_pdu function address quantity) of
        (t, d) \<Rightarrow> (t, map_delivery (\<lambda>resp. and_then resp (\<lambda>r. decode_register_response r quantity)) d))"

definition tcp_async_read_bits ::
  "'n tcp_net \<Rightarrow> u8 \<Rightarrow> 'n tcp_transport \<Rightarrow> u8 \<Rightarrow> u16 \<Rightarrow> u16 \<Rightarrow> 'n tcp_transport \<times> bool list result delivery" where
  "tcp_async_read_bits net function t u address quantity =
     (case tcp_async_transact net False t u (make_read_bits_pdu function address quantity) of
        (t, d) \<Rightarrow> (t, map_delivery (\<lambda>resp. and_then resp (\<lambda>r. decode_bits_response r quantity)) d))"

definition tcp_async_write ::
  "'n tcp_net \<Rightarrow> 'n tcp_transport \<Rightarrow> u8 \<Rightarrow> u8 list \<Rightarrow> 'n tcp_transport \<times> unit result delivery" where
  "tcp_async_write net t u pdu =
     (case tcp_async_transact net False t u pdu of
        (t, d) \<Rightarrow> (t, map_delivery (\<lambda>resp. and_then resp (\<lambda>_. Ok ())) d))"

definition tcp_async_write_multiple_coils ::
  "'n tcp_net \<Rightarrow> 'n tcp_transport \<Rightarrow> u8 \<Rightarrow> u16 \<Rightarrow> u8 list \<Rightarrow> 'n tcp_transport \<times> unit result delivery" where
  "tcp_async_write_multiple_coils net t u address values =
     (case make_write_multiple_coils_pdu address values of
        Ok pdu \<Rightarrow> tcp_async_write net t u pdu
      | Err e \<Rightarrow> (t, deliver False (Err e) t)
      | Undef \<Rightarrow> (t, Inline Undef))"

section \<open>Every order of completions\<close>

text \<open>
  Asio calls the handler of the operation in flight once, with an outcome of its choice, and the
  deadline handler once: with an error code only after the timer was cancelled. The network may move
  between two handlers.
\<close>

inductive tcp_step :: "'n tcp_net \<Rightarrow> 'n tcp_state \<Rightarrow> 'n tcp_state \<Rightarrow> bool" for net where
  written: "tx_phase x = AwaitWrite \<Longrightarrow> tcp_step net (t, x) (tcp_on_written net ec (t\<lparr>tt_net := n\<rparr>, x))"
| header: "tx_phase x = AwaitHeader \<Longrightarrow> tcp_step net (t, x) (tcp_on_header net r (t\<lparr>tt_net := n\<rparr>, x))"
| body: "tx_phase x = AwaitBody mbap len \<Longrightarrow>
    tcp_step net (t, x) (tcp_on_body net mbap len r (t\<lparr>tt_net := n\<rparr>, x))"
| deadline: "tx_deadline x = Armed \<and> \<not> ec \<or> tx_deadline x = Cancelled \<Longrightarrow>
    tcp_step net (t, x) (tcp_on_deadline ec (t\<lparr>tt_net := n\<rparr>, x))"

inductive_cases tcp_stepE: "tcp_step net (t, x) st"

definition exchange_ok :: "tcp_exchange \<Rightarrow> bool" where
  "exchange_ok x \<longleftrightarrow> (tx_finished x \<longleftrightarrow> tx_phase x = Idle) \<and>
     length (tx_delivered x) = (if tx_finished x then 1 else 0)"

fun phase_rank :: "tcp_phase \<Rightarrow> nat" where
  "phase_rank AwaitWrite = 3"
| "phase_rank AwaitHeader = 2"
| "phase_rank (AwaitBody mbap len) = 1"
| "phase_rank Idle = 0"

definition exchange_rank :: "tcp_exchange \<Rightarrow> nat" where
  "exchange_rank x = phase_rank (tx_phase x) + (if tx_deadline x = Expired then 0 else 1)"

lemmas tcp_handler_defs = tcp_on_written_def tcp_on_header_def tcp_on_body_def tcp_on_deadline_def

lemma tcp_finish_exchange [simp]:
  "tx_phase (snd (tcp_finish net r (t, x))) = tx_phase x"
  "tx_finished (snd (tcp_finish net r (t, x))) = tx_finished x"
  "tx_deadline (snd (tcp_finish net r (t, x))) = tx_deadline x"
  "tx_inline (snd (tcp_finish net r (t, x))) = tx_inline x"
  "length (tx_delivered (snd (tcp_finish net r (t, x)))) = Suc (length (tx_delivered x))"
  by (simp_all add: tcp_finish_def Let_def)

lemma tcp_complete_exchange:
  assumes "\<not> tx_finished x"
  shows "tx_phase (snd (tcp_complete net r (t, x))) = Idle"
    "tx_finished (snd (tcp_complete net r (t, x)))"
    "tx_deadline (snd (tcp_complete net r (t, x))) = (if tx_deadline x = Armed then Cancelled else tx_deadline x)"
    "length (tx_delivered (snd (tcp_complete net r (t, x)))) = Suc (length (tx_delivered x))"
  using assms by (simp_all add: tcp_complete_def)

lemma tcp_step_ok:
  assumes "tcp_step net st st'" "exchange_ok (snd st)"
  shows "exchange_ok (snd st') \<and> exchange_rank (snd st') < exchange_rank (snd st)"
  using assms
  by (cases rule: tcp_step.cases)
    (auto simp: tcp_handler_defs exchange_ok_def exchange_rank_def tcp_complete_exchange Let_def
      split: option.split io_error.split sum.split)

lemma tcp_begin_ok:
  "exchange_ok (snd (tcp_begin net inl u pdu t))" "exchange_rank (snd (tcp_begin net inl u pdu t)) \<le> 4"
  by (simp_all add: tcp_begin_def exchange_ok_def exchange_rank_def Let_def)

lemma tcp_steps_ok:
  assumes "(tcp_step net ^^ k) st st'" "exchange_ok (snd st)"
  shows "exchange_ok (snd st') \<and> exchange_rank (snd st') + k \<le> exchange_rank (snd st)"
  using assms
proof (induction k arbitrary: st')
  case (Suc k)
  then obtain m where "(tcp_step net ^^ k) st m" "tcp_step net m st'" by auto
  with Suc tcp_step_ok [of net m st'] show ?case by fastforce
qed auto

lemma tcp_stuck_idle:
  assumes "\<nexists>st'. tcp_step net (t, x) st'"
  shows "tx_phase x = Idle"
proof (cases "tx_phase x")
  case AwaitWrite
  then show ?thesis using assms tcp_step.written [of x net t] by blast
next
  case AwaitHeader
  then show ?thesis using assms tcp_step.header [of x net t] by blast
next
  case (AwaitBody mbap len)
  then show ?thesis using assms tcp_step.body [of x mbap len net t] by blast
qed simp

text \<open>
  C4: Whatever the order and the outcomes of the completions, the handler of a transaction is called
  at most once, and at most four handlers run. When none is left to run it has been called exactly
  once.
\<close>

theorem tcp_exactly_once:
  assumes "(tcp_step net ^^ k) (tcp_begin net inl u pdu t) (t', x)"
  shows "k \<le> 4 \<and> length (tx_delivered x) \<le> 1 \<and>
    ((\<nexists>st. tcp_step net (t', x) st) \<longrightarrow> length (tx_delivered x) = 1)"
  using tcp_steps_ok [OF assms] tcp_begin_ok [of net inl u pdu t] tcp_stuck_idle [of net t' x]
  by (auto simp: exchange_ok_def)

text \<open>The blocking run is one of these orders, with the deadline showing only as an aborted operation.\<close>

lemma tcp_stages_step:
  "(tcp_step net)\<^sup>*\<^sup>* (t, x) (tcp_write_stage net (t, x))"
  "(tcp_step net)\<^sup>*\<^sup>* (t, x) (tcp_header_stage net (t, x))"
  "(tcp_step net)\<^sup>*\<^sup>* (t, x) (tcp_body_stage net (t, x))"
  by (auto simp: tcp_write_stage_def tcp_header_stage_def tcp_body_stage_def
      split: tcp_phase.split prod.split intro!: r_into_rtranclp tcp_step.written tcp_step.header tcp_step.body)

lemma tcp_run_steps:
  "(tcp_step net)\<^sup>*\<^sup>* (tcp_begin net inl u pdu (ensure_worker t)) (tcp_exchange_run net inl u pdu t)"
  unfolding tcp_exchange_run_def by (metis rtranclp_trans tcp_stages_step surj_pair)


lemma tcp_stage_ok:
  assumes "exchange_ok (snd st)"
  shows "exchange_ok (snd (tcp_write_stage net st))" "exchange_ok (snd (tcp_header_stage net st))"
    "exchange_ok (snd (tcp_body_stage net st))"
  "tx_phase (snd (tcp_write_stage net st)) \<noteq> AwaitWrite"
  "tx_phase (snd st) \<noteq> AwaitWrite \<Longrightarrow> tx_phase (snd (tcp_header_stage net st)) \<notin> {AwaitWrite, AwaitHeader}"
  "tx_phase (snd st) \<notin> {AwaitWrite, AwaitHeader} \<Longrightarrow> tx_phase (snd (tcp_body_stage net st)) = Idle"
  using assms
  by (auto simp: tcp_write_stage_def tcp_header_stage_def tcp_body_stage_def tcp_handler_defs case_prod_unfold
      exchange_ok_def tcp_complete_exchange Let_def
      split: tcp_phase.split option.split io_error.split sum.split)

lemma tcp_run_ok: "exchange_ok (snd (tcp_exchange_run net inl u pdu t))"
  "tx_phase (snd (tcp_exchange_run net inl u pdu t)) = Idle"
  unfolding tcp_exchange_run_def by (intro tcp_stage_ok tcp_begin_ok)+

lemma tcp_run_delivers:
  obtains t' x d where "tcp_exchange_run net inl u pdu t = (t', x)" "tx_delivered x = [d]"
proof -
  have "length (tx_delivered (snd (tcp_exchange_run net inl u pdu t))) = 1"
    using tcp_run_ok [of net inl u pdu t] by (simp add: exchange_ok_def)
  then show ?thesis using that by (cases "tcp_exchange_run net inl u pdu t") (auto simp: length_Suc_conv)
qed

section \<open>The blocking and the completion-token transaction\<close>

text \<open>The exchange as the blocking caller sees it.\<close>

definition as_inline :: "tcp_exchange \<Rightarrow> tcp_exchange" where
  "as_inline x = x\<lparr>tx_inline := True, tx_delivered := map (\<lambda>d. Inline (delivered d)) (tx_delivered x)\<rparr>"

lemma as_inline_simps [simp]:
  "tx_phase (as_inline x) = tx_phase x" "tx_finished (as_inline x) = tx_finished x"
  "tx_deadline (as_inline x) = tx_deadline x" "tx_frame (as_inline x) = tx_frame x"
  "tx_delivered (as_inline x) = map (\<lambda>d. Inline (delivered d)) (tx_delivered x)"
  by (simp_all add: as_inline_def)

lemma delivered_deliver [simp]: "delivered (deliver inl r t) = r"
  by (simp add: deliver_def)

lemma tcp_complete_inline:
  "tcp_complete net r (t, as_inline x) = map_prod id as_inline (tcp_complete net r (t, x))"
  by (cases x) (simp add: tcp_complete_def tcp_finish_def Let_def as_inline_def deliver_def)

lemma as_inline_update:
  "(as_inline x)\<lparr>tx_phase := p\<rparr> = as_inline (x\<lparr>tx_phase := p\<rparr>)"
  "(as_inline x)\<lparr>tx_frame := f\<rparr> = as_inline (x\<lparr>tx_frame := f\<rparr>)"
  by (simp_all add: as_inline_def)

lemma tcp_stage_inline:
  "tcp_write_stage net (map_prod id as_inline st) = map_prod id as_inline (tcp_write_stage net st)"
  "tcp_header_stage net (map_prod id as_inline st) = map_prod id as_inline (tcp_header_stage net st)"
  "tcp_body_stage net (map_prod id as_inline st) = map_prod id as_inline (tcp_body_stage net st)"
  by (cases st; simp add: tcp_write_stage_def tcp_header_stage_def tcp_body_stage_def tcp_handler_defs
      case_prod_unfold tcp_complete_inline Let_def as_inline_update
      split: tcp_phase.split option.split io_error.split sum.split)+

lemma tcp_begin_inline: "tcp_begin net True u pdu t = map_prod id as_inline (tcp_begin net inl u pdu t)"
  by (simp add: tcp_begin_def Let_def as_inline_def deliver_def)

lemma tcp_run_inline: "tcp_exchange_run net True u pdu t = map_prod id as_inline (tcp_exchange_run net inl u pdu t)"
  unfolding tcp_exchange_run_def tcp_begin_inline [of net u pdu "ensure_worker t" inl]
  by (simp add: tcp_stage_inline)

lemma tcp_transact_async:
  "tcp_transact net t u pdu = map_prod id delivered (tcp_async_transact net inl t u pdu)"
proof -
  obtain t' x d where "tcp_exchange_run net inl u pdu t = (t', x)" "tx_delivered x = [d]"
    by (rule tcp_run_delivers)
  then show ?thesis
    by (simp add: tcp_transact_def tcp_async_transact_def tcp_run_inline [of net u pdu t inl])
qed

lemma delivered_map [simp]: "delivered (map_delivery f d) = f (delivered d)"
  by (cases d) simp_all


section \<open>Results and the connection\<close>

fun connection_lost :: "'a result \<Rightarrow> bool" where
  "connection_lost (Err e) \<longleftrightarrow> err_code e = EC_Connection \<or> err_code e = EC_Timeout"
| "connection_lost r \<longleftrightarrow> False"

definition settled :: "'n tcp_state \<Rightarrow> bool" where
  "settled st = (case st of (t, x) \<Rightarrow>
     if tx_finished x
     then \<exists>d. tx_delivered x = [d] \<and> delivered d \<noteq> Undef \<and> (tcp_is_connected t \<longleftrightarrow> \<not> connection_lost (delivered d))
     else tx_delivered x = [] \<and> tcp_is_connected t)"

lemma tcp_emit_frame_connected [simp]:
  "tcp_is_connected (tcp_emit_frame net f t) = tcp_is_connected t"
  by (simp add: tcp_emit_frame_def tcp_is_connected_def Let_def)

lemma disconnect_on_connected [simp]:
  "tcp_is_connected (disconnect_on net r t) \<longleftrightarrow> tcp_is_connected t \<and> \<not> connection_lost r"
  by (simp add: disconnect_on_def mark_disconnected_def tcp_is_connected_def split: result.split)

lemma tcp_is_connected_net [simp]: "tcp_is_connected (t\<lparr>tt_net := n\<rparr>) = tcp_is_connected t"
  by (simp add: tcp_is_connected_def)

lemma settled_complete: "settled (t, x) \<Longrightarrow> r \<noteq> Undef \<Longrightarrow> settled (tcp_complete net r (t, x))"
  by (auto simp: settled_def tcp_complete_def tcp_finish_def Let_def)

lemma settled_update: "settled (t, x) \<Longrightarrow> settled (t\<lparr>tt_net := n\<rparr>, x)"
  "settled (t, x) \<Longrightarrow> settled (t, x\<lparr>tx_phase := p\<rparr>)" "settled (t, x) \<Longrightarrow> settled (t, x\<lparr>tx_frame := f\<rparr>)"
  by (simp_all add: settled_def)

lemma tcp_body_result_defined [simp]: "tcp_body_result b \<noteq> Undef"
  by (simp add: tcp_body_result_def)

lemma settled_stage:
  assumes "settled st"
  shows "settled (tcp_write_stage net st)" "settled (tcp_header_stage net st)" "settled (tcp_body_stage net st)"
  using assms
  by (cases st; auto simp: tcp_write_stage_def tcp_header_stage_def tcp_body_stage_def tcp_handler_defs Let_def
      split: prod.split tcp_phase.split option.split io_error.split sum.split
      intro!: settled_complete settled_update)+

lemma settled_begin: "settled (tcp_begin net inl u pdu t)"
  by (auto simp: settled_def tcp_begin_def Let_def tcp_is_connected_def tcp_err_def mk_error_def)

lemma tcp_transact_settled:
  "snd (tcp_transact net t u pdu) \<noteq> Undef"
  "tcp_is_connected (fst (tcp_transact net t u pdu)) \<longleftrightarrow> \<not> connection_lost (snd (tcp_transact net t u pdu))"
proof -
  have "settled (tcp_exchange_run net True u pdu t)"
    unfolding tcp_exchange_run_def by (intro settled_stage settled_begin)
  moreover have "tx_finished (snd (tcp_exchange_run net True u pdu t))"
    using tcp_run_ok [of net True u pdu t] by (simp add: exchange_ok_def)
  ultimately show "snd (tcp_transact net t u pdu) \<noteq> Undef"
    "tcp_is_connected (fst (tcp_transact net t u pdu)) \<longleftrightarrow> \<not> connection_lost (snd (tcp_transact net t u pdu))"
    by (auto simp: settled_def tcp_transact_def tcp_async_transact_def split: prod.splits)
qed

interpretation tcp: register_port "tcp_ops net" for net
  by unfold_locales (simp_all add: tcp_ops_def sized_modbus_read_registers tcp_transact_settled)

text \<open>
  After a transaction the transport is connected exactly when its result is not a timeout or a
  connection error: a Modbus exception or an undecodable answer keeps the connection.
\<close>

theorem tcp_connection_after_transact:
  "tcp_is_connected (fst (tcp_transact net t u pdu)) \<longleftrightarrow> \<not> connection_lost (snd (tcp_transact net t u pdu))"
  by (rule tcp_transact_settled)

section \<open>A stream of answers\<close>

text \<open>
  A connection whose incoming bytes are the state: writing appends the answer of the peer, a read
  takes the bytes it needs or runs into the deadline.
\<close>

definition reply_frame :: "(u8 list \<Rightarrow> u8 list) \<Rightarrow> u8 list \<Rightarrow> u8 list" where
  "reply_frame answer req = pack_mbap (join8 (req ! 0) (req ! 1)) (req ! 6) (answer (drop 7 req))"

definition stream_net :: "(u8 list \<Rightarrow> u8 list) \<Rightarrow> u8 list tcp_net" where
  "stream_net answer = \<lparr>tn_now = \<lambda>_. 1, tn_elapsed = \<lambda>_. fp_zero64, tn_resolve = \<lambda>n _ _. (n, Resolved),
     tn_connect = \<lambda>n. (n, None), tn_write = \<lambda>n req. (n @ reply_frame answer req, None),
     tn_read = \<lambda>n k. if length n < k then (n, Inl (OperationAborted [])) else (drop k n, Inr (take k n)),
     tn_close = \<lambda>_. []\<rparr>"

lemma stream_net_simps [simp]:
  "tn_write (stream_net answer) n req = (n @ reply_frame answer req, None)"
  "tn_read (stream_net answer) n k =
     (if length n < k then (n, Inl (OperationAborted [])) else (drop k n, Inr (take k n)))"
  by (simp_all add: stream_net_def)

lemma reply_frame_pack [simp]: "reply_frame answer (pack_mbap tid u pdu) = pack_mbap tid u (answer pdu)"
  by (simp add: reply_frame_def pack_mbap_def append_u16_def Let_def eval_nat_numeral)

lemma fill_buffer_exact [simp]: "length bs = k \<Longrightarrow> fill_buffer k bs = bs"
  by (simp add: fill_buffer_def)

definition mbap_header :: "u16 \<Rightarrow> nat \<Rightarrow> u8 list" where
  "mbap_header tid len = [hi8 tid, lo8 tid, hi8 0, lo8 0, hi8 (of_nat len), lo8 (of_nat len)]"

lemma pack_mbap_header: "pack_mbap tid u pdu = mbap_header tid (1 + length pdu) @ u # pdu"
  by (simp add: pack_mbap_def append_u16_def mbap_header_def Let_def)

lemma mbap_header_length [simp]: "length (mbap_header tid n) = 6"
  by (simp add: mbap_header_def)

lemma mbap_header_field:
  "n < 65536 \<Longrightarrow> unat (join8 (mbap_header tid n ! 4) (mbap_header tid n ! 5)) = n"
  by (simp add: mbap_header_def unat_of_nat)

lemma tcp_begin_connected:
  assumes "tcp_is_connected t"
  obtains x where "tcp_begin net True u pdu (ensure_worker t) =
      (t\<lparr>tt_worker := True, tt_transaction_id := tt_transaction_id t + 1\<rparr>, x)"
    "tx_phase x = AwaitWrite" "\<not> tx_finished x" "tx_delivered x = []" "tx_inline x"
    "fr_tx (tx_frame x) = pack_mbap (tt_transaction_id t) u pdu"
  using assms by (auto simp: tcp_begin_def tcp_is_connected_def ensure_worker_def Let_def intro!: that)

lemma tcp_stream_frame:
  assumes "tcp_is_connected t" "plain_reply r"
    and "tt_net t @ pack_mbap (tt_transaction_id t) u (answer pdu) = pack_mbap i v r @ rest"
  shows "snd (tcp_transact (stream_net answer) t u pdu) = Ok r \<and>
    tt_net (fst (tcp_transact (stream_net answer) t u pdu)) = rest \<and>
    tt_transaction_id (fst (tcp_transact (stream_net answer) t u pdu)) = tt_transaction_id t + 1"
proof -
  have r: "r \<noteq> []" "length r \<le> 253" "r ! 0 AND 0x80 = 0"
    using assms(2) by (auto simp: plain_reply_def hd_conv_nth)
  have len: "length (pack_mbap i v r) = 7 + length r" by (simp add: pack_mbap_header)
  obtain x where x: "tcp_begin (stream_net answer) True u pdu (ensure_worker t) =
      (t\<lparr>tt_worker := True, tt_transaction_id := tt_transaction_id t + 1\<rparr>, x)"
    "tx_phase x = AwaitWrite" "\<not> tx_finished x" "tx_delivered x = []" "tx_inline x"
    "fr_tx (tx_frame x) = pack_mbap (tt_transaction_id t) u pdu"
    by (rule tcp_begin_connected [OF assms(1)])
  have b: "tcp_body_result (v # r) = Ok r"
    using r by (cases r) (simp_all add: tcp_body_result_def)
  show ?thesis
    using r
    by (simp add: tcp_transact_def tcp_async_transact_def tcp_exchange_run_def x tcp_write_stage_def
        tcp_on_written_def tcp_header_stage_def assms(3) pack_mbap_header [of i] tcp_on_header_def Let_def mbap_header_field
        tcp_body_stage_def tcp_on_body_def b tcp_complete_def tcp_finish_def disconnect_on_def tcp_emit_frame_def deliver_def)
qed

fun tcp_transacts :: "(u8 list \<Rightarrow> u8 list) \<Rightarrow> u8 \<Rightarrow> u8 list list \<Rightarrow> u8 list tcp_transport \<Rightarrow> u8 list result list" where
  "tcp_transacts answer u [] t = []"
| "tcp_transacts answer u (p # ps) t =
     (case tcp_transact (stream_net answer) t u p of (t, r) \<Rightarrow> r # tcp_transacts answer u ps t)"

lemma tcp_transact_connected:
  "snd (tcp_transact net t u pdu) = Ok r \<Longrightarrow> tcp_is_connected (fst (tcp_transact net t u pdu))"
  by (simp add: tcp_transact_settled(2))

text \<open>
  On a connected stream with nothing left over, each transaction of a sequence returns the answer
  to its own request, whatever the numbers of the transactions.
\<close>

theorem tcp_in_step:
  assumes "tcp_is_connected t" "tt_net t = []" "\<forall>p\<in>set ps. plain_reply (answer p)"
  shows "tcp_transacts answer u ps t = map (\<lambda>p. Ok (answer p)) ps"
  using assms
proof (induction ps arbitrary: t)
  case (Cons p ps)
  have *: "snd (tcp_transact (stream_net answer) t u p) = Ok (answer p) \<and>
      tt_net (fst (tcp_transact (stream_net answer) t u p)) = []"
    using tcp_stream_frame [OF Cons.prems(1), of "answer p" u answer p "tt_transaction_id t" u "[]"] Cons.prems by simp
  with Cons tcp_transact_connected [of "stream_net answer" t u p "answer p"] show ?case
    by (simp add: case_prod_unfold)
qed simp

text \<open>
  Nothing compares the transaction id of an answer with the request. When one well-formed frame is
  left in the stream, every transaction from then on succeeds with the answer to the request before it.
\<close>

theorem tcp_answers_lag:
  assumes "tcp_is_connected t" "tt_net t = pack_mbap i v r" "plain_reply r"
    and "\<forall>p\<in>set ps. plain_reply (answer p)"
  shows "tcp_transacts answer u ps t = map Ok (butlast (r # map answer ps))"
  using assms
proof (induction ps arbitrary: t i v r)
  case (Cons p ps)
  have *: "snd (tcp_transact (stream_net answer) t u p) = Ok r \<and>
      tt_net (fst (tcp_transact (stream_net answer) t u p)) = pack_mbap (tt_transaction_id t) u (answer p)"
    using tcp_stream_frame [OF Cons.prems(1,3)] Cons.prems(2) by simp
  with Cons.IH [of _ _ _ "answer p"] Cons.prems tcp_transact_connected [of "stream_net answer" t u p r] show ?case
    by (simp add: case_prod_unfold)
qed simp

text \<open>A header with an impossible length is rejected, but its frame stays in the stream and the
  connection stays open.\<close>

lemma tcp_bad_length:
  assumes "tcp_is_connected t" "tt_net t = mbap_header i n @ rest" "n < 2 \<or> 254 < n" "n < 65536"
  shows "snd (tcp_transact (stream_net answer) t u pdu) = Err (tcp_err EC_Decoding ''bad MBAP length'' False) \<and>
    tt_net (fst (tcp_transact (stream_net answer) t u pdu)) = rest @ pack_mbap (tt_transaction_id t) u (answer pdu) \<and>
    tcp_is_connected (fst (tcp_transact (stream_net answer) t u pdu))"
proof -
  obtain x where x: "tcp_begin (stream_net answer) True u pdu (ensure_worker t) =
      (t\<lparr>tt_worker := True, tt_transaction_id := tt_transaction_id t + 1\<rparr>, x)"
    "tx_phase x = AwaitWrite" "\<not> tx_finished x" "tx_delivered x = []" "tx_inline x"
    "fr_tx (tx_frame x) = pack_mbap (tt_transaction_id t) u pdu"
    by (rule tcp_begin_connected [OF assms(1)])
  have c: "err_code (tcp_err EC_Decoding ''bad MBAP length'' False) = EC_Decoding"
    by (simp add: tcp_err_def mk_error_def)
  have "snd (tcp_transact (stream_net answer) t u pdu) = Err (tcp_err EC_Decoding ''bad MBAP length'' False) \<and>
    tt_net (fst (tcp_transact (stream_net answer) t u pdu)) = rest @ pack_mbap (tt_transaction_id t) u (answer pdu)"
    using assms(3)
    by (simp add: tcp_transact_def tcp_async_transact_def tcp_exchange_run_def x tcp_write_stage_def
        tcp_on_written_def tcp_header_stage_def assms(2) tcp_on_header_def Let_def mbap_header_field [OF assms(4)]
        tcp_body_stage_def tcp_complete_def tcp_finish_def disconnect_on_def c tcp_emit_frame_def deliver_def)
  then show ?thesis by (simp add: tcp_transact_settled(2) c)
qed


section \<open>Concrete runs\<close>

definition lab_tcp :: "u8 list \<Rightarrow> u8 list tcp_transport" where
  "lab_tcp n = (tcp_new n 1000 False ''e'')\<lparr>tt_open := True, tt_connected := True\<rparr>"

lemma lab_tcp_simps [simp]: "tcp_is_connected (lab_tcp n)" "tt_net (lab_tcp n) = n"
  by (simp_all add: lab_tcp_def tcp_new_def tcp_is_connected_def)

theorem tcp_in_step_witness:
  "tcp_transacts echo_answer 1 [[6, 0, 1, 0, 2], [6, 0, 1, 0, 3]] (lab_tcp []) = [Ok [6, 0, 1, 0, 2], Ok [6, 0, 1, 0, 3]]"
  using tcp_in_step [of "lab_tcp []" "[[6, 0, 1, 0, 2], [6, 0, 1, 0, 3]]" echo_answer 1]
  by (simp add: plain_reply_def echo_answer_def)

theorem tcp_answers_lag_witness:
  "tcp_transacts echo_answer 1 [[6, 0, 1, 0, 2], [6, 0, 1, 0, 3]] (lab_tcp (pack_mbap 9 1 [6, 0, 7, 0, 7])) =
   [Ok [6, 0, 7, 0, 7], Ok [6, 0, 1, 0, 2]]"
  using tcp_answers_lag [of "lab_tcp (pack_mbap 9 1 [6, 0, 7, 0, 7])" 9 1 "[6, 0, 7, 0, 7]" "[[6, 0, 1, 0, 2], [6, 0, 1, 0, 3]]" echo_answer 1]
  by (simp add: plain_reply_def echo_answer_def)

lemma lab_tcp_run:
  "\<exists>k t x. (tcp_step (stream_net echo_answer) ^^ k) (tcp_begin (stream_net echo_answer) True 1 [6, 0] (ensure_worker (lab_tcp []))) (t, x) \<and>
    tx_delivered x = [Inline (Ok [6, 0])]"
proof -
  obtain t x d where r: "tcp_exchange_run (stream_net echo_answer) True 1 [6, 0] (lab_tcp []) = (t, x)" "tx_delivered x = [d]"
    by (rule tcp_run_delivers)
  have "snd (tcp_transact (stream_net echo_answer) (lab_tcp []) 1 [6, 0]) = Ok [6, 0]"
    using tcp_stream_frame [of "lab_tcp []" "[6, 0]" 1 echo_answer "[6, 0]" "tt_transaction_id (lab_tcp [])" 1 "[]"]
    by (simp add: echo_answer_def plain_reply_def)
  moreover have "d = Inline (delivered d)"
    using arg_cong [OF tcp_run_inline [of "stream_net echo_answer" 1 "[6, 0]" "lab_tcp []" True], of "tx_delivered \<circ> snd"] r
    by simp
  ultimately have "d = Inline (Ok [6, 0])"
    by (simp add: tcp_transact_def tcp_async_transact_def r)
  with r tcp_run_steps [of "stream_net echo_answer" True 1 "[6, 0]" "lab_tcp []"] show ?thesis
    by (auto simp: rtranclp_power)
qed

theorem tcp_exactly_once_witness:
  "\<exists>k t x. k \<le> 4 \<and> length (tx_delivered x) \<le> 1 \<and> tx_delivered x = [Inline (Ok [6, 0])] \<and>
    (tcp_step (stream_net echo_answer) ^^ k) (tcp_begin (stream_net echo_answer) True 1 [6, 0] (ensure_worker (lab_tcp []))) (t, x)"
  using lab_tcp_run tcp_exactly_once by blast

end
