(* ===== verification/Historian.thy ===== *)
theory Historian
  imports Tag_Store Text_Util
begin

text \<open>
  The historians: the port \<open>Src/ports/i_historian.hpp\<close> with its null object, the in-memory ring of
  \<open>Src/adapters/ring_historian.cpp\<close>, the SQLite historian of \<open>Src/adapters/sqlite_historian.cpp\<close> and
  the replay of samples into a tag store of \<open>Src/adapters/historian_replay.hpp\<close>. The SQLite library
  is the argument \<open>sql\<close> of the operations that call it; the text of a floating-point value and its
  parser are arguments of the conversions.
\<close>

section \<open>Samples and the ring\<close>

record historian_sample =
  hs_id :: tag_id
  hs_value :: tag_value

record ring_historian =
  rh_capacity :: nat
  rh_has_metrics :: bool
  rh_buffer :: "historian_sample list"
  rh_head :: nat
  rh_count :: nat
  rh_dropped :: u64
  rh_drop_metric :: nat

definition default_sample :: historian_sample where
  "default_sample = \<lparr>hs_id = 0, hs_value = default_tag_value\<rparr>"

definition ring_new :: "nat \<Rightarrow> bool \<Rightarrow> ring_historian" where
  "ring_new capacity has_metrics =
     (let cap = (if capacity = 0 then 1 else capacity)
      in \<lparr>rh_capacity = cap, rh_has_metrics = has_metrics, rh_buffer = replicate cap default_sample,
          rh_head = 0, rh_count = 0, rh_dropped = 0, rh_drop_metric = 0\<rparr>)"

definition ring_record :: "ring_historian \<Rightarrow> historian_sample \<Rightarrow> ring_historian" where
  "ring_record r x =
     (let r = (if rh_count r = rh_capacity r
               then r\<lparr>rh_dropped := rh_dropped r + 1,
                      rh_drop_metric := rh_drop_metric r + (if rh_has_metrics r then 1 else 0)\<rparr>
               else r\<lparr>rh_count := rh_count r + 1\<rparr>)
      in r\<lparr>rh_buffer := (rh_buffer r)[rh_head r := x],
           rh_head := (rh_head r + 1) mod rh_capacity r\<rparr>)"

definition ring_flush :: "ring_historian \<Rightarrow> ring_historian \<times> unit result" where
  "ring_flush r = (r, Ok ())"

definition ring_recent :: "ring_historian \<Rightarrow> nat \<Rightarrow> historian_sample list" where
  "ring_recent r m =
     map (\<lambda>i. rh_buffer r ! ((rh_head r + rh_capacity r - 1 - i) mod rh_capacity r))
       [0..<min m (rh_count r)]"

definition ring_snapshot :: "ring_historian \<Rightarrow> historian_sample list" where
  "ring_snapshot r =
     (let oldest = (rh_head r + rh_capacity r - rh_count r) mod rh_capacity r
      in map (\<lambda>i. rh_buffer r ! ((oldest + i) mod rh_capacity r)) [0..<rh_count r])"

section \<open>Replay\<close>

definition replay_samples ::
  "historian_sample list \<Rightarrow> 'h tag_store \<times> 'h change_calls \<Rightarrow> 'h tag_store \<times> 'h change_calls" where
  "replay_samples samples st =
     fold (\<lambda>x (s, calls). case publish s (hs_id x) (hs_value x) of (s', c) \<Rightarrow> (s', calls @ c)) samples st"

definition replay_recent ::
  "('s \<Rightarrow> nat \<Rightarrow> historian_sample list) \<Rightarrow> 's \<Rightarrow> nat \<Rightarrow>
     'h tag_store \<times> 'h change_calls \<Rightarrow> 'h tag_store \<times> 'h change_calls" where
  "replay_recent recent h m st = replay_samples (rev (recent h m)) st"

section \<open>The contract of a historian\<close>

text \<open>
  \<open>contents\<close> are the samples a historian still holds, oldest first. A new sample goes to the end,
  old ones may fall off the front, and \<open>recent\<close> lists them newest first.
\<close>

lemma drop_append_min: "drop k ys @ xs = drop (min k (length ys)) (ys @ xs)"
  by (cases "k \<le> length ys") (simp_all add: min_def)

locale historian_port =
  fixes inv :: "'s \<Rightarrow> bool"
    and contents :: "'s \<Rightarrow> historian_sample list"
    and rec :: "'s \<Rightarrow> historian_sample \<Rightarrow> 's"
    and recent :: "'s \<Rightarrow> nat \<Rightarrow> historian_sample list"
  assumes inv_record: "inv s \<Longrightarrow> inv (rec s x)"
    and record_contents: "inv s \<Longrightarrow> \<exists>k. contents (rec s x) = drop k (contents s @ [x])"
    and recent_contents: "inv s \<Longrightarrow> recent s m = take m (rev (contents s))"
begin

lemma inv_records: "inv s \<Longrightarrow> inv (fold (\<lambda>x s. rec s x) xs s)"
  by (induction xs arbitrary: s) (auto simp: inv_record)

lemma records_contents: "inv s \<Longrightarrow> \<exists>k. contents (fold (\<lambda>x s. rec s x) xs s) = drop k (contents s @ xs)"
proof (induction xs arbitrary: s)
  case (Cons x xs)
  obtain k where k: "contents (rec s x) = drop k (contents s @ [x])"
    using record_contents [OF Cons.prems] by blast
  obtain j where "contents (fold (\<lambda>x s. rec s x) xs (rec s x)) = drop j (drop k (contents s @ [x]) @ xs)"
    using Cons.IH [OF inv_record [OF Cons.prems], of x] k by auto
  moreover have "drop k (contents s @ [x]) @ xs = drop (min k (length (contents s @ [x]))) ((contents s @ [x]) @ xs)"
    by (rule drop_append_min)
  ultimately have "contents (fold (\<lambda>x s. rec s x) (x # xs) s) =
      drop (j + min k (length (contents s @ [x]))) (contents s @ x # xs)"
    by (simp del: drop_append)
  then show ?case by blast
qed (auto intro: exI [of _ 0])

text \<open>What replaying the newest samples does to a tag.\<close>

lemma replay_recent_window:
  assumes "inv s"
  shows "replay_recent recent s m st =
    replay_samples (drop (length (contents s) - m) (contents s)) st"
  using assms by (simp add: replay_recent_def recent_contents rev_take)

end

section \<open>The ring keeps the contract\<close>

definition ring_wf :: "ring_historian \<Rightarrow> bool" where
  "ring_wf r \<longleftrightarrow> 0 < rh_capacity r \<and> length (rh_buffer r) = rh_capacity r \<and>
     rh_head r < rh_capacity r \<and> rh_count r \<le> rh_capacity r"

lemma ring_wf_new: "ring_wf (ring_new c m)"
  by (simp add: ring_wf_def ring_new_def Let_def)

lemma ring_wf_record: "ring_wf r \<Longrightarrow> ring_wf (ring_record r x)"
  by (auto simp: ring_wf_def ring_record_def Let_def)

lemma ring_snapshot_length [simp]: "length (ring_snapshot r) = rh_count r"
  by (simp add: ring_snapshot_def Let_def)

lemma ring_snapshot_nth:
  assumes "ring_wf r" "i < rh_count r"
  shows "ring_snapshot r ! i = rh_buffer r ! ((rh_head r + (rh_capacity r - rh_count r) + i) mod rh_capacity r)"
  using assms by (simp add: ring_snapshot_def ring_wf_def Let_def mod_add_left_eq)

lemma ring_index_head:
  fixes h c d :: nat
  assumes "h < c" "0 < d" "d < c"
  shows "(h + d) mod c \<noteq> h"
proof (cases "h + d < c")
  case False
  then have "(h + d) mod c = h + d - c" using assms by (simp add: le_mod_geq)
  with False show ?thesis using assms by linarith
qed (use assms in simp)

lemma ring_record_snapshot:
  assumes wf: "ring_wf r"
  shows "ring_snapshot (ring_record r x) =
    drop (if rh_count r = rh_capacity r then 1 else 0) (ring_snapshot r @ [x])"
proof (rule nth_equalityI)
  show len: "length (ring_snapshot (ring_record r x)) =
      length (drop (if rh_count r = rh_capacity r then 1 else 0) (ring_snapshot r @ [x]))"
    using wf by (auto simp: ring_record_def ring_wf_def Let_def)
  fix i assume "i < length (ring_snapshot (ring_record r x))"
  then have i: "i < rh_count (ring_record r x)" by simp
  note n = ring_snapshot_nth [OF ring_wf_record [OF wf] i]
  let ?c = "rh_capacity r" and ?h = "rh_head r" and ?k = "rh_count r"
  have b: "rh_buffer (ring_record r x) = (rh_buffer r)[?h := x]" "rh_capacity (ring_record r x) = ?c"
      "rh_head (ring_record r x) = (?h + 1) mod ?c"
    by (simp_all add: ring_record_def Let_def)
  show "ring_snapshot (ring_record r x) ! i =
      drop (if rh_count r = rh_capacity r then 1 else 0) (ring_snapshot r @ [x]) ! i"
  proof (cases "?k = ?c")
    case True
    then have k: "rh_count (ring_record r x) = ?c" by (simp add: ring_record_def Let_def)
    have e: "ring_snapshot (ring_record r x) ! i = (rh_buffer r)[?h := x] ! ((?h + (1 + i)) mod ?c)"
      using n by (simp add: b k mod_add_left_eq)
    show ?thesis
    proof (cases "1 + i = ?c")
      case i: True
      then show ?thesis using e wf True by (simp add: ring_wf_def nth_append)
    next
      case i: False
      with k \<open>i < rh_count (ring_record r x)\<close> have "1 + i < ?c" by simp
      then show ?thesis
        using e wf True ring_index_head [of ?h ?c "1 + i"] ring_snapshot_nth [OF wf, of "Suc i"]
        by (simp add: ring_wf_def nth_append)
    qed
  next
    case False
    then have k: "rh_count (ring_record r x) = ?k + 1" by (simp add: ring_record_def Let_def)
    have lt: "?k < ?c" using wf False by (simp add: ring_wf_def)
    have e: "ring_snapshot (ring_record r x) ! i = (rh_buffer r)[?h := x] ! ((?h + (?c - ?k + i)) mod ?c)"
    proof -
      have "((?h + 1) mod ?c + (?c - (?k + 1) + i)) mod ?c = (?h + 1 + (?c - (?k + 1) + i)) mod ?c"
        by (rule mod_add_left_eq)
      also have "?h + 1 + (?c - (?k + 1) + i) = ?h + (?c - ?k + i)" using lt by simp
      finally show ?thesis using n by (simp only: b k add.assoc)
    qed
    show ?thesis
    proof (cases "i = ?k")
      case i: True
      then show ?thesis using e wf False lt by (simp add: ring_wf_def nth_append)
    next
      case i: False
      with k \<open>i < rh_count (ring_record r x)\<close> have ik: "i < ?k" by simp
      have "(?h + (?c - ?k + i)) mod ?c \<noteq> ?h"
        using wf ik lt by (intro ring_index_head) (auto simp: ring_wf_def)
      then show ?thesis
        using e wf False ik ring_snapshot_nth [OF wf ik] by (simp only: add.assoc) (simp add: nth_append)
    qed
  qed
qed

lemma ring_recent_snapshot:
  assumes wf: "ring_wf r"
  shows "ring_recent r m = take m (rev (ring_snapshot r))"
proof (rule nth_equalityI)
  show "length (ring_recent r m) = length (take m (rev (ring_snapshot r)))"
    by (simp add: ring_recent_def)
  fix i assume "i < length (ring_recent r m)"
  then have i: "i < m" "i < rh_count r" by (simp_all add: ring_recent_def)
  then have "take m (rev (ring_snapshot r)) ! i = ring_snapshot r ! (rh_count r - 1 - i)"
    by (simp add: rev_nth)
  also have "\<dots> = rh_buffer r ! ((rh_head r + (rh_capacity r - rh_count r) + (rh_count r - 1 - i)) mod rh_capacity r)"
    using i by (intro ring_snapshot_nth [OF wf]) simp
  also have "rh_head r + (rh_capacity r - rh_count r) + (rh_count r - 1 - i) = rh_head r + rh_capacity r - 1 - i"
    using i wf by (simp add: ring_wf_def)
  finally show "ring_recent r m ! i = take m (rev (ring_snapshot r)) ! i"
    using i by (simp add: ring_recent_def)
qed

interpretation ring: historian_port ring_wf ring_snapshot ring_record ring_recent
proof
  show "\<exists>k. ring_snapshot (ring_record r x) = drop k (ring_snapshot r @ [x])" if "ring_wf r" for r x
    using ring_record_snapshot [OF that] by blast
qed (simp_all add: ring_wf_record ring_recent_snapshot)

text \<open>The null object of the port.\<close>

definition null_record :: "unit \<Rightarrow> historian_sample \<Rightarrow> unit" where "null_record s x = ()"
definition null_recent :: "unit \<Rightarrow> nat \<Rightarrow> historian_sample list" where "null_recent s m = []"

interpretation null_historian: historian_port "\<lambda>_. True" "\<lambda>_. []" null_record null_recent
  by unfold_locales (auto simp: null_record_def null_recent_def intro: exI [of _ 1])

section \<open>What the ring holds\<close>

definition record_all :: "historian_sample list \<Rightarrow> ring_historian \<Rightarrow> ring_historian" where
  "record_all xs r = fold (\<lambda>x r. ring_record r x) xs r"

lemma record_all_snoc [simp]: "record_all (xs @ [x]) r = ring_record (record_all xs r) x"
  by (simp add: record_all_def)

lemma ring_record_fields [simp]:
  "rh_capacity (ring_record r x) = rh_capacity r"
  "rh_count (ring_record r x) = (if rh_count r = rh_capacity r then rh_count r else rh_count r + 1)"
  "rh_dropped (ring_record r x) = (if rh_count r = rh_capacity r then rh_dropped r + 1 else rh_dropped r)"
  by (simp_all add: ring_record_def Let_def)

lemma record_all_from_empty:
  assumes "ring_wf r" "rh_count r = 0" "rh_dropped r = 0"
  shows "ring_wf (record_all xs r) \<and> rh_capacity (record_all xs r) = rh_capacity r \<and>
    rh_count (record_all xs r) = min (length xs) (rh_capacity r) \<and>
    rh_dropped (record_all xs r) = of_nat (length xs - rh_capacity r) \<and>
    ring_snapshot (record_all xs r) = drop (length xs - rh_capacity r) xs"
proof (induction xs rule: rev_induct)
  case Nil
  then show ?case using assms by (simp add: record_all_def ring_snapshot_def)
next
  case (snoc x xs)
  have k: "0 < rh_capacity r" using assms by (simp add: ring_wf_def)
  show ?case
  proof (cases "length xs < rh_capacity r")
    case True
    then show ?thesis using snoc by (simp add: ring_wf_record ring_record_snapshot)
  next
    case False
    then have "length xs - rh_capacity r < length xs" using k by simp
    then show ?thesis using snoc False by (simp add: ring_wf_record ring_record_snapshot Suc_diff_le drop_Suc tl_drop)
  qed
qed

lemma record_all_spec:
  "ring_wf (record_all xs (ring_new c b)) \<and> rh_capacity (record_all xs (ring_new c b)) = max 1 c \<and>
   rh_count (record_all xs (ring_new c b)) = min (length xs) (max 1 c) \<and>
   rh_dropped (record_all xs (ring_new c b)) = of_nat (length xs - max 1 c) \<and>
   ring_snapshot (record_all xs (ring_new c b)) = drop (length xs - max 1 c) xs"
proof -
  have "rh_capacity (ring_new c b) = max 1 c" "rh_count (ring_new c b) = 0" "rh_dropped (ring_new c b) = 0"
    by (simp_all add: ring_new_def Let_def)
  with record_all_from_empty [OF ring_wf_new [of c b]] show ?thesis by simp
qed

text \<open>
  C11: After any samples were recorded, the ring of capacity \<open>c\<close> (at least one) holds exactly the last
  \<open>c\<close> of them in order, lists the newest first, and has counted every sample that fell out.
\<close>

theorem ring_historian_refines:
  "ring_snapshot (record_all xs (ring_new c b)) = drop (length xs - max 1 c) xs \<and>
   ring_recent (record_all xs (ring_new c b)) n = take n (rev (drop (length xs - max 1 c) xs)) \<and>
   rh_count (record_all xs (ring_new c b)) = min (length xs) (max 1 c) \<and>
   rh_dropped (record_all xs (ring_new c b)) = of_nat (length xs - max 1 c)"
  using record_all_spec [of xs c b] by (simp add: ring_recent_snapshot)

definition sample_map :: "historian_sample list \<Rightarrow> tag_id \<Rightarrow> tag_value option" where
  "sample_map xs = map_of (map (\<lambda>x. (hs_id x, hs_value x)) (rev xs))"

lemma replay_samples_get:
  "get (fst (replay_samples xs st)) i = (case sample_map xs i of Some v \<Rightarrow> Some v | None \<Rightarrow> get (fst st) i)"
  by (induction xs rule: rev_induct)
    (auto simp: replay_samples_def sample_map_def case_prod_unfold get_publish split: option.splits)

text \<open>
  Replaying the newest \<open>n\<close> samples of the ring restores, for every tag with a sample among the last
  \<open>min n c\<close> recorded ones, the value of its last sample, and keeps the other tags.
\<close>

theorem replay_recent_restores:
  "get (fst (replay_recent ring_recent (record_all xs (ring_new c b)) n (s, calls))) i =
   (case sample_map (drop (length xs - min n (max 1 c)) xs) i of Some v \<Rightarrow> Some v | None \<Rightarrow> get s i)"
proof -
  have "drop (length (drop (length xs - max 1 c) xs) - n) (drop (length xs - max 1 c) xs) =
      drop (length xs - min n (max 1 c)) xs"
    by (auto simp: min_def intro!: arg_cong [of _ _ "\<lambda>k. drop k xs"])
  then show ?thesis
    using record_all_spec [of xs c b] by (simp add: ring.replay_recent_window replay_samples_get split: option.split)
qed

section \<open>The SQLite historian\<close>

text \<open>Values in the cold table: a type name and a text.\<close>

record fp_text =
  ft_show32 :: "fp \<Rightarrow> string"
  ft_show64 :: "fp \<Rightarrow> string"
  ft_stof :: "string \<Rightarrow> fp option"
  ft_stod :: "string \<Rightarrow> fp option"

definition sql_err :: "string \<Rightarrow> error" where
  "sql_err m = mk_error EC_Internal m ''adapters.sqlite_historian'' False"

fun value_type_name :: "scalar_value \<Rightarrow> string" where
  "value_type_name SMono = ''null''"
| "value_type_name (SBool b) = ''bool''"
| "value_type_name (SU16 w) = ''u16''"
| "value_type_name (SI16 w) = ''i16''"
| "value_type_name (SU32 w) = ''u32''"
| "value_type_name (SI32 w) = ''i32''"
| "value_type_name (SF32 x) = ''f32''"
| "value_type_name (SF64 x) = ''f64''"

fun value_to_text :: "fp_text \<Rightarrow> scalar_value \<Rightarrow> string" where
  "value_to_text ft SMono = []"
| "value_to_text ft (SBool b) = (if b then ''1'' else ''0'')"
| "value_to_text ft (SU16 w) = show_int (uint w)"
| "value_to_text ft (SI16 w) = show_int (sint w)"
| "value_to_text ft (SU32 w) = show_int (uint w)"
| "value_to_text ft (SI32 w) = show_int (sint w)"
| "value_to_text ft (SF32 x) = ft_show32 ft x"
| "value_to_text ft (SF64 x) = ft_show64 ft x"

text \<open>\<open>std::stoul\<close> of a 64-bit \<open>unsigned long\<close> (a minus sign negates modulo \<open>2 ^ 64\<close>) and \<open>std::stol\<close>.\<close>

definition stoul :: "string \<Rightarrow> int option" where
  "stoul s = map_option (\<lambda>(v, _). v mod 2 ^ 64) (read_int (- (2 ^ 64 - 1)) (2 ^ 64 - 1) s)"

definition stol :: "string \<Rightarrow> int option" where
  "stol s = map_option fst (read_int64 s)"

definition parsed_value :: "('a \<Rightarrow> scalar_value) \<Rightarrow> 'a option \<Rightarrow> scalar_value result" where
  "parsed_value f r = (case r of Some x \<Rightarrow> Ok (f x) | None \<Rightarrow> Err (sql_err ''failed to parse cold value''))"

definition text_to_value :: "fp_text \<Rightarrow> string \<Rightarrow> string \<Rightarrow> scalar_value result" where
  "text_to_value ft ty s =
     (if ty = ''null'' \<or> ty = [] then Ok SMono
      else if ty = ''bool'' then Ok (SBool (s = ''1'' \<or> s = ''true''))
      else if ty = ''u16'' then parsed_value (\<lambda>n. SU16 (word_of_int n)) (stoul s)
      else if ty = ''i16'' then parsed_value (\<lambda>n. SI16 (word_of_int n)) (stoi s)
      else if ty = ''u32'' then parsed_value (\<lambda>n. SU32 (word_of_int n)) (stoul s)
      else if ty = ''i32'' then parsed_value (\<lambda>n. SI32 (word_of_int n)) (stol s)
      else if ty = ''f32'' then parsed_value SF32 (ft_stof ft s)
      else if ty = ''f64'' then parsed_value SF64 (ft_stod ft s)
      else Err (sql_err (''unknown value type: '' @ ty)))"

record sample_row =
  row_tag_id :: int
  row_server_ts :: int
  row_source_ts :: int
  row_quality :: int
  row_reason :: int
  row_epoch :: int
  row_value_type :: string
  row_value_text :: string

fun quality_number :: "quality \<Rightarrow> int" where
  "quality_number Good = 0" | "quality_number Uncertain = 1" | "quality_number Bad = 2"

definition all_reasons :: "quality_reason list" where
  "all_reasons = [QR_None, QR_NoCommunication, QR_DeviceFailure, QR_Timeout, QR_ModbusException,
     QR_DecodingError, QR_Stale, QR_WritePending, QR_WriteRejected, QR_OutOfRange]"

fun reason_number :: "quality_reason \<Rightarrow> int" where
  "reason_number QR_None = 0" | "reason_number QR_NoCommunication = 1" | "reason_number QR_DeviceFailure = 2"
| "reason_number QR_Timeout = 3" | "reason_number QR_ModbusException = 4" | "reason_number QR_DecodingError = 5"
| "reason_number QR_Stale = 6" | "reason_number QR_WritePending = 7" | "reason_number QR_WriteRejected = 8"
| "reason_number QR_OutOfRange = 9"

text \<open>The casts back narrow to the underlying type; a number without an enumerator is \<open>Undef\<close> here.\<close>

definition quality_of_number :: "int \<Rightarrow> quality result" where
  "quality_of_number n =
     (let k = n mod 256 in if k = 0 then Ok Good else if k = 1 then Ok Uncertain else if k = 2 then Ok Bad else Undef)"

definition reason_of_number :: "int \<Rightarrow> quality_reason result" where
  "reason_of_number n = read_at all_reasons (nat (n mod 65536))"

definition row_of_sample :: "fp_text \<Rightarrow> historian_sample \<Rightarrow> sample_row" where
  "row_of_sample ft x = (let v = hs_value x in
     \<lparr>row_tag_id = uint (hs_id x), row_server_ts = tv_server_ts v, row_source_ts = tv_source_ts v,
      row_quality = quality_number (tv_quality v), row_reason = reason_number (tv_reason v),
      row_epoch = sint (tv_epoch v), row_value_type = value_type_name (tv_value v),
      row_value_text = value_to_text ft (tv_value v)\<rparr>)"

definition sample_of_row :: "fp_text \<Rightarrow> sample_row \<Rightarrow> historian_sample result" where
  "sample_of_row ft r =
     and_then (quality_of_number (row_quality r)) (\<lambda>q.
     and_then (reason_of_number (row_reason r)) (\<lambda>why.
     and_then (text_to_value ft (row_value_type r) (row_value_text r)) (\<lambda>v.
     Ok \<lparr>hs_id = word_of_int (row_tag_id r),
         hs_value = \<lparr>tv_value = v, tv_quality = q, tv_reason = why, tv_source_ts = row_source_ts r,
           tv_server_ts = row_server_ts r, tv_epoch = word_of_int (row_epoch r)\<rparr>\<rparr>)))"

text \<open>The calls of the SQLite library; a failed \<open>exec\<close> may or may not come with a message.\<close>

datatype 'db open_outcome = Opened 'db | OpenFailed "string option"
datatype exec_outcome = ExecOk | ExecFailed "string option"

record 'db sqlite_api =
  sq_open :: "string \<Rightarrow> 'db open_outcome"
  sq_schema :: "'db \<Rightarrow> 'db \<times> exec_outcome"
  sq_begin :: "'db \<Rightarrow> 'db \<times> exec_outcome"
  sq_prepare_insert :: "'db \<Rightarrow> string option"
  sq_insert :: "'db \<Rightarrow> sample_row \<Rightarrow> 'db \<times> string option"
  sq_commit :: "'db \<Rightarrow> 'db \<times> exec_outcome"
  sq_rollback :: "'db \<Rightarrow> 'db"
  sq_select :: "'db \<Rightarrow> nat \<Rightarrow> string + sample_row list"

record 'db sqlite_historian =
  sh_has_metrics :: bool
  sh_hot :: ring_historian
  sh_db :: "'db option"
  sh_open_error :: "error option"
  sh_pending :: "historian_sample list"
  sh_pending_cap :: nat
  sh_cold_pending_dropped :: u64
  sh_counters :: "(string \<times> nat) list"

fun exec_message :: "string \<Rightarrow> string option \<Rightarrow> string" where
  "exec_message fallback (Some m) = m"
| "exec_message fallback None = fallback"

definition sqlite_ensure_schema :: "'db sqlite_api \<Rightarrow> 'db \<Rightarrow> 'db \<times> unit result" where
  "sqlite_ensure_schema sql db = (case sq_schema sql db of
     (db, ExecOk) \<Rightarrow> (db, Ok ())
   | (db, ExecFailed m) \<Rightarrow> (db, Err (sql_err (exec_message ''schema failed'' m))))"

definition sqlite_new :: "'db sqlite_api \<Rightarrow> string \<Rightarrow> nat \<Rightarrow> bool \<Rightarrow> 'db sqlite_historian" where
  "sqlite_new sql path hot_capacity has_metrics =
     (let h = \<lparr>sh_has_metrics = has_metrics, sh_hot = ring_new hot_capacity has_metrics, sh_db = None,
               sh_open_error = None, sh_pending = [], sh_pending_cap = (if hot_capacity = 0 then 1 else hot_capacity),
               sh_cold_pending_dropped = 0, sh_counters = []\<rparr>
      in case sq_open sql path of
           OpenFailed m \<Rightarrow> h\<lparr>sh_open_error := Some (sql_err (''sqlite3_open failed: '' @ exec_message ''unknown'' m))\<rparr>
         | Opened db \<Rightarrow>
             (case sqlite_ensure_schema sql db of
                (db, Ok _) \<Rightarrow> h\<lparr>sh_db := Some db\<rparr>
              | (db, Err e) \<Rightarrow> h\<lparr>sh_open_error := Some e\<rparr>
              | (db, Undef) \<Rightarrow> h))"

definition sqlite_record :: "'db sqlite_historian \<Rightarrow> historian_sample \<Rightarrow> 'db sqlite_historian" where
  "sqlite_record h x = h\<lparr>sh_hot := ring_record (sh_hot h) x, sh_pending := sh_pending h @ [x]\<rparr>"

fun insert_rows :: "'db sqlite_api \<Rightarrow> fp_text \<Rightarrow> historian_sample list \<Rightarrow> 'db \<Rightarrow> 'db \<times> unit result" where
  "insert_rows sql ft [] db = (db, Ok ())"
| "insert_rows sql ft (x # xs) db =
     (case sq_insert sql db (row_of_sample ft x) of
        (db, None) \<Rightarrow> insert_rows sql ft xs db
      | (db, Some m) \<Rightarrow> (sq_rollback sql db, Err (sql_err m)))"

definition open_failure :: "'db sqlite_historian \<Rightarrow> error" where
  "open_failure h = (case sh_open_error h of Some e \<Rightarrow> e | None \<Rightarrow> sql_err ''database not open'')"

definition insert_batch ::
  "'db sqlite_api \<Rightarrow> fp_text \<Rightarrow> historian_sample list \<Rightarrow> 'db \<Rightarrow> 'db \<times> unit result" where
  "insert_batch sql ft batch db =
     (if batch = [] then (db, Ok ())
      else case sq_begin sql db of
             (db, ExecFailed m) \<Rightarrow> (db, Err (sql_err (exec_message ''BEGIN failed'' m)))
           | (db, ExecOk) \<Rightarrow>
               (case sq_prepare_insert sql db of
                  Some m \<Rightarrow> (sq_rollback sql db, Err (sql_err m))
                | None \<Rightarrow>
                    (case insert_rows sql ft batch db of
                       (db, Ok _) \<Rightarrow>
                         (case sq_commit sql db of
                            (db, ExecOk) \<Rightarrow> (db, Ok ())
                          | (db, ExecFailed m) \<Rightarrow>
                              (sq_rollback sql db, Err (sql_err (exec_message ''COMMIT failed'' m))))
                     | (db, r) \<Rightarrow> (db, r))))"

definition sqlite_insert_batch ::
  "'db sqlite_api \<Rightarrow> fp_text \<Rightarrow> historian_sample list \<Rightarrow> 'db sqlite_historian \<Rightarrow> 'db sqlite_historian \<times> unit result" where
  "sqlite_insert_batch sql ft batch h = (case sh_db h of
     None \<Rightarrow> (h, Err (open_failure h))
   | Some db \<Rightarrow> (case insert_batch sql ft batch db of (db, r) \<Rightarrow> (h\<lparr>sh_db := Some db\<rparr>, r)))"

definition sqlite_counter :: "string \<Rightarrow> nat \<Rightarrow> 'db sqlite_historian \<Rightarrow> 'db sqlite_historian" where
  "sqlite_counter name n h = (if sh_has_metrics h then h\<lparr>sh_counters := sh_counters h @ [(name, n)]\<rparr> else h)"

text \<open>A failed batch goes back to the front of the queue, whose oldest samples give way.\<close>

definition requeue_pending :: "historian_sample list \<Rightarrow> 'db sqlite_historian \<Rightarrow> 'db sqlite_historian" where
  "requeue_pending batch h =
     (let pending = batch @ sh_pending h; max_pending = sh_pending_cap h * 4;
          dropped = length pending - max_pending
      in if length pending > max_pending
         then sqlite_counter ''historian.cold_pending_dropped'' dropped
                (h\<lparr>sh_pending := drop dropped pending,
                   sh_cold_pending_dropped := sh_cold_pending_dropped h + of_nat dropped\<rparr>)
         else h\<lparr>sh_pending := pending\<rparr>)"

definition sqlite_flush ::
  "'db sqlite_api \<Rightarrow> fp_text \<Rightarrow> 'db sqlite_historian \<Rightarrow> 'db sqlite_historian \<times> unit result" where
  "sqlite_flush sql ft h =
     (let batch = sh_pending h; h = h\<lparr>sh_pending := []\<rparr>
      in case sqlite_insert_batch sql ft batch h of
           (h, Ok _) \<Rightarrow> (sqlite_counter ''historian.cold_flushed'' (length batch) h, Ok ())
         | (h, r) \<Rightarrow> (requeue_pending batch h, r))"

definition sqlite_recent :: "'db sqlite_historian \<Rightarrow> nat \<Rightarrow> historian_sample list" where
  "sqlite_recent h m = ring_recent (sh_hot h) m"

definition sqlite_dropped :: "'db sqlite_historian \<Rightarrow> u64" where
  "sqlite_dropped h = rh_dropped (sh_hot h) + sh_cold_pending_dropped h"

fun samples_of_rows :: "fp_text \<Rightarrow> sample_row list \<Rightarrow> historian_sample list result" where
  "samples_of_rows ft [] = Ok []"
| "samples_of_rows ft (r # rs) =
     and_then (sample_of_row ft r) (\<lambda>x. and_then (samples_of_rows ft rs) (\<lambda>xs. Ok (x # xs)))"

definition load_cold :: "'db sqlite_api \<Rightarrow> fp_text \<Rightarrow> 'db sqlite_historian \<Rightarrow> nat \<Rightarrow> historian_sample list result" where
  "load_cold sql ft h m = (case sh_db h of
     None \<Rightarrow> Err (open_failure h)
   | Some db \<Rightarrow> (case sq_select sql db m of
       Inl e \<Rightarrow> Err (sql_err e)
     | Inr rows \<Rightarrow> samples_of_rows ft rows))"

interpretation sqlite: historian_port "\<lambda>h. ring_wf (sh_hot h)" "\<lambda>h. ring_snapshot (sh_hot h)" sqlite_record sqlite_recent
  using ring.inv_record ring.record_contents ring.recent_contents
  by unfold_locales (simp_all add: sqlite_record_def sqlite_recent_def)

section \<open>Cold storage\<close>

text \<open>
  What SQLite documents about transactions, for the rows \<open>stored\<close> durably and the rows \<open>added\<close> in the
  open transaction: inserts are invisible until the commit, and everything that fails or is rolled
  back leaves the stored rows alone.
\<close>

definition sql_transactional ::
  "'db sqlite_api \<Rightarrow> ('db \<Rightarrow> sample_row list) \<Rightarrow> ('db \<Rightarrow> sample_row list) \<Rightarrow> bool" where
  "sql_transactional sql stored added \<longleftrightarrow>
     (\<forall>db. stored (fst (sq_begin sql db)) = stored db) \<and>
     (\<forall>db. snd (sq_begin sql db) = ExecOk \<longrightarrow> added (fst (sq_begin sql db)) = []) \<and>
     (\<forall>db r. stored (fst (sq_insert sql db r)) = stored db) \<and>
     (\<forall>db r. snd (sq_insert sql db r) = None \<longrightarrow> added (fst (sq_insert sql db r)) = added db @ [r]) \<and>
     (\<forall>db. snd (sq_commit sql db) = ExecOk \<longrightarrow> stored (fst (sq_commit sql db)) = stored db @ added db) \<and>
     (\<forall>db. snd (sq_commit sql db) \<noteq> ExecOk \<longrightarrow> stored (fst (sq_commit sql db)) = stored db) \<and>
     (\<forall>db. stored (sq_rollback sql db) = stored db)"

lemma insert_rows_transactional:
  assumes "sql_transactional sql stored added"
  shows "stored (fst (insert_rows sql ft xs db)) = stored db \<and> snd (insert_rows sql ft xs db) \<noteq> Undef \<and>
    (snd (insert_rows sql ft xs db) = Ok () \<longrightarrow>
      added (fst (insert_rows sql ft xs db)) = added db @ map (row_of_sample ft) xs)"
proof (induction xs arbitrary: db)
  case (Cons x xs)
  show ?case
  proof (cases "snd (sq_insert sql db (row_of_sample ft x))")
    case None
    then obtain db' where i: "sq_insert sql db (row_of_sample ft x) = (db', None)" by (metis prod.collapse)
    then have "stored db' = stored db" "added db' = added db @ [row_of_sample ft x]"
      using assms by (auto simp: sql_transactional_def dest: spec2 [of _ db "row_of_sample ft x"])
    then show ?thesis using Cons.IH [of db'] by (simp add: i)
  next
    case (Some m)
    then obtain db' where i: "sq_insert sql db (row_of_sample ft x) = (db', Some m)" by (metis prod.collapse)
    then have "stored db' = stored db"
      using assms by (auto simp: sql_transactional_def dest: spec2 [of _ db "row_of_sample ft x"])
    then show ?thesis using assms by (simp add: i sql_transactional_def)
  qed
qed simp

lemma insert_batch_transactional:
  assumes t: "sql_transactional sql stored added"
  shows "snd (insert_batch sql ft xs db) \<noteq> Undef \<and>
    stored (fst (insert_batch sql ft xs db)) =
      (if is_ok (snd (insert_batch sql ft xs db)) then stored db @ map (row_of_sample ft) xs else stored db)"
proof (cases "xs = []")
  case False
  obtain db1 r1 where b: "sq_begin sql db = (db1, r1)" by (cases "sq_begin sql db")
  have s1: "stored db1 = stored db" "r1 = ExecOk \<longrightarrow> added db1 = []"
    using t b unfolding sql_transactional_def by (metis fst_conv snd_conv)+
  obtain db2 r2 where i: "insert_rows sql ft xs db1 = (db2, r2)" by (cases "insert_rows sql ft xs db1")
  have s2: "stored db2 = stored db1" "r2 \<noteq> Undef" "r2 = Ok () \<longrightarrow> added db2 = added db1 @ map (row_of_sample ft) xs"
    using insert_rows_transactional [OF t, of ft xs db1] i by auto
  obtain db3 r3 where c: "sq_commit sql db2 = (db3, r3)" by (cases "sq_commit sql db2")
  have s3: "r3 = ExecOk \<longrightarrow> stored db3 = stored db2 @ added db2" "r3 \<noteq> ExecOk \<longrightarrow> stored db3 = stored db2"
    using t c unfolding sql_transactional_def by (metis fst_conv snd_conv)+
  have rb: "stored (sq_rollback sql d) = stored d" for d using t by (simp add: sql_transactional_def)
  show ?thesis using False s1 s2 s3
    by (auto simp: insert_batch_def b i c rb split: exec_outcome.split option.split result.split)
qed (simp add: insert_batch_def)

text \<open>
  C34: A flush loses no sample silently. With a transactional database a successful flush appends all
  pending samples to the table, in order; a failed one leaves the table alone and keeps the pending
  samples up to four times the capacity, dropping and counting the oldest.
\<close>

theorem sqlite_flush_conserves:
  assumes "sql_transactional sql stored added" "sh_db h = Some db"
  shows "case sqlite_flush sql ft h of
     (h', Ok _) \<Rightarrow> sh_pending h' = [] \<and> map_option stored (sh_db h') = Some (stored db @ map (row_of_sample ft) (sh_pending h))
   | (h', Err _) \<Rightarrow> map_option stored (sh_db h') = Some (stored db) \<and>
       sh_pending h' = drop (length (sh_pending h) - 4 * sh_pending_cap h) (sh_pending h) \<and>
       sh_cold_pending_dropped h' = sh_cold_pending_dropped h + of_nat (length (sh_pending h) - 4 * sh_pending_cap h)
   | (h', Undef) \<Rightarrow> False"
  using insert_batch_transactional [OF assms(1), of ft "sh_pending h" db] assms(2)
  by (cases "insert_batch sql ft (sh_pending h) db")
    (auto simp: sqlite_flush_def sqlite_insert_batch_def requeue_pending_def sqlite_counter_def Let_def mult.commute
      split: result.splits)

text \<open>Values whose text is read back: all but floating-point ones, whose text is up to the library.\<close>

fun text_stable :: "fp_text \<Rightarrow> scalar_value \<Rightarrow> bool" where
  "text_stable ft (SF32 x) \<longleftrightarrow> ft_stof ft (ft_show32 ft x) = Some x"
| "text_stable ft (SF64 x) \<longleftrightarrow> ft_stod ft (ft_show64 ft x) = Some x"
| "text_stable ft v \<longleftrightarrow> True"

lemma stoul_show_int: "0 \<le> i \<Longrightarrow> i < 2 ^ 64 \<Longrightarrow> stoul (show_int i) = Some i"
  using read_int_show_int [of "- (2 ^ 64 - 1)" i "2 ^ 64 - 1" "[]"] by (simp add: stoul_def)

lemma stol_show_int: "- (2 ^ 63) \<le> i \<Longrightarrow> i < 2 ^ 63 \<Longrightarrow> stol (show_int i) = Some i"
  using read_int_show_int [of "- (2 ^ 63)" i "2 ^ 63 - 1" "[]"] by (simp add: stol_def)

lemma text_to_value_roundtrip:
  assumes "text_stable ft v"
  shows "text_to_value ft (value_type_name v) (value_to_text ft v) = Ok v"
proof (cases v)
  case (SU16 w)
  have "stoul (show_int (uint w)) = Some (uint w)"
    by (rule stoul_show_int) (use uint_lt2p [of w] in simp_all)
  then show ?thesis by (simp add: SU16 text_to_value_def parsed_value_def)
next
  case (SI16 w)
  have "stoi (show_int (sint w)) = Some (sint w)"
    by (rule stoi_show_int) (use sint_range_size [of w] in \<open>simp_all add: word_size\<close>)
  then show ?thesis by (simp add: SI16 text_to_value_def parsed_value_def)
next
  case (SU32 w)
  have "stoul (show_int (uint w)) = Some (uint w)"
    by (rule stoul_show_int) (use uint_lt2p [of w] in simp_all)
  then show ?thesis by (simp add: SU32 text_to_value_def parsed_value_def)
next
  case (SI32 w)
  have "stol (show_int (sint w)) = Some (sint w)"
    by (rule stol_show_int) (use sint_range_size [of w] in \<open>simp_all add: word_size\<close>)
  then show ?thesis by (simp add: SI32 text_to_value_def parsed_value_def)
qed (use assms in \<open>auto simp: text_to_value_def parsed_value_def\<close>)

lemma quality_roundtrip [simp]: "quality_of_number (quality_number q) = Ok q"
  by (cases q) (simp_all add: quality_of_number_def)

lemma reason_roundtrip [simp]: "reason_of_number (reason_number r) = Ok r"
  by (cases r) (simp_all add: reason_of_number_def all_reasons_def read_at_def)

lemma row_roundtrip: "text_stable ft (tv_value (hs_value x)) \<Longrightarrow> sample_of_row ft (row_of_sample ft x) = Ok x"
  by (simp add: sample_of_row_def row_of_sample_def Let_def text_to_value_roundtrip)

lemma rows_roundtrip:
  "list_all (\<lambda>x. text_stable ft (tv_value (hs_value x))) xs \<Longrightarrow> samples_of_rows ft (map (row_of_sample ft) xs) = Ok xs"
  by (induction xs) (simp_all add: row_roundtrip)

text \<open>
  What a successful flush stored is loaded back unchanged, up to the requested number of samples,
  when the texts of the floating-point values are.
\<close>

theorem load_cold_after_flush:
  assumes "sql_transactional sql stored added"
    and "\<And>db n. sq_select sql db n = Inr (take n (stored db))"
    and "sh_db h = Some db" "stored db = []" "snd (sqlite_flush sql ft h) = Ok ()"
    and "list_all (\<lambda>x. text_stable ft (tv_value (hs_value x))) (sh_pending h)"
  shows "load_cold sql ft (fst (sqlite_flush sql ft h)) n = Ok (take n (sh_pending h))"
proof -
  obtain db' where d: "insert_batch sql ft (sh_pending h) db = (db', Ok ())" "sh_db (fst (sqlite_flush sql ft h)) = Some db'"
    using assms(3,5) by (cases "insert_batch sql ft (sh_pending h) db")
      (auto simp: sqlite_flush_def sqlite_insert_batch_def sqlite_counter_def Let_def split: result.splits)
  then have "stored db' = map (row_of_sample ft) (sh_pending h)"
    using insert_batch_transactional [OF assms(1), of ft "sh_pending h" db] assms(4) by simp
  moreover have "list_all (\<lambda>x. text_stable ft (tv_value (hs_value x))) (take n (sh_pending h))"
    using assms(6) by (auto simp: list_all_iff dest: in_set_takeD)
  ultimately show ?thesis
    by (simp add: load_cold_def d(2) assms(2) take_map rows_roundtrip)
qed

section \<open>A database in memory\<close>

definition list_db :: "(sample_row list \<times> sample_row list) sqlite_api" where
  "list_db = \<lparr>sq_open = \<lambda>_. Opened ([], []), sq_schema = \<lambda>db. (db, ExecOk),
     sq_begin = \<lambda>(s, a). ((s, []), ExecOk), sq_prepare_insert = \<lambda>_. None,
     sq_insert = \<lambda>(s, a) r. ((s, a @ [r]), None), sq_commit = \<lambda>(s, a). ((s @ a, []), ExecOk),
     sq_rollback = \<lambda>(s, a). (s, []), sq_select = \<lambda>(s, a) n. Inr (take n s)\<rparr>"

lemma list_db_transactional: "sql_transactional list_db fst snd"
  by (simp add: sql_transactional_def list_db_def case_prod_unfold)

definition lab_historian :: "(sample_row list \<times> sample_row list) sqlite_historian" where
  "lab_historian = sqlite_record (sqlite_new list_db ''h.db'' 4 False)
     \<lparr>hs_id = 7, hs_value = default_tag_value\<lparr>tv_value := SI16 (- 5)\<rparr>\<rparr>"

definition no_text :: fp_text where
  "no_text = \<lparr>ft_show32 = \<lambda>_. [], ft_show64 = \<lambda>_. [], ft_stof = \<lambda>_. None, ft_stod = \<lambda>_. None\<rparr>"

lemma lab_historian_db [simp]: "sh_db lab_historian = Some ([], [])"
  "sh_pending lab_historian = [\<lparr>hs_id = 7, hs_value = default_tag_value\<lparr>tv_value := SI16 (- 5)\<rparr>\<rparr>]"
  by (simp_all add: lab_historian_def sqlite_record_def sqlite_new_def sqlite_ensure_schema_def list_db_def Let_def)

lemma lab_historian_flush: "snd (sqlite_flush list_db no_text lab_historian) = Ok ()"
  by (simp add: sqlite_flush_def sqlite_insert_batch_def insert_batch_def list_db_def Let_def)

theorem sqlite_flush_conserves_witness:
  "sh_pending (fst (sqlite_flush list_db no_text lab_historian)) = [] \<and>
   map_option fst (sh_db (fst (sqlite_flush list_db no_text lab_historian))) =
     Some (map (row_of_sample no_text) (sh_pending lab_historian))"
  using sqlite_flush_conserves [OF list_db_transactional lab_historian_db(1), of no_text] lab_historian_flush
  by (cases "sqlite_flush list_db no_text lab_historian") (auto split: result.splits)

theorem load_cold_after_flush_witness:
  "load_cold list_db no_text (fst (sqlite_flush list_db no_text lab_historian)) 10 =
   Ok [\<lparr>hs_id = 7, hs_value = default_tag_value\<lparr>tv_value := SI16 (- 5)\<rparr>\<rparr>]"
  using load_cold_after_flush [OF list_db_transactional _ lab_historian_db(1) _ lab_historian_flush, of 10]
  by (simp add: list_db_def case_prod_unfold)

end
