(* ===== verification/Server_Runtime.thy ===== *)
theory Server_Runtime
  imports Dispatcher_Laws Tcp_Transport Historian
begin

text \<open>
  The composition root of \<open>Src/app/server_runtime.cpp\<close>. The runtime owns the transports of the
  endpoints (addresses in the heap of the dispatcher state), the dispatcher with its tag store, the
  historian and the OPC UA facade. What the runtime is given from outside is the record \<open>env\<close>: the
  operations of the transports and their factory, the facade, the historian, the number of hardware
  threads. A call of a change handler is delivered to the historian and to the facade by \<open>deliver_changes\<close>, at the
  latest when the runtime touches it next. A tick of the reactor is split at the asynchronous poll:
  \<open>tick_begin\<close> starts it, \<open>tick_done\<close> is its completion.
\<close>

section \<open>State\<close>

datatype log_level = LTrace | LDebug | LInfo | LWarn | LError

record endpoint_poll_state =
  eps_inflight :: bool
  eps_next_reconnect_ms :: timestamp_ms

record reactor =
  ra_running :: bool
  ra_workers :: nat
  ra_repeats :: "(string \<times> int) list"

record ('t, 'h, 'u, 'r) server_runtime =
  sr_project :: project
  sr_disp :: "('t, 'h) dispatcher"
  sr_has_log :: bool
  sr_log :: "(log_level \<times> string) list"
  sr_historian :: "'r option"
  sr_historian_sub :: "u64 option"
  sr_opcua :: "'u option"
  sr_transports :: "(string, nat) umap"
  sr_next_addr :: nat
  sr_poll_state :: "(string, endpoint_poll_state) umap"
  sr_reactor :: "reactor option"
  sr_posted :: "string list"
  sr_started :: bool

record ('t, 'h, 'u, 'r) runtime_env =
  en_ops :: "'t transport_ops"
  en_factory :: "endpoint \<Rightarrow> 't option"
  en_set_executor :: "bool \<Rightarrow> 't \<Rightarrow> 't"
  en_ua_set_write_handler :: "'u \<Rightarrow> 'u"
  en_ua_start :: "'u \<Rightarrow> project \<Rightarrow> 'u \<times> unit result"
  en_ua_bind_tags :: "'u \<Rightarrow> 'h tag_store \<Rightarrow> (tag_id \<times> tag) list \<Rightarrow> 'u \<times> 'h tag_store \<times> unit result"
  en_ua_iterate :: "'u \<Rightarrow> 'u"
  en_ua_stop :: "'u \<Rightarrow> 'h tag_store \<Rightarrow> 'u \<times> 'h tag_store"
  en_ua_handler :: 'h
  en_ua_change :: "'u \<Rightarrow> tag_id \<Rightarrow> tag_value \<Rightarrow> 'u"
  en_hist_handler :: 'h
  en_hist_record :: "'r \<Rightarrow> historian_sample \<Rightarrow> 'r"
  en_hist_flush :: "'r \<Rightarrow> 'r \<times> unit result"
  en_hardware_threads :: nat

definition runtime_error :: "error_code \<Rightarrow> string \<Rightarrow> error" where
  "runtime_error c m = mk_error c m ''app.runtime'' False"

definition log_msg :: "log_level \<Rightarrow> string \<Rightarrow> ('t, 'h, 'u, 'r) server_runtime \<Rightarrow> ('t, 'h, 'u, 'r) server_runtime" where
  "log_msg l m s = (if sr_has_log s then s\<lparr>sr_log := sr_log s @ [(l, m)]\<rparr> else s)"

text \<open>The change handlers of the historian and of the facade, for the calls the tag store made since the last time.\<close>

definition deliver_changes ::
  "('t, 'h, 'u, 'r) runtime_env \<Rightarrow> ('t, 'h, 'u, 'r) server_runtime \<Rightarrow> ('t, 'h, 'u, 'r) server_runtime" where
  "deliver_changes env s =
     (let calls = d_calls (sr_disp s); to = (\<lambda>h. filter (\<lambda>(k, _). k = h) calls);
          s = s\<lparr>sr_disp := (sr_disp s)\<lparr>d_calls := []\<rparr>\<rparr>
      in s\<lparr>sr_historian := map_option (fold (\<lambda>(_, i, v) r. en_hist_record env r \<lparr>hs_id = i, hs_value = v\<rparr>) (to (en_hist_handler env)))
             (sr_historian s),
           sr_opcua := map_option (fold (\<lambda>(_, i, v) u. en_ua_change env u i v) (to (en_ua_handler env))) (sr_opcua s)\<rparr>)"

definition flush_historian ::
  "('t, 'h, 'u, 'r) runtime_env \<Rightarrow> string \<Rightarrow> ('t, 'h, 'u, 'r) server_runtime \<Rightarrow> ('t, 'h, 'u, 'r) server_runtime" where
  "flush_historian env what s =
     (let s = deliver_changes env s
      in case sr_historian s of
           None \<Rightarrow> s
         | Some r \<Rightarrow>
             (case en_hist_flush env r of
                (r, Err e) \<Rightarrow> log_msg LWarn (what @ err_message e) (s\<lparr>sr_historian := Some r\<rparr>)
              | (r, _) \<Rightarrow> s\<lparr>sr_historian := Some r\<rparr>))"

text \<open>Reading the clock and calling the dispatcher.\<close>

definition runtime_now :: "('t, 'h, 'u, 'r) server_runtime \<Rightarrow> ('t, 'h, 'u, 'r) server_runtime \<times> timestamp_ms" where
  "runtime_now s = (case now_ms (sr_disp s) of (d, t) \<Rightarrow> (s\<lparr>sr_disp := d\<rparr>, t))"

definition on_disp ::
  "(('t, 'h) dispatcher \<Rightarrow> ('t, 'h) dispatcher) \<Rightarrow> ('t, 'h, 'u, 'r) server_runtime \<Rightarrow> ('t, 'h, 'u, 'r) server_runtime" where
  "on_disp f s = s\<lparr>sr_disp := f (sr_disp s)\<rparr>"

definition heap_update :: "nat \<Rightarrow> ('t \<Rightarrow> 't) \<Rightarrow> ('t, 'h) dispatcher \<Rightarrow> ('t, 'h) dispatcher" where
  "heap_update a f d = d\<lparr>d_heap := (d_heap d)(a := f (d_heap d a))\<rparr>"

section \<open>Stop\<close>

definition close_transport ::
  "('t, 'h, 'u, 'r) runtime_env \<Rightarrow> string \<times> nat \<Rightarrow> ('t, 'h, 'u, 'r) server_runtime \<Rightarrow> ('t, 'h, 'u, 'r) server_runtime" where
  "close_transport env = (\<lambda>(i, a) s.
     log_msg LInfo (''closed endpoint '' @ i) (on_disp (heap_update a (tp_close (en_ops env))) s))"

definition stop_opcua ::
  "('t, 'h, 'u, 'r) runtime_env \<Rightarrow> ('t, 'h, 'u, 'r) server_runtime \<Rightarrow> ('t, 'h, 'u, 'r) server_runtime" where
  "stop_opcua env s = (case sr_opcua s of
     None \<Rightarrow> s
   | Some u \<Rightarrow> (case en_ua_stop env u (d_store (sr_disp s)) of
       (u, st) \<Rightarrow> on_disp (\<lambda>d. d\<lparr>d_store := st\<rparr>) (s\<lparr>sr_opcua := Some u\<rparr>)))"

definition stop ::
  "('t, 'h, 'u, 'r) runtime_env \<Rightarrow> ('t, 'h, 'u, 'r) server_runtime \<Rightarrow> ('t, 'h, 'u, 'r) server_runtime" where
  "stop env s =
     (let s = s\<lparr>sr_reactor := None, sr_poll_state := []\<rparr>;
          s = fold (\<lambda>(_, a). on_disp (heap_update a (en_set_executor env False))) (sr_transports s) s;
          s = (case sr_historian_sub s of
                 None \<Rightarrow> s
               | Some k \<Rightarrow> (on_disp (\<lambda>d. d\<lparr>d_store := unsubscribe (d_store d) k\<rparr>) s)\<lparr>sr_historian_sub := None\<rparr>);
          s = flush_historian env ''historian flush on stop: '' s;
          s = stop_opcua env s;
          s = fold (close_transport env) (sr_transports s) s
      in s\<lparr>sr_transports := [], sr_started := False\<rparr>)"

section \<open>Start\<close>



definition poll_state_of :: "string \<Rightarrow> ('t, 'h, 'u, 'r) server_runtime \<Rightarrow> endpoint_poll_state" where
  "poll_state_of eid s = (case map_of (sr_poll_state s) eid of
     Some p \<Rightarrow> p | None \<Rightarrow> \<lparr>eps_inflight = False, eps_next_reconnect_ms = 0\<rparr>)"

definition set_poll_state ::
  "string \<Rightarrow> endpoint_poll_state \<Rightarrow> ('t, 'h, 'u, 'r) server_runtime \<Rightarrow> ('t, 'h, 'u, 'r) server_runtime" where
  "set_poll_state eid p s = s\<lparr>sr_poll_state := AList.update eid p (sr_poll_state s)\<rparr>"

definition set_next_reconnect ::
  "string \<Rightarrow> timestamp_ms \<Rightarrow> ('t, 'h, 'u, 'r) server_runtime \<Rightarrow> ('t, 'h, 'u, 'r) server_runtime" where
  "set_next_reconnect eid t s = set_poll_state eid ((poll_state_of eid s)\<lparr>eps_next_reconnect_ms := t\<rparr>) s"

definition start_endpoint ::
  "('t, 'h, 'u, 'r) runtime_env \<Rightarrow> endpoint \<Rightarrow> ('t, 'h, 'u, 'r) server_runtime \<Rightarrow>
     ('t, 'h, 'u, 'r) server_runtime \<times> unit result" where
  "start_endpoint env ep s = (case en_factory env ep of
     None \<Rightarrow> (stop env s, Err (runtime_error EC_Internal (''transport factory returned null for '' @ ep_id ep)))
   | Some t \<Rightarrow>
       let a = sr_next_addr s;
           s = on_disp (heap_update a (\<lambda>_. t)) (s\<lparr>sr_next_addr := a + 1\<rparr>)
       in case on_transport (\<lambda>t. tp_connect (en_ops env) t (ep_host ep) (ep_port ep)) a (sr_disp s) of (d, conn) \<Rightarrow>
            let s = set_poll_state (ep_id ep) (poll_state_of (ep_id ep) s) (s\<lparr>sr_disp := d\<rparr>);
                s = (case conn of
                       Err e \<Rightarrow>
                         let s = log_msg LWarn (''connect failed for endpoint '' @ ep_id ep @ '': '' @ err_message e) s
                         in (case runtime_now s of (s, now) \<Rightarrow>
                             case runtime_now (on_disp (mark_endpoint_bad (ep_id ep) QR_NoCommunication now) s) of
                               (s, now) \<Rightarrow> set_next_reconnect (ep_id ep) (now + max 0 (ep_reconnect_delay_ms ep)) s)
                     | _ \<Rightarrow> set_next_reconnect (ep_id ep) 0 (log_msg LInfo (''connected endpoint '' @ ep_id ep) s));
                s = on_disp (bind_transport (ep_id ep) (Some a)) s
            in (s\<lparr>sr_transports := emplace (ep_id ep) a (sr_transports s)\<rparr>, Ok ()))"

fun start_endpoints ::
  "('t, 'h, 'u, 'r) runtime_env \<Rightarrow> endpoint list \<Rightarrow> ('t, 'h, 'u, 'r) server_runtime \<Rightarrow>
     ('t, 'h, 'u, 'r) server_runtime \<times> unit result" where
  "start_endpoints env [] s = (s, Ok ())"
| "start_endpoints env (ep # eps) s = (case start_endpoint env ep s of
     (s, Ok _) \<Rightarrow> start_endpoints env eps s
   | (s, r) \<Rightarrow> (s, r))"

definition start_opcua ::
  "('t, 'h, 'u, 'r) runtime_env \<Rightarrow> ('t, 'h, 'u, 'r) server_runtime \<Rightarrow>
     ('t, 'h, 'u, 'r) server_runtime \<times> unit result" where
  "start_opcua env s = (case sr_opcua s of
     None \<Rightarrow> (s, Ok ())
   | Some u \<Rightarrow>
       (case en_ua_start env (en_ua_set_write_handler env u) (sr_project s) of
          (u, Ok _) \<Rightarrow>
            let specs = map (\<lambda>b. (tb_id b, tb_tag b)) (ri_tags (d_index (sr_disp s)))
            in (case en_ua_bind_tags env u (d_store (sr_disp s)) specs of
                  (u, st, r) \<Rightarrow>
                    let s = on_disp (\<lambda>d. d\<lparr>d_store := st\<rparr>) (s\<lparr>sr_opcua := Some u\<rparr>)
                    in (case r of Ok _ \<Rightarrow> (s, Ok ()) | _ \<Rightarrow> (stop env s, r)))
        | (u, r) \<Rightarrow> (stop env (s\<lparr>sr_opcua := Some u\<rparr>), r)))"

definition subscribe_historian ::
  "('t, 'h, 'u, 'r) runtime_env \<Rightarrow> ('t, 'h, 'u, 'r) server_runtime \<Rightarrow> ('t, 'h, 'u, 'r) server_runtime" where
  "subscribe_historian env s =
     (if sr_historian s \<noteq> None \<and> sr_historian_sub s = None
      then case subscribe (d_store (sr_disp s)) (en_hist_handler env) of
             (st, k) \<Rightarrow> (on_disp (\<lambda>d. d\<lparr>d_store := st\<rparr>) s)\<lparr>sr_historian_sub := Some k\<rparr>
      else s)"

definition started_message :: "('t, 'h, 'u, 'r) server_runtime \<Rightarrow> string" where
  "started_message s =
     ''runtime started: '' @ show_nat (length (sr_transports s)) @ '' endpoints, '' @
     show_nat (length (ri_tags (d_index (sr_disp s)))) @ '' tags'' @
     (if sr_opcua s \<noteq> None then '', opcua on'' else '', opcua off'') @
     (if sr_historian s \<noteq> None then '', historian on'' else [])"

definition start ::
  "('t, 'h, 'u, 'r) runtime_env \<Rightarrow> ('t, 'h, 'u, 'r) server_runtime \<Rightarrow>
     ('t, 'h, 'u, 'r) server_runtime \<times> unit result" where
  "start env s =
     (if sr_started s then (s, Ok ())
      else case start_endpoints env (prj_endpoints (sr_project s)) s of
             (s, Ok _) \<Rightarrow>
               (case start_opcua env s of
                  (s, Ok _) \<Rightarrow>
                    let s = (subscribe_historian env s)\<lparr>sr_started := True\<rparr>
                    in (log_msg LInfo (started_message s) s, Ok ())
                | (s, r) \<Rightarrow> (s, r))
           | (s, r) \<Rightarrow> (s, r))"

definition create ::
  "project option \<Rightarrow> bool \<Rightarrow> bool \<Rightarrow> bool \<Rightarrow> bool \<Rightarrow> 'r option \<Rightarrow> 'u option \<Rightarrow> (nat \<Rightarrow> timestamp_ms) \<Rightarrow> (nat \<Rightarrow> 't) \<Rightarrow>
     ('t, 'h, 'u, 'r) server_runtime result" where
  "create project has_clock has_metrics has_tracer has_log historian opcua clk heap =
     (case project of
        None \<Rightarrow> Err (runtime_error EC_InvalidArgument ''project is null'')
      | Some p \<Rightarrow>
          if \<not> has_clock then Err (runtime_error EC_InvalidArgument ''clock is required'')
          else Ok \<lparr>sr_project = p,
            sr_disp = \<lparr>d_index = build p, d_has_store = True, d_has_clock = True, d_has_metrics = has_metrics,
              d_has_tracer = has_tracer, d_transports = [], d_last_poll_ms = [], d_write_queues = [],
              d_store = empty_tag_store, d_calls = [], d_heap = heap, d_clock = clk, d_clock_reads = 0,
              d_metrics = [], d_spans = []\<rparr>,
            sr_has_log = has_log, sr_log = [], sr_historian = historian, sr_historian_sub = None,
            sr_opcua = opcua, sr_transports = [], sr_next_addr = 0, sr_poll_state = [], sr_reactor = None,
            sr_posted = [], sr_started = False\<rparr>)"

section \<open>Polling once\<close>

fun poll_endpoints ::
  "('t, 'h, 'u, 'r) runtime_env \<Rightarrow> timestamp_ms \<Rightarrow> endpoint list \<Rightarrow> unit result \<Rightarrow>
     ('t, 'h, 'u, 'r) server_runtime \<Rightarrow> ('t, 'h, 'u, 'r) server_runtime \<times> unit result" where
  "poll_endpoints env now [] fe s = (s, fe)"
| "poll_endpoints env now (ep # eps) fe s =
     (case poll_due (en_ops env) (ep_id ep) now (sr_disp s) of
        (d, Undef) \<Rightarrow> (s\<lparr>sr_disp := d\<rparr>, Undef)
      | (d, Ok _) \<Rightarrow> poll_endpoints env now eps fe (s\<lparr>sr_disp := d\<rparr>)
      | (d, Err e) \<Rightarrow>
          if is_ok fe
          then poll_endpoints env now eps (Err e)
                 (log_msg LWarn (''poll error on '' @ ep_id ep @ '': '' @ err_message e) (s\<lparr>sr_disp := d\<rparr>))
          else poll_endpoints env now eps fe (s\<lparr>sr_disp := d\<rparr>))"

definition poll_once ::
  "('t, 'h, 'u, 'r) runtime_env \<Rightarrow> timestamp_ms \<Rightarrow> ('t, 'h, 'u, 'r) server_runtime \<Rightarrow>
     ('t, 'h, 'u, 'r) server_runtime \<times> unit result" where
  "poll_once env now s =
     (case (if sr_started s then (s, Ok ()) else start env s) of
        (s, Ok _) \<Rightarrow>
          (case poll_endpoints env now (prj_endpoints (sr_project s)) (Ok ()) s of
             (s, r) \<Rightarrow>
               if r = Undef then (s, Undef)
               else let s = s\<lparr>sr_opcua := map_option (en_ua_iterate env) (sr_opcua s)\<rparr>
                    in (flush_historian env ''historian flush: '' s, r))
      | (s, r) \<Rightarrow> (s, r))"

section \<open>Writes from the north\<close>

definition write_handler ::
  "tag_id \<Rightarrow> scalar_value \<Rightarrow> ('t, 'h, 'u, 'r) server_runtime \<Rightarrow> ('t, 'h, 'u, 'r) server_runtime \<times> unit result" where
  "write_handler i v s =
     (let binding = find_by_id (d_index (sr_disp s)) i
      in case enqueue_write i v (sr_disp s) of (d, queued) \<Rightarrow>
           let s = s\<lparr>sr_disp := d\<rparr> in
           (case (queued, sr_reactor s, binding) of
              (Ok _, Some ra, Ok (Some b)) \<Rightarrow>
                ((if ra_running ra then s\<lparr>sr_posted := sr_posted s @ [tb_endpoint_id b]\<rparr> else s), queued)
            | _ \<Rightarrow> (s, queued)))"

text \<open>The work posted to the strand of an endpoint.\<close>

definition posted_flush ::
  "('t, 'h, 'u, 'r) runtime_env \<Rightarrow> string \<Rightarrow> ('t, 'h, 'u, 'r) server_runtime \<Rightarrow> ('t, 'h, 'u, 'r) server_runtime" where
  "posted_flush env eid s =
     (case flush_writes (en_ops env) eid (sr_disp s) of
        (d, Err e) \<Rightarrow> log_msg LWarn (''flush_writes '' @ eid @ '': '' @ err_message e) (s\<lparr>sr_disp := d\<rparr>)
      | (d, _) \<Rightarrow> s\<lparr>sr_disp := d\<rparr>)"

section \<open>The reactor\<close>

definition choose_worker_count :: "('t, 'h, 'u, 'r) runtime_env \<Rightarrow> ('t, 'h, 'u, 'r) server_runtime \<Rightarrow> nat" where
  "choose_worker_count env s =
     (let endpoints = max (length (prj_endpoints (sr_project s))) 1;
          hw = (if en_hardware_threads env < 2 then 2 else en_hardware_threads env)
      in max 2 (min endpoints hw))"

definition min_period_step :: "poll_group \<Rightarrow> int \<Rightarrow> int" where
  "min_period_step g m =
     (if grp_period_ms g < 1 then m else if m = 0 \<or> grp_period_ms g < m then grp_period_ms g else m)"

definition min_group_period_ms :: "string \<Rightarrow> ('t, 'h, 'u, 'r) server_runtime \<Rightarrow> int" where
  "min_group_period_ms eid s =
     (let m = fold min_period_step (groups_for_endpoint (d_index (sr_disp s)) eid) 0
      in if m > 0 then m else 1000)"

definition wire_endpoint ::
  "('t, 'h, 'u, 'r) runtime_env \<Rightarrow> endpoint \<Rightarrow> ('t, 'h, 'u, 'r) server_runtime \<Rightarrow> ('t, 'h, 'u, 'r) server_runtime" where
  "wire_endpoint env ep s =
     (let s = set_poll_state (ep_id ep) (poll_state_of (ep_id ep) s) s
      in case map_of (sr_transports s) (ep_id ep) of
           None \<Rightarrow> s
         | Some a \<Rightarrow> on_disp (heap_update a (en_set_executor env True)) s)"

definition start_reactor ::
  "('t, 'h, 'u, 'r) runtime_env \<Rightarrow> ('t, 'h, 'u, 'r) server_runtime \<Rightarrow>
     ('t, 'h, 'u, 'r) server_runtime \<times> unit result" where
  "start_reactor env s =
     (case (if sr_started s then (s, Ok ()) else start env s) of
        (s, Ok _) \<Rightarrow>
          if (case sr_reactor s of Some ra \<Rightarrow> ra_running ra | None \<Rightarrow> False) then (s, Ok ())
          else let eps = prj_endpoints (sr_project s);
                   s = fold (wire_endpoint env) eps s;
                   ra = \<lparr>ra_running = True, ra_workers = choose_worker_count env s,
                         ra_repeats = map (\<lambda>ep. (ep_id ep, max 1 (min_group_period_ms (ep_id ep) s))) eps\<rparr>;
                   s = s\<lparr>sr_reactor := Some ra\<rparr>
               in (log_msg LInfo (''asio reactor started: '' @ show_nat (ra_workers ra) @ '' workers, '' @
                     show_nat (length eps) @ '' endpoint strands'') s, Ok ())
      | (s, r) \<Rightarrow> (s, r))"

text \<open>A tick: \<open>NoPoll\<close> when there is nothing to do, or the poll that goes out, with its time stamp and the
  reconnect delay its completion uses.\<close>

datatype tick = NoPoll | PollOut timestamp_ms int

definition reconnect_delay :: "string \<Rightarrow> ('t, 'h, 'u, 'r) server_runtime \<Rightarrow> int" where
  "reconnect_delay eid s = (case ri_endpoint (d_index (sr_disp s)) eid of
     Some ep \<Rightarrow> max 0 (ep_reconnect_delay_ms ep) | None \<Rightarrow> 2000)"

definition tick_begin ::
  "('t, 'h, 'u, 'r) runtime_env \<Rightarrow> string \<Rightarrow> ('t, 'h, 'u, 'r) server_runtime \<Rightarrow> ('t, 'h, 'u, 'r) server_runtime \<times> tick" where
  "tick_begin env eid s = (case (map_of (sr_transports s) eid, map_of (sr_poll_state s) eid) of
     (Some a, Some p) \<Rightarrow>
       if eps_inflight p then (on_disp (metric (CounterAdd ''modbus_poll_overruns'')) s, NoPoll)
       else
         let s = set_poll_state eid (p\<lparr>eps_inflight := True\<rparr>) s in
         (case runtime_now s of (s, now) \<Rightarrow>
            if \<not> tp_is_connected (en_ops env) (d_heap (sr_disp s) a) \<and>
               eps_next_reconnect_ms p \<noteq> 0 \<and> now < eps_next_reconnect_ms p
            then (set_poll_state eid (p\<lparr>eps_inflight := False\<rparr>) s, NoPoll)
            else (s, PollOut now (reconnect_delay eid s)))
   | _ \<Rightarrow> (s, NoPoll))"

definition tick_done ::
  "('t, 'h, 'u, 'r) runtime_env \<Rightarrow> string \<Rightarrow> int \<Rightarrow> unit result \<Rightarrow>
     ('t, 'h, 'u, 'r) server_runtime \<Rightarrow> ('t, 'h, 'u, 'r) server_runtime" where
  "tick_done env eid delay r s =
     (let s = set_poll_state eid ((poll_state_of eid s)\<lparr>eps_inflight := False\<rparr>) s
      in case map_of (sr_transports s) eid of
           None \<Rightarrow> s
         | Some a \<Rightarrow>
             (case runtime_now s of (s, now) \<Rightarrow>
                let s = (if \<not> tp_is_connected (en_ops env) (d_heap (sr_disp s) a)
                         then set_next_reconnect eid (now + delay)
                                (on_disp (mark_endpoint_bad eid QR_NoCommunication now) s)
                         else set_next_reconnect eid 0 s);
                    s = (case r of
                           Err e \<Rightarrow>
                             let s = log_msg LWarn (''poll error on '' @ eid @ '': '' @ err_message e) s in
                             if err_code e = EC_Connection
                             then set_next_reconnect eid (now + delay)
                                    (on_disp (mark_endpoint_bad eid QR_NoCommunication now)
                                      (on_disp (heap_update a (tp_close (en_ops env))) s))
                             else s
                         | _ \<Rightarrow> s)
                in flush_historian env ''historian flush: '' s))"

text \<open>The tick with a transport that completes at once.\<close>

definition tick_endpoint ::
  "('t, 'h, 'u, 'r) runtime_env \<Rightarrow> string \<Rightarrow> ('t, 'h, 'u, 'r) server_runtime \<Rightarrow> ('t, 'h, 'u, 'r) server_runtime" where
  "tick_endpoint env eid s = (case tick_begin env eid s of
     (s, NoPoll) \<Rightarrow> s
   | (s, PollOut now delay) \<Rightarrow>
       (case poll_due_async (en_ops env) eid now (sr_disp s) of
          (d, r) \<Rightarrow> tick_done env eid delay r (s\<lparr>sr_disp := d\<rparr>)))"

section \<open>The watch list\<close>

fun value_text :: "fp_text \<Rightarrow> scalar_value \<Rightarrow> string" where
  "value_text ft SMono = []"
| "value_text ft (SBool b) = (if b then ''true'' else ''false'')"
| "value_text ft v = value_to_text ft v"

fun quality_text :: "quality \<Rightarrow> string" where
  "quality_text Good = ''Good,''"
| "quality_text Uncertain = ''Uncertain,''"
| "quality_text Bad = ''Bad,''"

definition watch_line :: "fp_text \<Rightarrow> 'h tag_store \<Rightarrow> tag_binding \<Rightarrow> string" where
  "watch_line ft store b =
     show_int (uint (tb_id b)) @ '','' @ tag_name (tb_tag b) @ '','' @
     (case get store (tb_id b) of
        None \<Rightarrow> ''Missing,'' @ [CHR 0x0A]
      | Some v \<Rightarrow> quality_text (tv_quality v) @ value_text ft (tv_value v) @ [CHR 0x0A])"

definition write_watchlist :: "fp_text \<Rightarrow> ('t, 'h, 'u, 'r) server_runtime \<Rightarrow> string" where
  "write_watchlist ft s =
     ''tag_id,name,quality,value'' @ [CHR 0x0A] @
     concat (map (watch_line ft (d_store (sr_disp s))) (ri_tags (d_index (sr_disp s))))"

section \<open>Files and factories\<close>

definition project_candidates :: "string list" where
  "project_candidates = [''project.modbusproj.json'', ''DOCs/examples/demo-plant.modbusproj.json'',
     ''examples/demo-plant.modbusproj.json'']"

definition resolve_project_path :: "(string \<Rightarrow> bool) \<Rightarrow> string \<Rightarrow> string option" where
  "resolve_project_path exists explicit_path =
     (if explicit_path \<noteq> [] then (if exists explicit_path then Some explicit_path else None)
      else find exists project_candidates)"

text \<open>The default factory, and the virtual calls on what it makes.\<close>

datatype ('a, 'b) field_transport = UdpTransport "'a udp_transport" | TcpTransport "'b tcp_transport"

definition default_transport_factory :: "'a \<Rightarrow> 'b \<Rightarrow> bool \<Rightarrow> endpoint \<Rightarrow> ('a, 'b) field_transport option" where
  "default_transport_factory udp_world tcp_world has_log ep =
     (if ep_transport ep = Udp then Some (UdpTransport (udp_new udp_world has_log (ep_id ep)))
      else Some (TcpTransport (tcp_new tcp_world (ep_response_timeout_ms ep) has_log (ep_id ep))))"

definition virtual_call ::
  "('a udp_transport \<Rightarrow> 'a udp_transport \<times> 'r) \<Rightarrow> ('b tcp_transport \<Rightarrow> 'b tcp_transport \<times> 'r) \<Rightarrow>
     ('a, 'b) field_transport \<Rightarrow> ('a, 'b) field_transport \<times> 'r" where
  "virtual_call f g t = (case t of
     UdpTransport u \<Rightarrow> (case f u of (u, r) \<Rightarrow> (UdpTransport u, r))
   | TcpTransport c \<Rightarrow> (case g c of (c, r) \<Rightarrow> (TcpTransport c, r)))"

definition field_ops :: "'a udp_net \<Rightarrow> 'b tcp_net \<Rightarrow> ('a, 'b) field_transport transport_ops" where
  "field_ops un tn = (let u = udp_ops un; c = tcp_ops tn in
     \<lparr>tp_connect = \<lambda>t h p. virtual_call (\<lambda>t. tp_connect u t h p) (\<lambda>t. tp_connect c t h p) t,
      tp_close = \<lambda>t. (case t of UdpTransport x \<Rightarrow> UdpTransport (tp_close u x) | TcpTransport x \<Rightarrow> TcpTransport (tp_close c x)),
      tp_is_connected = \<lambda>t. (case t of UdpTransport x \<Rightarrow> tp_is_connected u x | TcpTransport x \<Rightarrow> tp_is_connected c x),
      tp_read_holding_registers = \<lambda>t i a q.
        virtual_call (\<lambda>t. tp_read_holding_registers u t i a q) (\<lambda>t. tp_read_holding_registers c t i a q) t,
      tp_read_input_registers = \<lambda>t i a q.
        virtual_call (\<lambda>t. tp_read_input_registers u t i a q) (\<lambda>t. tp_read_input_registers c t i a q) t,
      tp_read_coils = \<lambda>t i a q. virtual_call (\<lambda>t. tp_read_coils u t i a q) (\<lambda>t. tp_read_coils c t i a q) t,
      tp_read_discrete_inputs = \<lambda>t i a q.
        virtual_call (\<lambda>t. tp_read_discrete_inputs u t i a q) (\<lambda>t. tp_read_discrete_inputs c t i a q) t,
      tp_write_single_register = \<lambda>t i a v.
        virtual_call (\<lambda>t. tp_write_single_register u t i a v) (\<lambda>t. tp_write_single_register c t i a v) t,
      tp_write_multiple_registers = \<lambda>t i a v.
        virtual_call (\<lambda>t. tp_write_multiple_registers u t i a v) (\<lambda>t. tp_write_multiple_registers c t i a v) t,
      tp_write_single_coil = \<lambda>t i a v.
        virtual_call (\<lambda>t. tp_write_single_coil u t i a v) (\<lambda>t. tp_write_single_coil c t i a v) t,
      tp_write_multiple_coils = \<lambda>t i a v.
        virtual_call (\<lambda>t. tp_write_multiple_coils u t i a v) (\<lambda>t. tp_write_multiple_coils c t i a v) t\<rparr>)"

section \<open>Frames\<close>

lemma log_msg_frame [simp]:
  "sr_project (log_msg l m s) = sr_project s" "sr_disp (log_msg l m s) = sr_disp s"
  "sr_transports (log_msg l m s) = sr_transports s" "sr_poll_state (log_msg l m s) = sr_poll_state s"
  "sr_next_addr (log_msg l m s) = sr_next_addr s" "sr_started (log_msg l m s) = sr_started s"
  "sr_historian_sub (log_msg l m s) = sr_historian_sub s" "sr_reactor (log_msg l m s) = sr_reactor s"
  "sr_opcua (log_msg l m s) = sr_opcua s" "sr_historian (log_msg l m s) = sr_historian s"
  by (simp_all add: log_msg_def)

lemma on_disp_frame [simp]:
  "sr_project (on_disp f s) = sr_project s" "sr_disp (on_disp f s) = f (sr_disp s)"
  "sr_transports (on_disp f s) = sr_transports s" "sr_poll_state (on_disp f s) = sr_poll_state s"
  "sr_next_addr (on_disp f s) = sr_next_addr s" "sr_started (on_disp f s) = sr_started s"
  "sr_historian_sub (on_disp f s) = sr_historian_sub s" "sr_reactor (on_disp f s) = sr_reactor s"
  "sr_opcua (on_disp f s) = sr_opcua s" "sr_historian (on_disp f s) = sr_historian s"
  by (simp_all add: on_disp_def)

lemma heap_update_frame [simp]:
  "d_index (heap_update a f d) = d_index d" "d_transports (heap_update a f d) = d_transports d"
  "d_store (heap_update a f d) = d_store d" "d_clock (heap_update a f d) = d_clock d"
  "d_clock_reads (heap_update a f d) = d_clock_reads d"
  "d_heap (heap_update a f d) = (d_heap d)(a := f (d_heap d a))"
  by (simp_all add: heap_update_def)

lemma runtime_now_frame [simp]:
  "sr_project (fst (runtime_now s)) = sr_project s" "sr_disp (fst (runtime_now s)) = fst (now_ms (sr_disp s))"
  "sr_transports (fst (runtime_now s)) = sr_transports s" "sr_poll_state (fst (runtime_now s)) = sr_poll_state s"
  "sr_next_addr (fst (runtime_now s)) = sr_next_addr s" "sr_started (fst (runtime_now s)) = sr_started s"
  "snd (runtime_now s) = d_clock (sr_disp s) (d_clock_reads (sr_disp s))"
  by (simp_all add: runtime_now_def now_ms_def)

lemma set_poll_state_frame [simp]:
  "sr_project (set_poll_state e p s) = sr_project s" "sr_disp (set_poll_state e p s) = sr_disp s"
  "sr_transports (set_poll_state e p s) = sr_transports s" "sr_next_addr (set_poll_state e p s) = sr_next_addr s"
  "sr_started (set_poll_state e p s) = sr_started s"
  "map_of (sr_poll_state (set_poll_state e p s)) = (map_of (sr_poll_state s))(e \<mapsto> p)"
  by (simp_all add: set_poll_state_def)

lemma set_next_reconnect_frame [simp]:
  "sr_project (set_next_reconnect e t s) = sr_project s" "sr_disp (set_next_reconnect e t s) = sr_disp s"
  "sr_transports (set_next_reconnect e t s) = sr_transports s" "sr_next_addr (set_next_reconnect e t s) = sr_next_addr s"
  "sr_started (set_next_reconnect e t s) = sr_started s"
  "map_of (sr_poll_state (set_next_reconnect e t s)) =
     (map_of (sr_poll_state s))(e \<mapsto> (poll_state_of e s)\<lparr>eps_next_reconnect_ms := t\<rparr>)"
  by (simp_all add: set_next_reconnect_def)

lemma flush_historian_frame [simp]:
  "sr_project (flush_historian env w s) = sr_project s" "sr_transports (flush_historian env w s) = sr_transports s"
  "sr_poll_state (flush_historian env w s) = sr_poll_state s" "sr_next_addr (flush_historian env w s) = sr_next_addr s"
  "sr_started (flush_historian env w s) = sr_started s"
  "sr_disp (flush_historian env w s) = (sr_disp s)\<lparr>d_calls := []\<rparr>"
  "sr_historian_sub (flush_historian env w s) = sr_historian_sub s"
  by (simp_all add: flush_historian_def deliver_changes_def Let_def split: option.split prod.split result.split)

lemma poll_state_of_simps:
  "map_of (sr_poll_state s) e = Some p \<Longrightarrow> poll_state_of e s = p"
  "poll_state_of e (set_poll_state e p s) = p"
  by (simp_all add: poll_state_of_def)

section \<open>No overlapping polls\<close>

text \<open>
  The reactor: a tick may start a poll, which is in flight until its completion runs. Meanwhile the
  dispatcher may change in any way. \<open>out\<close> are the polls in flight.
\<close>

inductive reactor_step ::
  "('t, 'h, 'u, 'r) runtime_env \<Rightarrow> ('t, 'h, 'u, 'r) server_runtime \<times> (string \<times> int) list \<Rightarrow>
     ('t, 'h, 'u, 'r) server_runtime \<times> (string \<times> int) list \<Rightarrow> bool" for env where
  skip: "tick_begin env eid s = (s', NoPoll) \<Longrightarrow> reactor_step env (s, out) (s', out)"
| poll: "tick_begin env eid s = (s', PollOut now delay) \<Longrightarrow> reactor_step env (s, out) (s', (eid, delay) # out)"
| complete: "reactor_step env (s, xs @ (eid, delay) # ys) (tick_done env eid delay r s, xs @ ys)"
| dispatch: "reactor_step env (s, out) (s\<lparr>sr_disp := d\<rparr>, out)"

definition polls_tracked :: "('t, 'h, 'u, 'r) server_runtime \<times> (string \<times> int) list \<Rightarrow> bool" where
  "polls_tracked st = (case st of (s, out) \<Rightarrow> distinct (map fst out) \<and>
     (\<forall>eid\<in>fst ` set out. eps_inflight (poll_state_of eid s)))"

lemma tick_begin_poll_state:
  "poll_state_of eid' (fst (tick_begin env eid s)) =
     (if eid' = eid \<and> (\<exists>now d. snd (tick_begin env eid s) = PollOut now d)
      then (poll_state_of eid' s)\<lparr>eps_inflight := True\<rparr> else poll_state_of eid' s) \<and>
   (\<forall>now d. snd (tick_begin env eid s) = PollOut now d \<longrightarrow> \<not> eps_inflight (poll_state_of eid s))"
  by (auto simp: tick_begin_def poll_state_of_def Let_def case_prod_unfold split: option.split)

lemma tick_done_inflight:
  "eps_inflight (poll_state_of eid' (tick_done env eid d r s)) \<longleftrightarrow> eid' \<noteq> eid \<and> eps_inflight (poll_state_of eid' s)"
  by (auto simp: tick_done_def poll_state_of_def Let_def case_prod_unfold split: option.split result.split)

lemma reactor_step_tracked:
  assumes "reactor_step env st st'" "polls_tracked st"
  shows "polls_tracked st'"
  using assms
proof (cases rule: reactor_step.cases)
  case (skip eid s s' out)
  then show ?thesis using assms(2) tick_begin_poll_state [of _ env eid s] by (auto simp: polls_tracked_def)
next
  case (poll eid s s' now delay out)
  then show ?thesis using assms(2) tick_begin_poll_state [of _ env eid s] by (auto simp: polls_tracked_def)
next
  case (complete s xs eid delay ys r)
  then show ?thesis using assms(2) by (auto simp: polls_tracked_def tick_done_inflight)
next
  case (dispatch s out d)
  then show ?thesis using assms(2) by (auto simp: polls_tracked_def poll_state_of_def)
qed

text \<open>
  C3: However ticks, completions and other activity interleave, at most one poll per endpoint is in
  flight.
\<close>

theorem polls_never_overlap:
  assumes "(reactor_step env)\<^sup>*\<^sup>* (s, []) (s', out)"
  shows "distinct (map fst out)"
proof -
  have "polls_tracked (s', out)"
    using assms
  proof (induction "(s', out)" arbitrary: s' out rule: rtranclp_induct)
    case base
    then show ?case by (simp add: polls_tracked_def)
  next
    case (step y)
    then show ?case using reactor_step_tracked by (cases y) blast
  qed
  then show ?thesis by (simp add: polls_tracked_def)
qed

section \<open>Reconnecting\<close>

lemma tick_done_backoff:
  assumes "map_of (sr_transports s) eid = Some a" "\<not> tp_is_connected (en_ops env) (d_heap (sr_disp s) a)"
  shows "poll_state_of eid (tick_done env eid delay r s) =
    \<lparr>eps_inflight = False,
     eps_next_reconnect_ms = d_clock (sr_disp s) (d_clock_reads (sr_disp s)) + delay\<rparr>"
  using assms by (auto simp: tick_done_def poll_state_of_def Let_def case_prod_unfold split: result.split)

lemma tick_begin_waits:
  assumes "map_of (sr_poll_state s) eid = Some p" "eps_next_reconnect_ms p \<noteq> 0"
    and "map_of (sr_transports s) eid = Some a" "\<not> tp_is_connected (en_ops env) (d_heap (sr_disp s) a)"
    and "d_clock (sr_disp s) (d_clock_reads (sr_disp s)) < eps_next_reconnect_ms p"
  shows "snd (tick_begin env eid s) = NoPoll \<and> d_heap (sr_disp (fst (tick_begin env eid s))) = d_heap (sr_disp s)"
  using assms by (auto simp: tick_begin_def Let_def case_prod_unfold)

lemma tick_done_poll_state_key: "map_of (sr_poll_state (tick_done env eid delay r s)) eid =
    Some (poll_state_of eid (tick_done env eid delay r s))"
  by (auto simp: tick_done_def poll_state_of_def Let_def case_prod_unfold split: option.split result.split)

text \<open>
  C32: When a poll ends without a connection, the endpoint is left alone until its reconnect delay has
  passed: a tick before that neither polls nor touches a transport.
\<close>

theorem tick_reconnect_backoff:
  assumes "map_of (sr_transports s) eid = Some a" "\<not> tp_is_connected (en_ops env) (d_heap (sr_disp s) a)"
    and "deadline = d_clock (sr_disp s) (d_clock_reads (sr_disp s)) + delay" "deadline \<noteq> 0"
    and "sr_poll_state s2 = sr_poll_state (tick_done env eid delay r s)"
    and "map_of (sr_transports s2) eid = Some a2" "\<not> tp_is_connected (en_ops env) (d_heap (sr_disp s2) a2)"
    and "d_clock (sr_disp s2) (d_clock_reads (sr_disp s2)) < deadline"
  shows "snd (tick_begin env eid s2) = NoPoll \<and> d_heap (sr_disp (fst (tick_begin env eid s2))) = d_heap (sr_disp s2)"
  using assms tick_done_backoff [OF assms(1,2), of delay r] tick_done_poll_state_key [of env eid delay r s]
  by (intro tick_begin_waits) auto

section \<open>Start and stop\<close>

text \<open>Every transport the dispatcher can reach is owned by the runtime.\<close>

definition transports_owned :: "('t, 'h, 'u, 'r) server_runtime \<Rightarrow> bool" where
  "transports_owned s \<longleftrightarrow> (\<forall>eid. map_of (d_transports (sr_disp s)) eid = map_option Some (map_of (sr_transports s) eid))"

lemma start_endpoint_bind:
  assumes "start_endpoint env ep s = (s', Ok ())"
  shows "map_of (d_transports (sr_disp s')) = (map_of (d_transports (sr_disp s)))(ep_id ep \<mapsto> Some (sr_next_addr s)) \<and>
    map_of (sr_transports s') = (if map_of (sr_transports s) (ep_id ep) = None
      then (map_of (sr_transports s))(ep_id ep \<mapsto> sr_next_addr s) else map_of (sr_transports s)) \<and>
    sr_next_addr s' = sr_next_addr s + 1 \<and> sr_project s' = sr_project s"
  using assms
  by (auto simp: start_endpoint_def bind_transport_def Let_def case_prod_unfold split: option.splits result.splits)

lemma start_endpoints_bind:
  assumes "start_endpoints env eps s = (s', Ok ())" "distinct (map ep_id eps)"
    and "\<forall>ep\<in>set eps. map_of (sr_transports s) (ep_id ep) = None" "transports_owned s"
  shows "transports_owned s' \<and> (\<forall>ep\<in>set eps. map_of (sr_transports s') (ep_id ep) \<noteq> None) \<and>
    (\<forall>e. map_of (sr_transports s) e \<noteq> None \<longrightarrow> map_of (sr_transports s') e \<noteq> None) \<and> sr_project s' = sr_project s"
  using assms
proof (induction eps arbitrary: s)
  case (Cons ep eps)
  then obtain s1 where s1: "start_endpoint env ep s = (s1, Ok ())" "start_endpoints env eps s1 = (s', Ok ())"
    by (cases "start_endpoint env ep s") (auto split: result.splits)
  note b = start_endpoint_bind [OF s1(1)]
  have "transports_owned s1" using Cons.prems(3,4) b by (auto simp: transports_owned_def)
  moreover have "\<forall>ep\<in>set eps. map_of (sr_transports s1) (ep_id ep) = None"
    using Cons.prems(2,3) b by (auto simp: image_iff)
  ultimately show ?case using Cons.IH [OF s1(2)] Cons.prems(2,3) b by auto
qed auto

lemma start_opcua_Ok_frame:
  "start_opcua env s = (s', Ok ()) \<Longrightarrow> d_transports (sr_disp s') = d_transports (sr_disp s) \<and>
    sr_transports s' = sr_transports s \<and> sr_project s' = sr_project s"
  by (auto simp: start_opcua_def Let_def split: option.splits result.splits prod.splits)

lemma subscribe_historian_frame [simp]:
  "sr_transports (subscribe_historian env s) = sr_transports s"
  "d_transports (sr_disp (subscribe_historian env s)) = d_transports (sr_disp s)"
  "sr_project (subscribe_historian env s) = sr_project s"
  by (simp_all add: subscribe_historian_def split: prod.split)

text \<open>
  C33: When a runtime with distinct endpoint ids has started, the dispatcher has a transport for every
  endpoint, and every transport it can reach is owned by the runtime.
\<close>

theorem start_owns_transports:
  assumes "start env s = (s', Ok ())" "\<not> sr_started s" "distinct (map ep_id (prj_endpoints (sr_project s)))"
    and "sr_transports s = []" "d_transports (sr_disp s) = []"
  shows "transports_owned s' \<and>
    (\<forall>ep\<in>set (prj_endpoints (sr_project s)). map_of (d_transports (sr_disp s')) (ep_id ep) \<noteq> None)"
proof -
  obtain s1 s2 where s1: "start_endpoints env (prj_endpoints (sr_project s)) s = (s1, Ok ())"
      "start_opcua env s1 = (s2, Ok ())" "sr_transports s' = sr_transports s2"
      "d_transports (sr_disp s') = d_transports (sr_disp s2)"
    using assms(1,2)
    by (auto simp: start_def Let_def split: prod.splits result.splits)
  have "transports_owned s1 \<and> (\<forall>ep\<in>set (prj_endpoints (sr_project s)). map_of (sr_transports s1) (ep_id ep) \<noteq> None)"
    using start_endpoints_bind [OF s1(1) assms(3)] assms(4,5) by (auto simp: transports_owned_def)
  then show ?thesis
    using start_opcua_Ok_frame [OF s1(2)] s1(3,4) by (auto simp: transports_owned_def)
qed

lemma fold_close_frame:
  "sr_transports (fold (close_transport env) ts s) = sr_transports s \<and>
   sr_poll_state (fold (close_transport env) ts s) = sr_poll_state s \<and>
   sr_historian_sub (fold (close_transport env) ts s) = sr_historian_sub s \<and>
   d_transports (sr_disp (fold (close_transport env) ts s)) = d_transports (sr_disp s) \<and>
   (\<forall>a. a \<notin> snd ` set ts \<longrightarrow> d_heap (sr_disp (fold (close_transport env) ts s)) a = d_heap (sr_disp s) a)"
  by (induction ts arbitrary: s) (auto simp: close_transport_def)

lemma fold_close_heap:
  assumes "distinct (map snd ts)" "(e, a) \<in> set ts"
  shows "d_heap (sr_disp (fold (close_transport env) ts s)) a = tp_close (en_ops env) (d_heap (sr_disp s) a)"
  using assms
proof (induction ts arbitrary: s)
  case (Cons t ts)
  then show ?case
    using fold_close_frame [of env ts "close_transport env t s"]
    by (cases t) (force simp: close_transport_def)
qed simp

lemma fold_executor_frame:
  "sr_transports (fold (\<lambda>(_, a). on_disp (heap_update a f)) ts s) = sr_transports s \<and>
   sr_poll_state (fold (\<lambda>(_, a). on_disp (heap_update a f)) ts s) = sr_poll_state s \<and>
   sr_historian_sub (fold (\<lambda>(_, a). on_disp (heap_update a f)) ts s) = sr_historian_sub s \<and>
   d_transports (sr_disp (fold (\<lambda>(_, a). on_disp (heap_update a f)) ts s)) = d_transports (sr_disp s) \<and>
   (\<forall>a. a \<notin> snd ` set ts \<longrightarrow> d_heap (sr_disp (fold (\<lambda>(_, a). on_disp (heap_update a f)) ts s)) a = d_heap (sr_disp s) a)"
  by (induction ts arbitrary: s) auto

lemma fold_executor_heap:
  assumes "distinct (map snd ts)" "(e, a) \<in> set ts"
  shows "d_heap (sr_disp (fold (\<lambda>(_, a). on_disp (heap_update a f)) ts s)) a = f (d_heap (sr_disp s) a)"
  using assms
proof (induction ts arbitrary: s)
  case (Cons t ts)
  then show ?case
    using fold_executor_frame [of f ts "on_disp (heap_update (snd t) f) s"] by (cases t) force
qed simp

lemma stop_opcua_frame [simp]:
  "sr_transports (stop_opcua env s) = sr_transports s" "sr_poll_state (stop_opcua env s) = sr_poll_state s"
  "sr_historian_sub (stop_opcua env s) = sr_historian_sub s" "d_heap (sr_disp (stop_opcua env s)) = d_heap (sr_disp s)"
  "d_transports (sr_disp (stop_opcua env s)) = d_transports (sr_disp s)"
  by (simp_all add: stop_opcua_def on_disp_def split: option.split prod.split)

text \<open>
  Stopping detaches and closes every transport the runtime owns and releases them all; the
  historian is unsubscribed and no endpoint keeps poll state. The dispatcher is not told: its map
  still refers to the released transports.
\<close>

theorem stop_releases_transports:
  assumes "distinct (map snd (sr_transports s))"
  shows "sr_transports (stop env s) = [] \<and> \<not> sr_started (stop env s) \<and> sr_poll_state (stop env s) = [] \<and>
    sr_historian_sub (stop env s) = None \<and>
    (\<forall>(e, a)\<in>set (sr_transports s). d_heap (sr_disp (stop env s)) a =
       tp_close (en_ops env) (en_set_executor env False (d_heap (sr_disp s) a))) \<and>
    d_transports (sr_disp (stop env s)) = d_transports (sr_disp s)"
proof -
  define s1 where "s1 = fold (\<lambda>(_, a). on_disp (heap_update a (en_set_executor env False))) 
    (sr_transports (s\<lparr>sr_reactor := None, sr_poll_state := []\<rparr>)) (s\<lparr>sr_reactor := None, sr_poll_state := []\<rparr>)"
  define s2 where "s2 = (case sr_historian_sub s1 of None \<Rightarrow> s1
     | Some k \<Rightarrow> (on_disp (\<lambda>d. d\<lparr>d_store := unsubscribe (d_store d) k\<rparr>) s1)\<lparr>sr_historian_sub := None\<rparr>)"
  define s3 where "s3 = flush_historian env ''historian flush on stop: '' s2"
  have st: "stop env s = (fold (close_transport env) (sr_transports s3)
      (stop_opcua env s3))\<lparr>sr_transports := [], sr_started := False\<rparr>"
    unfolding stop_def Let_def s3_def s2_def s1_def
    by (simp add: flush_historian_frame(2) [symmetric] fold_executor_frame del: flush_historian_frame(2))
  have 1: "sr_transports s1 = sr_transports s" "sr_poll_state s1 = []" "d_transports (sr_disp s1) = d_transports (sr_disp s)"
    "\<forall>(e, a)\<in>set (sr_transports s). d_heap (sr_disp s1) a = en_set_executor env False (d_heap (sr_disp s) a)"
    using assms fold_executor_heap [of "sr_transports s" _ _ "en_set_executor env False" "s\<lparr>sr_reactor := None, sr_poll_state := []\<rparr>"]
    by (auto simp: s1_def fold_executor_frame)
  have 2: "sr_transports s3 = sr_transports s" "sr_poll_state s3 = []" "sr_historian_sub s3 = None"
    "d_heap (sr_disp s3) = d_heap (sr_disp s1)" "d_transports (sr_disp s3) = d_transports (sr_disp s)"
    using 1 by (auto simp: s3_def s2_def split: option.split)
  show ?thesis
    using assms 1(4) 2 fold_close_frame [of env "sr_transports s3" "stop_opcua env s3"]
      fold_close_heap [of "sr_transports s" _ _ env "stop_opcua env s3"]
    by (auto simp: st)
qed

section \<open>Bounds\<close>

lemma min_period_fold:
  assumes "0 \<le> m"
  shows "(let k = fold min_period_step gs m in
    0 \<le> k \<and> (m \<noteq> 0 \<longrightarrow> 0 < k \<and> k \<le> m) \<and>
    (\<forall>g\<in>set gs. 1 \<le> grp_period_ms g \<longrightarrow> 0 < k \<and> k \<le> grp_period_ms g) \<and>
    (k = m \<or> k \<in> grp_period_ms ` set gs))"
  using assms
proof (induction gs arbitrary: m)
  case (Cons g gs)
  show ?case
  proof (cases "grp_period_ms g < 1 \<or> (m \<noteq> 0 \<and> m \<le> grp_period_ms g)")
    case True
    then have "min_period_step g m = m" by (auto simp: min_period_step_def)
    then show ?thesis using Cons.IH [of m] Cons.prems True by (auto simp: Let_def)
  next
    case False
    then have *: "min_period_step g m = grp_period_ms g" by (auto simp: min_period_step_def)
    then show ?thesis using Cons.IH [of "grp_period_ms g"] Cons.prems False by (auto simp: Let_def)
  qed
qed (simp add: Let_def)

text \<open>
  The reactor has at least two workers and no more than the hardware threads (or two), and an
  endpoint is ticked with the smallest positive period of its groups, or every second without one.
\<close>

theorem reactor_bounds:
  "2 \<le> choose_worker_count env s \<and> choose_worker_count env s \<le> max 2 (en_hardware_threads env) \<and>
   1 \<le> min_group_period_ms eid s \<and>
   (\<forall>g\<in>set (groups_for_endpoint (d_index (sr_disp s)) eid). 1 \<le> grp_period_ms g \<longrightarrow>
      min_group_period_ms eid s \<le> grp_period_ms g) \<and>
   (min_group_period_ms eid s = 1000 \<or>
    min_group_period_ms eid s \<in> grp_period_ms ` set (groups_for_endpoint (d_index (sr_disp s)) eid))"
proof (intro conjI)
  show "2 \<le> choose_worker_count env s" by (simp add: choose_worker_count_def Let_def)
  show "choose_worker_count env s \<le> max 2 (en_hardware_threads env)"
    by (auto simp: choose_worker_count_def Let_def)
qed (use min_period_fold [of 0 "groups_for_endpoint (d_index (sr_disp s)) eid"] in
  \<open>auto simp: min_group_period_ms_def Let_def\<close>)

section \<open>The transports of the default factory\<close>

lemma sized_virtual:
  assumes "sized_read f" "sized_read g"
  shows "sized_read (\<lambda>t i a q. virtual_call (\<lambda>t. f t i a q) (\<lambda>t. g t i a q) t)"
  using assms
  by (auto simp: sized_read_def virtual_call_def case_prod_unfold split: field_transport.split)

interpretation field: register_port "field_ops un tn" for un tn
  by unfold_locales
    (simp_all add: field_ops_def Let_def sized_virtual udp.holding_sized udp.input_sized tcp.holding_sized tcp.input_sized)

section \<open>A runtime on the fake slave\<close>

definition lab_env :: "(fake_transport, unit, unit, ring_historian) runtime_env" where
  "lab_env = \<lparr>en_ops = fake_ops, en_factory = \<lambda>_. Some fake_new, en_set_executor = \<lambda>_ t. t,
     en_ua_set_write_handler = \<lambda>u. u, en_ua_start = \<lambda>u _. (u, Ok ()), en_ua_bind_tags = \<lambda>u st _. (u, st, Ok ()),
     en_ua_iterate = \<lambda>u. u, en_ua_stop = \<lambda>u st. (u, st), en_ua_handler = (), en_ua_change = \<lambda>u i v. u, en_hist_handler = (), en_hist_record = ring_record,
     en_hist_flush = ring_flush, en_hardware_threads = 8\<rparr>"

definition lab_runtime :: "(fake_transport, unit, unit, ring_historian) server_runtime" where
  "lab_runtime = (case create (Some lab_project) True True False False None None (\<lambda>_. 7) (\<lambda>_. fake_new) of Ok s \<Rightarrow> s)"

lemma lab_runtime_simps [simp]:
  "sr_project lab_runtime = lab_project" "\<not> sr_started lab_runtime" "sr_transports lab_runtime = []"
  "d_transports (sr_disp lab_runtime) = []" "sr_historian lab_runtime = None" "sr_opcua lab_runtime = None"
  "sr_historian_sub lab_runtime = None" "sr_next_addr lab_runtime = 0" "sr_poll_state lab_runtime = []"
  "d_heap (sr_disp lab_runtime) = (\<lambda>_. fake_new)" "d_clock (sr_disp lab_runtime) = (\<lambda>_. 7)"
  by (simp_all add: lab_runtime_def create_def)

lemma set_poll_state_opcua [simp]:
  "sr_opcua (set_poll_state e p s) = sr_opcua s" "sr_opcua (set_next_reconnect e t s) = sr_opcua s"
  by (simp_all add: set_poll_state_def set_next_reconnect_def)

lemma lab_start: "start lab_env lab_runtime = (fst (start lab_env lab_runtime), Ok ())"
  by (simp add: start_def lab_project_def lab_endpoint_def start_endpoint_def lab_env_def fake_ops_def fake_connect_def
      fake_new_def on_transport_def Let_def start_opcua_def prod_eq_iff)

theorem start_owns_transports_witness:
  "transports_owned (fst (start lab_env lab_runtime)) \<and>
   map_of (d_transports (sr_disp (fst (start lab_env lab_runtime)))) ''e'' \<noteq> None"
  using start_owns_transports [OF lab_start] by (simp add: lab_project_def lab_endpoint_def)

theorem stop_releases_transports_witness:
  "sr_transports (stop lab_env (lab_runtime\<lparr>sr_transports := [(''e'', 3)]\<rparr>)) = [] \<and>
   d_heap (sr_disp (stop lab_env (lab_runtime\<lparr>sr_transports := [(''e'', 3)]\<rparr>))) 3 = tp_close fake_ops fake_new"
  using stop_releases_transports [of "lab_runtime\<lparr>sr_transports := [(''e'', 3)]\<rparr>" lab_env]
  by (simp add: lab_env_def)

definition lab_ticking :: "(fake_transport, unit, unit, ring_historian) server_runtime" where
  "lab_ticking = lab_runtime\<lparr>sr_transports := [(''e'', 3)],
     sr_poll_state := [(''e'', \<lparr>eps_inflight = False, eps_next_reconnect_ms = 0\<rparr>)]\<rparr>"

lemma lab_ticking_simps [simp]:
  "sr_transports lab_ticking = [(''e'', 3)]" "sr_disp lab_ticking = sr_disp lab_runtime"
  "sr_poll_state lab_ticking = [(''e'', \<lparr>eps_inflight = False, eps_next_reconnect_ms = 0\<rparr>)]"
  by (simp_all add: lab_ticking_def)

lemma lab_not_connected [simp]: "\<not> tp_is_connected (en_ops lab_env) fake_new"
  by (simp add: lab_env_def fake_ops_def fake_new_def)

theorem tick_reconnect_backoff_witness:
  "snd (tick_begin lab_env ''e'' (lab_ticking\<lparr>sr_poll_state :=
     sr_poll_state (tick_done lab_env ''e'' 50 (Ok ()) lab_ticking)\<rparr>)) = NoPoll"
  using tick_reconnect_backoff [of lab_ticking "''e''" 3 lab_env 57 50 "lab_ticking\<lparr>sr_poll_state :=
     sr_poll_state (tick_done lab_env ''e'' 50 (Ok ()) lab_ticking)\<rparr>" "Ok ()" 3]
  by simp

lemma lab_tick: "tick_begin lab_env ''e'' lab_ticking = (fst (tick_begin lab_env ''e'' lab_ticking), PollOut 7 (reconnect_delay ''e'' lab_ticking))"
  by (simp add: tick_begin_def Let_def runtime_now_def now_ms_def reconnect_delay_def)

theorem polls_never_overlap_witness:
  "distinct (map fst [(''e'', reconnect_delay ''e'' lab_ticking)]) \<and>
   (reactor_step lab_env)\<^sup>*\<^sup>* (lab_ticking, []) (fst (tick_begin lab_env ''e'' lab_ticking), [(''e'', reconnect_delay ''e'' lab_ticking)])"
  (is "_ \<and> ?r")
proof -
  have ?r by (rule r_into_rtranclp, rule reactor_step.poll [OF lab_tick])
  then show ?thesis using polls_never_overlap by blast
qed

theorem reactor_bounds_witness:
  "min_group_period_ms ''e'' lab_runtime = 1000 \<and> 2 \<le> choose_worker_count lab_env lab_runtime"
proof -
  have g: "groups_for_endpoint (d_index (sr_disp lab_runtime)) ''e'' = [lab_group]"
    using lab_index by (simp add: lab_def lab_runtime_def create_def groups_for_endpoint_def ri_device_def lab_project_def lab_device_def lab_group_def build_def)
  show ?thesis using reactor_bounds [of lab_env lab_runtime "''e''"] by (simp add: g lab_group_def)
qed

end
