(* ===== verification/Opc_Ua_Server.thy ===== *)
theory Opc_Ua_Server
  imports Ua_Security Gen_Nodeset Server_Runtime
begin

text \<open>
  The OPC UA server of \<open>Src/adapters/opc_ua_server.cpp\<close>: start and stop, folders and variables of
  the address space, the data source callbacks, sessions and diagnostics. The address space itself
  belongs to open62541 and is the state \<open>'u\<close>; the calls that change it are the fields of \<open>ua_nodes\<close>
  and return the node id they created or a failure. Status codes of the library are names.

  The pump thread is the flag \<open>us_pump\<close>; the work of one of its rounds is \<open>iterate\<close>. Handlers of the
  tag store are tokens, and a subscription delivers its calls through \<open>note_tag_quality\<close>.
\<close>

section \<open>State\<close>

datatype ua_status = UaGood | UaUncertainLastUsableValue | UaBadNoCommunication | UaBadDecodingError
  | UaBadOutOfRange | UaBadWriteNotSupported | UaBadDeviceFailure | UaBadInternalError
  | UaBadNotWritable | UaBadUserAccessDenied | UaBadResourceUnavailable | UaBadTypeMismatch

datatype ua_variant = VEmpty | VBool bool | VUInt16 u16 | VInt16 u16 | VUInt32 u32 | VInt32 u32
  | VFloat fp | VDouble fp | VUInt64 u64 | VString string

record node_context =
  ctx_tag_id :: tag_id
  ctx_type :: tag_type
  ctx_writable :: bool

record ua_attributes =
  at_display_name :: string
  at_description :: string
  at_type :: tag_type
  at_write :: bool

type_synonym node_id = "u16 \<times> u32"

record 'u ua_nodes =
  nd_new :: "'u option"
  nd_startup :: "'u \<Rightarrow> ua_config \<Rightarrow> 'u option"
  nd_add_namespace :: "'u \<Rightarrow> string \<Rightarrow> 'u \<times> u16"
  nd_add_folder :: "'u \<Rightarrow> node_id \<Rightarrow> node_id \<Rightarrow> string \<Rightarrow> 'u \<times> u32 option"
  nd_add_variable :: "'u \<Rightarrow> node_id \<Rightarrow> node_id \<Rightarrow> string \<Rightarrow> ua_attributes \<Rightarrow> 'u \<times> (string + u32)"
  nd_add_scalar :: "'u \<Rightarrow> node_id \<Rightarrow> node_id \<Rightarrow> string \<Rightarrow> ua_variant \<Rightarrow> 'u \<times> u32 option"
  nd_set_data_source :: "'u \<Rightarrow> u32 \<Rightarrow> 'u \<times> bool"
  nd_write_value :: "'u \<Rightarrow> node_id \<Rightarrow> ua_variant \<Rightarrow> 'u \<times> bool"
  nd_run_iterate :: "'u \<Rightarrow> 'u"

record 'u ua_server =
  us_server :: "'u option"
  us_config :: ua_config
  us_project :: "project option"
  us_security :: ua_security_options
  us_endpoint_url :: string
  us_ns_index :: u16
  us_next_numeric_id :: u32
  us_folder_ids :: "(string, u32) umap"
  us_tag_node_ids :: "(tag_id, u32) umap"
  us_tag_types :: "(tag_id, tag_type) umap"
  us_node_contexts :: "(u32 \<times> node_context) list"
  us_has_store :: bool
  us_has_handler :: bool
  us_subscription :: u64
  us_latest_quality :: "(tag_id, quality) umap"
  us_good_count :: u64
  us_uncertain_count :: u64
  us_bad_count :: u64
  us_active_sessions :: "u32 list"
  us_last_error :: string
  us_dirty :: bool
  us_state_node :: u32
  us_good_node :: u32
  us_uncertain_node :: u32
  us_bad_node :: u32
  us_last_error_node :: u32
  us_pump :: bool
  us_hooks :: bool
  us_has_metrics :: bool
  us_gauges :: "(string \<times> fp) list"
  us_has_log :: bool
  us_log :: "(log_level \<times> string) list"

definition ua_log :: "log_level \<Rightarrow> string \<Rightarrow> 'u ua_server \<Rightarrow> 'u ua_server" where
  "ua_log l m s = (if us_has_log s then s\<lparr>us_log := us_log s @ [(l, m)]\<rparr> else s)"

definition ua_gauge :: "string \<Rightarrow> fp \<Rightarrow> 'u ua_server \<Rightarrow> 'u ua_server" where
  "ua_gauge n x s = (if us_has_metrics s then s\<lparr>us_gauges := us_gauges s @ [(n, x)]\<rparr> else s)"

section \<open>Sessions\<close>

text \<open>A session id of the library: numeric, or of another identifier type (string 3, GUID 4, bytes 5).\<close>

datatype session_id = NumericId u32 | OtherId u8 string

fun session_key :: "session_id option \<Rightarrow> u32" where
  "session_key None = 0"
| "session_key (Some (NumericId n)) = n"
| "session_key (Some (OtherId ty x)) = push_bit 24 (ucast ty)"

definition note_session_activate :: "u32 \<Rightarrow> 'u ua_server \<Rightarrow> 'u ua_server" where
  "note_session_activate k s =
     (let s = s\<lparr>us_active_sessions := List.insert k (us_active_sessions s)\<rparr>
      in ua_gauge ''ua_sessions'' (fp_of_int binary64 (int (length (us_active_sessions s)))) s)"

definition note_session_close :: "u32 \<Rightarrow> 'u ua_server \<Rightarrow> 'u ua_server" where
  "note_session_close k s =
     (let s = s\<lparr>us_active_sessions := remove1 k (us_active_sessions s)\<rparr>
      in ua_gauge ''ua_sessions'' (fp_of_int binary64 (int (length (us_active_sessions s)))) s)"

text \<open>
  \<open>orig\<close>: whether the library's own callback grants the session. A hook that finds no entry of its
  server does not ask the library.
\<close>

definition activate_session_hook :: "bool \<Rightarrow> session_id option \<Rightarrow> 'u ua_server \<Rightarrow> 'u ua_server \<times> bool" where
  "activate_session_hook orig sid s =
     (if \<not> us_hooks s then (s, True)
      else if orig then (note_session_activate (session_key sid) s, True)
      else (s, False))"

definition close_session_hook :: "session_id option \<Rightarrow> 'u ua_server \<Rightarrow> 'u ua_server" where
  "close_session_hook sid s = (if us_hooks s then note_session_close (session_key sid) s else s)"

section \<open>End point URLs\<close>

definition after_last_colon :: "string \<Rightarrow> string option" where
  "after_last_colon s = (if CHR '':'' \<in> set s then Some (rev (takeWhile (\<lambda>c. c \<noteq> CHR '':'') (rev s))) else None)"

definition before_last_colon :: "string \<Rightarrow> string" where
  "before_last_colon s = (if CHR '':'' \<in> set s then rev (tl (dropWhile (\<lambda>c. c \<noteq> CHR '':'') (rev s))) else s)"

definition parse_endpoint_port :: "string \<Rightarrow> u16 \<Rightarrow> u16" where
  "parse_endpoint_port url fallback = (case after_last_colon url of
     None \<Rightarrow> fallback
   | Some p \<Rightarrow>
       if p = [] \<or> \<not> list_all is_digit p \<or> digits_value p = 0 \<or> digits_value p > 65535 then fallback
       else of_nat (digits_value p))"

definition url_host :: "string \<Rightarrow> string" where
  "url_host url =
     (let rest = (if take 10 url = ''opc.tcp://'' then drop 10 url else url)
      in before_last_colon (takeWhile (\<lambda>c. c \<noteq> CHR ''/'') rest))"

definition wildcard_host :: "string \<Rightarrow> bool" where
  "wildcard_host h \<longleftrightarrow> h \<in> set [[], ''0.0.0.0'', ''[::]'', ''::'']"

definition parse_endpoint_host :: "string \<Rightarrow> string" where
  "parse_endpoint_host url = (if wildcard_host (url_host url) then ''127.0.0.1'' else url_host url)"

section \<open>Folders and variables\<close>

definition objects_folder :: u32 where
  "objects_folder = 85"

definition parent_node :: "'u ua_server \<Rightarrow> u32 \<Rightarrow> node_id" where
  "parent_node s pid = (if pid = objects_folder then (0, objects_folder) else (us_ns_index s, pid))"

text \<open>The loop of \<open>ensure_path\<close> over the parts before the last, with the path so far and its node.\<close>

fun ensure_folders ::
  "'u ua_nodes \<Rightarrow> string \<Rightarrow> u32 \<Rightarrow> string list \<Rightarrow> 'u ua_server \<Rightarrow> 'u ua_server \<times> u32 result" where
  "ensure_folders nodes cumulative pid (part # nxt # parts) s =
     (let cumulative = (if cumulative = [] then part else cumulative @ ''/'' @ part)
      in case map_of (us_folder_ids s) cumulative of
           Some i \<Rightarrow> ensure_folders nodes cumulative i (nxt # parts) s
         | None \<Rightarrow>
             let i = us_next_numeric_id s; s = s\<lparr>us_next_numeric_id := i + 1\<rparr>
             in (case us_server s of
                   None \<Rightarrow> (s, Undef)
                 | Some u \<Rightarrow>
                     (case nd_add_folder nodes u (us_ns_index s, i) (parent_node s pid) part of
                        (u, None) \<Rightarrow> (s\<lparr>us_server := Some u\<rparr>, Err (ua_error EC_Internal (''failed to create folder '' @ part)))
                      | (u, Some out) \<Rightarrow>
                          ensure_folders nodes cumulative out (nxt # parts)
                            (s\<lparr>us_server := Some u, us_folder_ids := emplace cumulative out (us_folder_ids s)\<rparr>))))"
| "ensure_folders nodes cumulative pid parts s = (s, Ok pid)"

definition ensure_path :: "'u ua_nodes \<Rightarrow> string \<Rightarrow> 'u ua_server \<Rightarrow> 'u ua_server \<times> u32 result" where
  "ensure_path nodes node_path s =
     (let parts = split_path node_path
      in if length parts < 2
         then (s, Err (ua_error EC_InvalidArgument ''nodePath must contain at least Folder/Leaf''))
         else ensure_folders nodes [] objects_folder parts s)"

definition add_variable ::
  "'u ua_nodes \<Rightarrow> tag_id \<Rightarrow> string \<Rightarrow> u32 \<Rightarrow> tag \<Rightarrow> 'u ua_server \<Rightarrow> 'u ua_server \<times> unit result" where
  "add_variable nodes i name pid t s =
     (if map_of (us_tag_node_ids s) i \<noteq> None then (s, Ok ())
      else
        let attr = \<lparr>at_display_name = name, at_description = (if tag_description t = [] then tag_name t else tag_description t),
                    at_type = tag_ty t, at_write = tag_writable t\<rparr>;
            n = us_next_numeric_id s; s = s\<lparr>us_next_numeric_id := n + 1\<rparr>
        in (case us_server s of
              None \<Rightarrow> (s, Undef)
            | Some u \<Rightarrow>
                (case nd_add_variable nodes u (us_ns_index s, n) (parent_node s pid) name attr of
                   (u, Inl status) \<Rightarrow>
                     (s\<lparr>us_server := Some u\<rparr>,
                      Err (ua_error EC_Internal (''failed to add variable '' @ name @ '' status=0x'' @ status)))
                 | (u, Inr out) \<Rightarrow>
                     let ctx = \<lparr>ctx_tag_id = i, ctx_type = tag_ty t, ctx_writable = tag_writable t\<rparr>
                     in (case nd_set_data_source nodes u out of
                           (u, False) \<Rightarrow>
                             (s\<lparr>us_server := Some u\<rparr>, Err (ua_error EC_Internal (''failed to set DataSource for '' @ name)))
                         | (u, True) \<Rightarrow>
                             (s\<lparr>us_server := Some u, us_tag_node_ids := emplace i out (us_tag_node_ids s),
                                us_tag_types := emplace i (tag_ty t) (us_tag_types s),
                                us_node_contexts := us_node_contexts s @ [(out, ctx)]\<rparr>, Ok ())))))"

definition bind_path :: "'u ua_nodes \<Rightarrow> tag_id \<Rightarrow> string \<Rightarrow> tag \<Rightarrow> 'u ua_server \<Rightarrow> 'u ua_server \<times> unit result" where
  "bind_path nodes i node_path t s = (case ensure_path nodes node_path s of
     (s, Ok pid) \<Rightarrow> add_variable nodes i (last (split_path node_path)) pid t s
   | (s, Err e) \<Rightarrow> (s, Err e)
   | (s, Undef) \<Rightarrow> (s, Undef))"

definition bind_tag :: "'u ua_nodes \<Rightarrow> tag_id \<Rightarrow> string \<Rightarrow> 'u ua_server \<Rightarrow> 'u ua_server \<times> unit result" where
  "bind_tag nodes i node_path s =
     (if us_server s = None then (s, Err (ua_error EC_Internal ''OPC UA server not started''))
      else case us_project s of
        None \<Rightarrow> (s, Err (ua_error EC_Internal ''project missing''))
      | Some p \<Rightarrow>
          (case find (\<lambda>t. tag_node_path t = node_path) (concat (map dev_tags (prj_devices p))) of
             None \<Rightarrow> (s, Err (ua_error EC_NotFound (''tag with nodePath not found: '' @ node_path)))
           | Some t \<Rightarrow> bind_path nodes i node_path t s))"

section \<open>Diagnostics\<close>

definition bump :: "quality \<Rightarrow> u64 \<Rightarrow> 'u ua_server \<Rightarrow> 'u ua_server" where
  "bump q d s = (case q of
     Good \<Rightarrow> s\<lparr>us_good_count := us_good_count s + d\<rparr>
   | Uncertain \<Rightarrow> s\<lparr>us_uncertain_count := us_uncertain_count s + d\<rparr>
   | Bad \<Rightarrow> s\<lparr>us_bad_count := us_bad_count s + d\<rparr>)"

fun quality_reason_name :: "quality_reason \<Rightarrow> string" where
  "quality_reason_name QR_None = ''None''"
| "quality_reason_name QR_NoCommunication = ''NoCommunication''"
| "quality_reason_name QR_DeviceFailure = ''DeviceFailure''"
| "quality_reason_name QR_Timeout = ''Timeout''"
| "quality_reason_name QR_ModbusException = ''ModbusException''"
| "quality_reason_name QR_DecodingError = ''DecodingError''"
| "quality_reason_name QR_Stale = ''Stale''"
| "quality_reason_name QR_WritePending = ''WritePending''"
| "quality_reason_name QR_WriteRejected = ''WriteRejected''"
| "quality_reason_name QR_OutOfRange = ''OutOfRange''"

definition publish_quality_metrics :: "'u ua_server \<Rightarrow> 'u ua_server" where
  "publish_quality_metrics s =
     (let total = us_good_count s + us_uncertain_count s + us_bad_count s;
          fp = (\<lambda>w. fp_of_int binary64 (uint w))
      in ua_gauge ''tag_quality'' (if total = 0 then fp_zero64 else fp_div binary64 (fp (us_good_count s)) (fp total))
         (ua_gauge ''tag_quality.bad'' (fp (us_bad_count s))
         (ua_gauge ''tag_quality.uncertain'' (fp (us_uncertain_count s))
         (ua_gauge ''tag_quality.good'' (fp (us_good_count s)) s))))"

definition note_tag_quality :: "tag_id \<Rightarrow> tag_value \<Rightarrow> 'u ua_server \<Rightarrow> 'u ua_server" where
  "note_tag_quality i v s =
     (let s = (case map_of (us_latest_quality s) i of Some q \<Rightarrow> bump q (- 1) s | None \<Rightarrow> s);
          s = s\<lparr>us_latest_quality := AList.update i (tv_quality v) (us_latest_quality s)\<rparr>;
          s = bump (tv_quality v) 1 s;
          s = (if tv_quality v = Bad
               then s\<lparr>us_last_error := ''Tag '' @ show_nat (unat i) @ '': '' @ quality_reason_name (tv_reason v)\<rparr> else s)
      in publish_quality_metrics (s\<lparr>us_dirty := True\<rparr>))"

definition clear_counts :: "bool \<Rightarrow> 'u ua_server \<Rightarrow> 'u ua_server" where
  "clear_counts dirty s = s\<lparr>us_latest_quality := [], us_good_count := 0, us_uncertain_count := 0, us_bad_count := 0,
     us_last_error := [], us_dirty := dirty\<rparr>"

definition write_scalar :: "'u ua_nodes \<Rightarrow> u32 \<Rightarrow> ua_variant \<Rightarrow> 'u ua_server \<Rightarrow> 'u ua_server" where
  "write_scalar nodes n v s = (case us_server s of
     None \<Rightarrow> s
   | Some u \<Rightarrow> (case nd_write_value nodes u (us_ns_index s, n) v of
       (u, ok) \<Rightarrow> let s = s\<lparr>us_server := Some u\<rparr>
                  in if ok then s else ua_log LWarn ''failed to update OPC UA diagnostics'' s))"

definition write_diagnostics :: "'u ua_nodes \<Rightarrow> 'u ua_server \<Rightarrow> 'u ua_server" where
  "write_diagnostics nodes s =
     (if us_server s = None \<or> \<not> us_dirty s then s
      else let s = s\<lparr>us_dirty := False\<rparr>
           in write_scalar nodes (us_last_error_node s) (VString (us_last_error s))
              (write_scalar nodes (us_bad_node s) (VUInt64 (us_bad_count s))
              (write_scalar nodes (us_uncertain_node s) (VUInt64 (us_uncertain_count s))
              (write_scalar nodes (us_good_node s) (VUInt64 (us_good_count s)) s))))"

definition iterate :: "'u ua_nodes \<Rightarrow> 'u ua_server \<Rightarrow> 'u ua_server" where
  "iterate nodes s =
     (if us_pump s then s
      else let s = write_diagnostics nodes s
           in s\<lparr>us_server := map_option (nd_run_iterate nodes) (us_server s)\<rparr>)"

definition pump_round :: "'u ua_nodes \<Rightarrow> 'u ua_server \<Rightarrow> 'u ua_server" where
  "pump_round nodes s =
     (if us_pump s \<and> us_server s \<noteq> None
      then let s = write_diagnostics nodes s in s\<lparr>us_server := map_option (nd_run_iterate nodes) (us_server s)\<rparr>
      else s)"

definition add_diagnostic ::
  "'u ua_nodes \<Rightarrow> u32 \<Rightarrow> string \<Rightarrow> ua_variant \<Rightarrow> (u32 \<Rightarrow> 'u ua_server \<Rightarrow> 'u ua_server) \<Rightarrow> 'u ua_server \<Rightarrow>
     'u ua_server \<times> unit result" where
  "add_diagnostic nodes pid name v set_node s =
     (let n = us_next_numeric_id s; s = s\<lparr>us_next_numeric_id := n + 1\<rparr>
      in case us_server s of
           None \<Rightarrow> (s, Undef)
         | Some u \<Rightarrow> (case nd_add_scalar nodes u (us_ns_index s, n) (us_ns_index s, pid) name v of
             (u, None) \<Rightarrow> (s\<lparr>us_server := Some u\<rparr>, Err (ua_error EC_Internal (''failed to add diagnostic '' @ name)))
           | (u, Some out) \<Rightarrow> (set_node out (s\<lparr>us_server := Some u\<rparr>), Ok ())))"

fun in_order :: "('s \<Rightarrow> 's \<times> unit result) list \<Rightarrow> 's \<Rightarrow> 's \<times> unit result" where
  "in_order [] s = (s, Ok ())"
| "in_order (f # fs) s = (case f s of (s, Ok _) \<Rightarrow> in_order fs s | (s, r) \<Rightarrow> (s, r))"

definition add_diagnostics :: "'u ua_nodes \<Rightarrow> 'u ua_server \<Rightarrow> 'u ua_server \<times> unit result" where
  "add_diagnostics nodes s = (case ensure_path nodes ''OPC_SERVER/Diagnostics/State'' s of
     (s, Ok pid) \<Rightarrow> in_order
       [add_diagnostic nodes pid ''State'' (VString ''Running'') (\<lambda>n. us_state_node_update (\<lambda>_. n)),
        add_diagnostic nodes pid ''GoodCount'' (VUInt64 0) (\<lambda>n. us_good_node_update (\<lambda>_. n)),
        add_diagnostic nodes pid ''UncertainCount'' (VUInt64 0) (\<lambda>n. us_uncertain_node_update (\<lambda>_. n)),
        add_diagnostic nodes pid ''BadCount'' (VUInt64 0) (\<lambda>n. us_bad_node_update (\<lambda>_. n)),
        add_diagnostic nodes pid ''LastError'' (VString []) (\<lambda>n. us_last_error_node_update (\<lambda>_. n))] s
   | (s, Err e) \<Rightarrow> (s, Err e)
   | (s, Undef) \<Rightarrow> (s, Undef))"

section \<open>Binding the tag store\<close>

fun bind_specs :: "'u ua_nodes \<Rightarrow> (tag_id \<times> tag) list \<Rightarrow> 'u ua_server \<Rightarrow> 'u ua_server \<times> unit result" where
  "bind_specs nodes [] s = (s, Ok ())"
| "bind_specs nodes ((i, t) # specs) s =
     (if tag_node_path t = []
      then bind_specs nodes specs (ua_log LWarn (''skip tag without nodePath: '' @ tag_name t) s)
      else case bind_path nodes i (tag_node_path t) t s of
             (s, Ok _) \<Rightarrow> bind_specs nodes specs s
           | (s, r) \<Rightarrow> (s, r))"

definition set_write_handler :: "'u ua_server \<Rightarrow> 'u ua_server" where
  "set_write_handler s = s\<lparr>us_has_handler := True\<rparr>"

definition node_numeric_id :: "'u ua_server \<Rightarrow> tag_id \<Rightarrow> u32 option" where
  "node_numeric_id s i = map_of (us_tag_node_ids s) i"

definition serve_async :: "'u ua_server \<Rightarrow> 'u ua_server" where
  "serve_async s =
     (if us_server s = None \<or> us_pump s then s
      else ua_log LInfo ''OPC UA event loop thread started'' (s\<lparr>us_pump := True\<rparr>))"

definition note_existing :: "'h tag_store \<Rightarrow> (tag_id \<times> tag) list \<Rightarrow> 'u ua_server \<Rightarrow> 'u ua_server" where
  "note_existing st specs = fold (\<lambda>(i, t) s. case get st i of Some v \<Rightarrow> note_tag_quality i v s | None \<Rightarrow> s) specs"

definition bind_tags ::
  "'u ua_nodes \<Rightarrow> 'h \<Rightarrow> 'u ua_server \<Rightarrow> 'h tag_store \<Rightarrow> (tag_id \<times> tag) list \<Rightarrow>
     'u ua_server \<times> 'h tag_store \<times> unit result" where
  "bind_tags nodes h s st specs =
     (if us_server s = None then (s, st, Err (ua_error EC_Internal ''OPC UA server not started''))
      else
        let again = us_has_store s \<and> us_subscription s \<noteq> 0;
            st = (if again then unsubscribe st (us_subscription s) else st);
            s = (if again then s\<lparr>us_subscription := 0\<rparr> else s)
        in (case bind_specs nodes specs (s\<lparr>us_has_store := True\<rparr>) of
              (s, Ok _) \<Rightarrow>
                (case subscribe st h of (st, k) \<Rightarrow>
                   (serve_async (note_existing st specs ((clear_counts True s)\<lparr>us_subscription := k\<rparr>)), st, Ok ()))
            | (s, r) \<Rightarrow> (s, st, r)))"

section \<open>Start and stop\<close>

definition advertised_url :: "project \<Rightarrow> string" where
  "advertised_url p = ''opc.tcp://'' @ parse_endpoint_host (ua_endpoint_url (prj_opcua p)) @ '':'' @
     show_nat (unat (parse_endpoint_port (ua_endpoint_url (prj_opcua p)) 4840))"

definition start_config ::
  "ua_lib \<Rightarrow> (string \<Rightarrow> bytes option) \<Rightarrow> ua_security_options \<Rightarrow> project \<Rightarrow> (ua_config \<times> string) result" where
  "start_config lib files sec p =
     (let o' = prj_opcua p; port = parse_endpoint_port (ua_endpoint_url o') 4840; url = advertised_url p
      in and_then (base_config lib files sec o' port) (\<lambda>c.
         and_then (if wildcard_host (url_host (ua_endpoint_url o')) then Ok c
                   else if lib_alloc lib then Ok (c\<lparr>uc_server_urls := [url]\<rparr>)
                   else Err (ua_error EC_Internal ''UA_Array_new failed'')) (\<lambda>c.
         and_then (configure_session_pki_for_identity lib files o' sec c) (\<lambda>c.
         and_then (apply_identity_access_control lib o' c) (\<lambda>c.
         Ok (c\<lparr>uc_application_name := (if ua_application_name o' = [] then prj_name p else ua_application_name o'),
               uc_application_uri := (if ua_namespace_uri o' = [] then uc_application_uri c else ua_namespace_uri o')\<rparr>,
             url))))))"

text \<open>A failure after the base configuration leaves the advertised address behind.\<close>

definition ua_start ::
  "ua_lib \<Rightarrow> 'u ua_nodes \<Rightarrow> (string \<Rightarrow> bytes option) \<Rightarrow> project option \<Rightarrow> 'u ua_server \<Rightarrow> 'u ua_server \<times> unit result" where
  "ua_start lib nodes files project s =
     (if us_server s \<noteq> None then (s, Ok ())
      else case project of
        None \<Rightarrow> (s, Err (ua_error EC_InvalidArgument ''project is null''))
      | Some p \<Rightarrow>
          let s = s\<lparr>us_project := Some p\<rparr>
          in if ua_security_mode (prj_opcua p) \<noteq> SM_None \<and> \<not> lib_encryption lib
             then (s, Err (ua_error EC_NotImplemented
                    ''project requests Sign/Encrypt but open62541 was built without UA_ENABLE_ENCRYPTION''))
             else (case nd_new nodes of
               None \<Rightarrow> (s, Err (ua_error EC_Internal ''UA_Server_new failed''))
             | Some u \<Rightarrow> (case start_config lib files (us_security s) p of
                 Ok (c, url) \<Rightarrow>
                   let s = ua_gauge ''ua_sessions'' fp_zero64 (s\<lparr>us_config := c, us_endpoint_url := url, us_hooks := True\<rparr>)
                   in (case nd_startup nodes u c of
                         None \<Rightarrow> (s\<lparr>us_hooks := False\<rparr>, Err (ua_error EC_Internal ''UA_Server_run_startup failed''))
                       | Some u \<Rightarrow>
                           (case nd_add_namespace nodes u (if ua_namespace_uri (prj_opcua p) = [] then ''urn:opc-server:default''
                                                           else ua_namespace_uri (prj_opcua p)) of
                              (u, ns) \<Rightarrow>
                                (case add_diagnostics nodes (s\<lparr>us_server := Some u, us_ns_index := ns\<rparr>) of
                                   (s, Ok _) \<Rightarrow> (ua_log LInfo (''OPC UA listening on '' @ us_endpoint_url s) s, Ok ())
                                 | (s, r) \<Rightarrow> (s\<lparr>us_server := None, us_hooks := False\<rparr>, r))))
               | Err e \<Rightarrow>
                   ((case base_config lib files (us_security s) (prj_opcua p) (parse_endpoint_port (ua_endpoint_url (prj_opcua p)) 4840) of
                       Ok _ \<Rightarrow> s\<lparr>us_endpoint_url := advertised_url p\<rparr> | _ \<Rightarrow> s), Err e)
               | Undef \<Rightarrow> (s, Undef))))"

definition ua_stop :: "'u ua_server \<Rightarrow> 'h tag_store \<Rightarrow> 'u ua_server \<times> 'h tag_store" where
  "ua_stop s st =
     (let s = s\<lparr>us_pump := False\<rparr>;
          subscribed = us_has_store s \<and> us_subscription s \<noteq> 0;
          st = (if subscribed then unsubscribe st (us_subscription s) else st);
          s = (if subscribed then s\<lparr>us_subscription := 0\<rparr> else s);
          s = s\<lparr>us_has_store := False\<rparr>
      in if us_server s = None then (s, st)
         else
           let s = s\<lparr>us_server := None, us_hooks := False, us_folder_ids := [], us_tag_node_ids := [], us_tag_types := [],
                     us_node_contexts := []\<rparr>;
               s = ua_gauge ''ua_sessions'' fp_zero64 ((clear_counts False s)\<lparr>us_active_sessions := []\<rparr>);
               s = s\<lparr>us_state_node := 0, us_good_node := 0, us_uncertain_node := 0, us_bad_node := 0, us_last_error_node := 0\<rparr>
           in (ua_log LInfo ''OPC UA stopped'' s, st))"

section \<open>Reading and writing variables\<close>

fun quality_to_status :: "quality \<Rightarrow> quality_reason \<Rightarrow> ua_status" where
  "quality_to_status Good r = UaGood"
| "quality_to_status Uncertain r = UaUncertainLastUsableValue"
| "quality_to_status Bad r =
     (if r = QR_Timeout \<or> r = QR_NoCommunication then UaBadNoCommunication
      else if r = QR_DecodingError then UaBadDecodingError
      else if r = QR_OutOfRange then UaBadOutOfRange
      else if r = QR_WriteRejected then UaBadWriteNotSupported
      else if r = QR_ModbusException \<or> r = QR_DeviceFailure then UaBadDeviceFailure
      else UaBadInternalError)"

definition contains_text :: "string \<Rightarrow> string \<Rightarrow> bool" where
  "contains_text s t \<longleftrightarrow> list_ex (\<lambda>i. take (length t) (drop i s) = t) [0..<length s + 1]"

definition map_error_to_status :: "error \<Rightarrow> ua_status" where
  "map_error_to_status e = (case err_code e of
     EC_Permission \<Rightarrow> if contains_text (err_message e) ''writable'' then UaBadNotWritable else UaBadUserAccessDenied
   | EC_QueueFull \<Rightarrow> UaBadResourceUnavailable
   | EC_InvalidArgument \<Rightarrow> UaBadTypeMismatch
   | _ \<Rightarrow> UaBadInternalError)"

text \<open>\<open>fill_variant\<close>, with \<open>None\<close> where \<open>std::get\<close> throws.\<close>

fun fill_variant :: "tag_type \<Rightarrow> scalar_value \<Rightarrow> ua_variant option" where
  "fill_variant TBool (SBool b) = Some (VBool b)"
| "fill_variant TUInt16 (SU16 w) = Some (VUInt16 w)"
| "fill_variant TInt16 (SI16 w) = Some (VInt16 w)"
| "fill_variant TUInt32 (SU32 w) = Some (VUInt32 w)"
| "fill_variant TInt32 (SI32 w) = Some (VInt32 w)"
| "fill_variant TFloat32 (SF32 x) = Some (VFloat x)"
| "fill_variant TFloat64 (SF64 x) = Some (VDouble x)"
| "fill_variant ty v = None"

fun variant_to_scalar :: "tag_type \<Rightarrow> ua_variant \<Rightarrow> scalar_value option" where
  "variant_to_scalar TBool (VBool b) = Some (SBool b)"
| "variant_to_scalar TUInt16 (VUInt16 w) = Some (SU16 w)"
| "variant_to_scalar TInt16 (VInt16 w) = Some (SI16 w)"
| "variant_to_scalar TUInt32 (VUInt32 w) = Some (SU32 w)"
| "variant_to_scalar TInt32 (VInt32 w) = Some (SI32 w)"
| "variant_to_scalar TFloat32 (VFloat x) = Some (SF32 x)"
| "variant_to_scalar TFloat64 (VDouble x) = Some (SF64 x)"
| "variant_to_scalar ty v = None"

text \<open>100-ns ticks since 1601.\<close>

definition ms_to_ua_datetime :: "timestamp_ms \<Rightarrow> int" where
  "ms_to_ua_datetime ms = (if ms \<le> 0 then 0 else ms * 10000 + 116444736000000000)"

record ua_data_value =
  dv_status :: ua_status
  dv_value :: "ua_variant option"
  dv_source_timestamp :: "int option"
  dv_server_timestamp :: "int option"

definition data_source_read :: "'u ua_server \<Rightarrow> 'h tag_store \<Rightarrow> node_context \<Rightarrow> bool \<Rightarrow> ua_data_value" where
  "data_source_read s st ctx include_source_timestamp =
     (let missing = \<lparr>dv_status = UaBadNoCommunication, dv_value = None, dv_source_timestamp = None, dv_server_timestamp = None\<rparr>
      in if \<not> us_has_store s then missing
         else case get st (ctx_tag_id ctx) of
           None \<Rightarrow> missing
         | Some tv \<Rightarrow>
             \<lparr>dv_status = quality_to_status (tv_quality tv) (tv_reason tv),
              dv_value = (if tv_value tv = SMono then None else fill_variant (ctx_type ctx) (tv_value tv)),
              dv_source_timestamp = (if include_source_timestamp \<and> tv_source_ts tv > 0
                                     then Some (ms_to_ua_datetime (tv_source_ts tv)) else None),
              dv_server_timestamp = (if tv_server_ts tv > 0 then Some (ms_to_ua_datetime (tv_server_ts tv)) else None)\<rparr>)"

text \<open>
  A write by a client, with the write handler of the runtime and the store of its dispatcher; \<open>now\<close>
  is the wall clock and \<open>data\<close> the value of the data value, if it has one.
\<close>

definition data_source_write ::
  "'v ua_server \<Rightarrow> node_context \<Rightarrow> ua_variant option \<Rightarrow> timestamp_ms \<Rightarrow>
     ('t, 'h, 'u, 'r) server_runtime \<Rightarrow> 'v ua_server \<times> ('t, 'h, 'u, 'r) server_runtime \<times> ua_status" where
  "data_source_write s ctx data now rt = (case data of
     None \<Rightarrow> (s, rt, UaBadInternalError)
   | Some v \<Rightarrow>
       if \<not> ctx_writable ctx then (s, rt, UaBadNotWritable)
       else case variant_to_scalar (ctx_type ctx) v of
         None \<Rightarrow> (s, rt, UaBadTypeMismatch)
       | Some x \<Rightarrow>
           if \<not> us_has_handler s then (s, rt, UaBadInternalError)
           else (case write_handler (ctx_tag_id ctx) x rt of
                   (rt, Ok _) \<Rightarrow>
                     (s, if us_has_store s
                      then on_disp (store_publish (ctx_tag_id ctx)
                             (with_quality (get (d_store (sr_disp rt)) (ctx_tag_id ctx)) Uncertain QR_WritePending now)) rt
                      else rt, UaGood)
                 | (rt, Err e) \<Rightarrow>
                     (ua_log LWarn (''UA write enqueue failed: '' @ err_message e) s, rt, map_error_to_status e)
                 | (rt, Undef) \<Rightarrow> (s, rt, UaBadInternalError)))"

section \<open>Quality counters\<close>

lemma ua_gauge_fields [simp]:
  "us_latest_quality (ua_gauge n x s) = us_latest_quality s" "us_good_count (ua_gauge n x s) = us_good_count s"
  "us_uncertain_count (ua_gauge n x s) = us_uncertain_count s" "us_bad_count (ua_gauge n x s) = us_bad_count s"
  "us_config (ua_gauge n x s) = us_config s" "us_server (ua_gauge n x s) = us_server s" "us_project (ua_gauge n x s) = us_project s"
  "us_folder_ids (ua_gauge n x s) = us_folder_ids s" "us_tag_node_ids (ua_gauge n x s) = us_tag_node_ids s"
  "us_active_sessions (ua_gauge n x s) = us_active_sessions s" "us_endpoint_url (ua_gauge n x s) = us_endpoint_url s"
  by (simp_all add: ua_gauge_def)

lemma ua_log_fields [simp]:
  "us_config (ua_log l m s) = us_config s" "us_server (ua_log l m s) = us_server s"
  "us_folder_ids (ua_log l m s) = us_folder_ids s" "us_tag_node_ids (ua_log l m s) = us_tag_node_ids s"
  by (simp_all add: ua_log_def)

definition with_quality_count :: "quality \<Rightarrow> (tag_id, quality) umap \<Rightarrow> nat" where
  "with_quality_count q m = length (filter (\<lambda>x. snd x = q) m)"

lemma with_quality_count_update:
  "distinct (map fst m) \<Longrightarrow>
   with_quality_count q (AList.update i q' m) + (if map_of m i = Some q then 1 else 0) =
   with_quality_count q m + (if q' = q then 1 else 0)"
proof (induction m)
  case (Cons x m)
  then show ?case by (cases x) (auto simp: with_quality_count_def map_of_eq_None_iff split: if_splits)
qed (simp add: with_quality_count_def)

lemma with_quality_count_card:
  assumes "distinct (map fst m)" shows "with_quality_count q m = card {i. map_of m i = Some q}"
proof -
  have "{i. map_of m i = Some q} = fst ` set (filter (\<lambda>x. snd x = q) m)"
    using assms by (force simp: map_of_eq_Some_iff)
  moreover have "distinct (map fst (filter (\<lambda>x. snd x = q) m))"
    using assms by (simp add: distinct_map_filter)
  ultimately show ?thesis unfolding with_quality_count_def
    by (metis distinct_card length_map set_map)
qed

text \<open>The counters count the tags by their latest quality.\<close>

definition counts_ok :: "'u ua_server \<Rightarrow> bool" where
  "counts_ok s \<longleftrightarrow> distinct (map fst (us_latest_quality s)) \<and>
     us_good_count s = of_nat (with_quality_count Good (us_latest_quality s)) \<and>
     us_uncertain_count s = of_nat (with_quality_count Uncertain (us_latest_quality s)) \<and>
     us_bad_count s = of_nat (with_quality_count Bad (us_latest_quality s))"

lemma bump_fields [simp]:
  "us_latest_quality (bump q d s) = us_latest_quality s"
  "us_good_count (bump q d s) = us_good_count s + (if q = Good then d else 0)"
  "us_uncertain_count (bump q d s) = us_uncertain_count s + (if q = Uncertain then d else 0)"
  "us_bad_count (bump q d s) = us_bad_count s + (if q = Bad then d else 0)"
  by (cases q; simp add: bump_def)+

lemma note_tag_quality_fields [simp]:
  "us_latest_quality (note_tag_quality i v s) = AList.update i (tv_quality v) (us_latest_quality s)"
  "us_good_count (note_tag_quality i v s) = us_good_count s - (if map_of (us_latest_quality s) i = Some Good then 1 else 0) + (if tv_quality v = Good then 1 else 0)"
  "us_uncertain_count (note_tag_quality i v s) =
     us_uncertain_count s - (if map_of (us_latest_quality s) i = Some Uncertain then 1 else 0) + (if tv_quality v = Uncertain then 1 else 0)"
  "us_bad_count (note_tag_quality i v s) = us_bad_count s - (if map_of (us_latest_quality s) i = Some Bad then 1 else 0) + (if tv_quality v = Bad then 1 else 0)"
  by (simp_all add: note_tag_quality_def publish_quality_metrics_def Let_def split: option.split)

lemma of_nat_count_update:
  assumes "distinct (map fst m)"
  shows "of_nat (with_quality_count q (AList.update i q' m)) =
    (of_nat (with_quality_count q m) - (if map_of m i = Some q then 1 else 0) + (if q' = q then 1 else 0) :: u64)"
  using arg_cong [OF with_quality_count_update [OF assms, of q i q'], of "of_nat :: nat \<Rightarrow> u64"]
  by (auto simp: algebra_simps split: if_splits)

lemma note_tag_quality_counts: "counts_ok s \<Longrightarrow> counts_ok (note_tag_quality i v s)"
  by (simp add: counts_ok_def of_nat_count_update)

lemma count_bound: "distinct (map fst (m :: (tag_id, quality) umap)) \<Longrightarrow> with_quality_count q m < 2 ^ 64"
proof -
  assume d: "distinct (map fst m)"
  have "with_quality_count q m \<le> length m" by (simp add: with_quality_count_def)
  also have "length m = card (set (map fst m))" using d by (metis distinct_card length_map)
  also have "\<dots> \<le> card (UNIV :: tag_id set)" by (intro card_mono) auto
  finally show ?thesis by (simp add: card_word)
qed

text \<open>
  C21: The quality counters of the OPC UA diagnostics are exact: after any sequence of updates they are
  the numbers of tags whose latest quality is Good, Uncertain and Bad; they never wrap.
\<close>

theorem quality_counts_exact:
  fixes s0 :: "'u ua_server"
  shows "(let s = fold (\<lambda>(i, v). note_tag_quality i v) vs (clear_counts b s0);
       latest = map_of (rev (map (\<lambda>(i, v). (i, tv_quality v)) vs))
   in unat (us_good_count s) = card {i. latest i = Some Good} \<and>
      unat (us_uncertain_count s) = card {i. latest i = Some Uncertain} \<and>
      unat (us_bad_count s) = card {i. latest i = Some Bad})"
proof -
  define s where "s = fold (\<lambda>(i, v). note_tag_quality i v) vs (clear_counts b s0)"
  have "counts_ok t \<Longrightarrow> counts_ok (fold (\<lambda>(i, v). note_tag_quality i v) vs t)" for t :: "'u ua_server"
    by (induction vs arbitrary: t) (auto simp: note_tag_quality_counts)
  moreover have "counts_ok (clear_counts b s0)" by (simp add: counts_ok_def clear_counts_def with_quality_count_def)
  ultimately have c: "counts_ok s" unfolding s_def by blast
  have "map_of (us_latest_quality (fold (\<lambda>(i, v). note_tag_quality i v) vs t)) =
      map_of (us_latest_quality t) ++ map_of (rev (map (\<lambda>(i, v). (i, tv_quality v)) vs))" for t :: "'u ua_server"
    by (induction vs arbitrary: t) (auto simp: map_add_def fun_eq_iff split: option.split)
  then have l: "map_of (us_latest_quality s) = map_of (rev (map (\<lambda>(i, v). (i, tv_quality v)) vs))"
    by (simp add: s_def clear_counts_def)
  have "unat (of_nat (with_quality_count q (us_latest_quality s)) :: u64) = card {i. map_of (us_latest_quality s) i = Some q}" for q
    using c count_bound [of "us_latest_quality s" q] with_quality_count_card [of "us_latest_quality s" q]
    by (simp add: counts_ok_def unsigned_of_nat take_bit_eq_mod)
  then show ?thesis using c unfolding Let_def s_def [symmetric] l [symmetric] by (simp add: counts_ok_def)
qed

section \<open>Values and status codes\<close>

text \<open>
  A value a client can read it can write back: the conversions between tag values and OPC UA
  values of a type are inverse to each other.
\<close>

theorem variant_roundtrip: "fill_variant ty v = Some x \<longleftrightarrow> variant_to_scalar ty x = Some v"
  by (cases ty; cases v; cases x; auto)

text \<open>Sessions whose ids are not numbers all have the same key.\<close>

lemma sessions_collapse:
  assumes "us_hooks s" "us_active_sessions s = []"
  shows "us_active_sessions (close_session_hook (Some (OtherId 4 a))
     (fst (activate_session_hook True (Some (OtherId 4 b)) (fst (activate_session_hook True (Some (OtherId 4 a)) s))))) = []"
  using assms by (simp add: activate_session_hook_def close_session_hook_def note_session_activate_def note_session_close_def
      ua_gauge_def Let_def)

section \<open>A started server is secure\<close>

lemma ensure_folders_config [simp]: "us_config (fst (ensure_folders nodes cum pid parts s)) = us_config s"
  by (induction nodes cum pid parts s rule: ensure_folders.induct) (auto simp: Let_def split: option.splits prod.splits)

lemma in_order_keeps:
  assumes "\<And>g s. g \<in> set fs \<Longrightarrow> f (fst (g s)) = f s" shows "f (fst (in_order fs s)) = f s"
  using assms
proof (induction fs arbitrary: s)
  case (Cons g fs)
  then have "f (fst (in_order fs (fst (g s)))) = f (fst (g s))" by auto
  then show ?case using Cons.prems [of g s] by (auto split: prod.split result.split)
qed simp

lemma ensure_folders_running [simp]:
  "us_server (fst (ensure_folders nodes cum pid parts s)) = None \<longleftrightarrow> us_server s = None"
  by (induction nodes cum pid parts s rule: ensure_folders.induct) (auto simp: Let_def split: option.splits prod.splits)

lemma add_diagnostics_keeps:
  assumes path: "\<And>p. f (fst (ensure_path nodes p s)) = f s"
    and node: "\<And>u n s. f (s\<lparr>us_next_numeric_id := n\<rparr>) = f s" "\<And>u v n s. us_server s = Some u \<Longrightarrow> f (s\<lparr>us_server := Some v\<rparr>) = f s"
    and ids: "\<And>n s. f (s\<lparr>us_state_node := n\<rparr>) = f s" "\<And>n s. f (s\<lparr>us_good_node := n\<rparr>) = f s"
      "\<And>n s. f (s\<lparr>us_uncertain_node := n\<rparr>) = f s" "\<And>n s. f (s\<lparr>us_bad_node := n\<rparr>) = f s"
      "\<And>n s. f (s\<lparr>us_last_error_node := n\<rparr>) = f s"
  shows "f (fst (add_diagnostics nodes s)) = f s"
proof -
  have d: "(\<And>n s. f (g n s) = f s) \<Longrightarrow> f (fst (add_diagnostic nodes pid name v g t)) = f t" for pid name v g t
    using node by (auto simp: add_diagnostic_def Let_def split: option.split prod.split)
  obtain t r where e: "ensure_path nodes ''OPC_SERVER/Diagnostics/State'' s = (t, r)" by (rule prod.exhaust)
  have t: "f t = f s" using path [of "''OPC_SERVER/Diagnostics/State''"] unfolding e by simp
  show ?thesis
  proof (cases r)
    case (Ok pid)
    show ?thesis
      unfolding add_diagnostics_def e Ok prod.case result.case t [symmetric]
      by (rule in_order_keeps) (auto simp only: list.simps(15) list.set(1) insert_iff empty_iff intro!: d ids)
  qed (simp_all add: add_diagnostics_def e t)
qed

lemma add_diagnostics_config: "us_config (fst (add_diagnostics nodes s)) = us_config s"
  by (rule add_diagnostics_keeps) (simp_all add: ensure_path_def Let_def)

lemma add_diagnostics_running: "us_server (fst (add_diagnostics nodes s)) = None \<longleftrightarrow> us_server s = None"
  by (rule add_diagnostics_keeps [where f = "\<lambda>s. us_server s = None"]) (simp_all add: ensure_path_def Let_def)

text \<open>What the identity checks leave of a configuration.\<close>

lemma configure_session_pki_Ok:
  assumes "configure_session_pki_for_identity lib files o' sec c = Ok c'"
  shows "uc_endpoints c' = uc_endpoints c" "uc_access c' = uc_access c"
    "ua_allow_certificate_identity o' \<Longrightarrow> (sec_accept_untrusted sec \<or> sec_trust_list sec \<noteq> [])"
    "ua_allow_certificate_identity o' \<Longrightarrow> ua_security_mode o' = SM_None \<Longrightarrow> ua_allow_none_certificate o'"
    "\<not> ua_allow_certificate_identity o' \<Longrightarrow> uc_session_pki c' = PkiUnset"
  using assms by (auto simp: configure_session_pki_for_identity_def split: if_splits option.splits)

lemma apply_identity_Ok:
  assumes "apply_identity_access_control lib o' c = Ok c'"
  shows "uc_endpoints c' = uc_endpoints c" "uc_session_pki c' = uc_session_pki c"
    "ua_users o' \<noteq> [] \<Longrightarrow> ua_security_mode o' = SM_None \<Longrightarrow> ua_allow_none_password o'"
    "ua_users o' \<noteq> [] \<or> \<not> ua_allow_anonymous o' \<or> ua_allow_certificate_identity o' \<Longrightarrow> uc_access c' = Some (ua_allow_anonymous o', ua_users o')"
  using assms by (auto simp: apply_identity_access_control_def Let_def split: if_splits)

lemma base_config_endpoints:
  assumes "base_config lib files sec o' port = Ok c" "ua_security_mode o' \<noteq> SM_None"
  shows "uc_endpoints c \<noteq> []" "ep \<in> set (uc_endpoints c) \<Longrightarrow>
     ued_mode ep = ua_message_security_mode (ua_security_mode o') \<and> ued_policy_uri ep = ua_security_policy_uri Basic256Sha256"
proof -
  have "(if ua_security_policy o' = SP_None then ua_security_policy_uri Basic256Sha256 else ua_security_policy_uri (ua_security_policy o')) =
      ua_security_policy_uri Basic256Sha256" by (cases "ua_security_policy o'") auto
  then obtain c0 where "c = keep_security_endpoints (ua_message_security_mode (ua_security_mode o')) (ua_security_policy_uri Basic256Sha256) c0"
    "uc_endpoints c \<noteq> []"
    using assms unfolding base_config_def secure_config_def Let_def
    by (auto simp: and_then_eq_Ok split: if_splits option.splits)
  then show "uc_endpoints c \<noteq> []" "ep \<in> set (uc_endpoints c) \<Longrightarrow>
     ued_mode ep = ua_message_security_mode (ua_security_mode o') \<and> ued_policy_uri ep = ua_security_policy_uri Basic256Sha256"
    by (auto simp: keep_security_endpoints_def)
qed

text \<open>The security of a configuration for the settings of a project.\<close>

definition config_secure :: "ua_security_options \<Rightarrow> opc_ua_settings \<Rightarrow> ua_config \<Rightarrow> bool" where
  "config_secure sec o' c \<longleftrightarrow>
     (ua_security_mode o' \<noteq> SM_None \<longrightarrow> uc_endpoints c \<noteq> [] \<and>
        list_all (\<lambda>ep. ued_mode ep = ua_message_security_mode (ua_security_mode o') \<and>
          ued_policy_uri ep = ua_security_policy_uri Basic256Sha256) (uc_endpoints c)) \<and>
     (ua_security_mode o' = SM_None \<and> ua_users o' \<noteq> [] \<longrightarrow> ua_allow_none_password o') \<and>
     (ua_security_mode o' = SM_None \<and> ua_allow_certificate_identity o' \<longrightarrow> ua_allow_none_certificate o') \<and>
     (if ua_allow_certificate_identity o' then sec_accept_untrusted sec \<or> sec_trust_list sec \<noteq> []
      else uc_session_pki c = PkiUnset) \<and>
     (ua_users o' \<noteq> [] \<or> \<not> ua_allow_anonymous o' \<or> ua_allow_certificate_identity o' \<longrightarrow>
        uc_access c = Some (ua_allow_anonymous o', ua_users o'))"

lemma start_config_secure:
  assumes "start_config lib files sec p = Ok (c, url)"
  shows "config_secure sec (prj_opcua p) c"
proof -
  obtain port c0 c1 c2 c3 url' where 1: "base_config lib files sec (prj_opcua p) port = Ok c0"
    and i: "(if wildcard_host (url_host (ua_endpoint_url (prj_opcua p))) then Ok c0
        else if lib_alloc lib then Ok (c0\<lparr>uc_server_urls := [url']\<rparr>)
        else Err (ua_error EC_Internal ''UA_Array_new failed'')) = Ok c1"
    and 2: "configure_session_pki_for_identity lib files (prj_opcua p) sec c1 = Ok c2"
    and 3: "apply_identity_access_control lib (prj_opcua p) c2 = Ok c3"
    and c: "c = c3\<lparr>uc_application_name := (if ua_application_name (prj_opcua p) = [] then prj_name p else ua_application_name (prj_opcua p)),
               uc_application_uri := (if ua_namespace_uri (prj_opcua p) = [] then uc_application_uri c3 else ua_namespace_uri (prj_opcua p))\<rparr>"
    using assms unfolding start_config_def Let_def and_then_eq_Ok result.inject prod.inject by blast
  have c1: "uc_endpoints c1 = uc_endpoints c0" using i by (auto split: if_splits)
  have 4: "uc_endpoints c = uc_endpoints c3" "uc_session_pki c = uc_session_pki c3" "uc_access c = uc_access c3"
    unfolding c by simp_all
  have e: "ua_security_mode (prj_opcua p) \<noteq> SM_None \<Longrightarrow> uc_endpoints c \<noteq> [] \<and>
      list_all (\<lambda>ep. ued_mode ep = ua_message_security_mode (ua_security_mode (prj_opcua p)) \<and>
          ued_policy_uri ep = ua_security_policy_uri Basic256Sha256) (uc_endpoints c)"
    unfolding 4(1) apply_identity_Ok(1) [OF 3] configure_session_pki_Ok(1) [OF 2] c1 list_all_iff
    using base_config_endpoints [OF 1] by blast
  show ?thesis
    unfolding config_secure_def 4(2,3) apply_identity_Ok(2) [OF 3]
    using e configure_session_pki_Ok(3-5) [OF 2] apply_identity_Ok(3,4) [OF 3] by presburger
qed

lemma ua_start_config_secure:
  assumes "ua_start lib nodes files (Some p) s = (s', Ok ())" "us_server s = None"
  shows "config_secure (us_security s) (prj_opcua p) (us_config s') \<and>
    (ua_security_mode (prj_opcua p) \<noteq> SM_None \<longrightarrow> lib_encryption lib) \<and> us_server s' \<noteq> None"
proof -
  obtain c url u ns t where 1: "start_config lib files (us_security s) p = Ok (c, url)"
    and 2: "add_diagnostics nodes ((ua_gauge ''ua_sessions'' fp_zero64
        (s\<lparr>us_project := Some p, us_config := c, us_endpoint_url := url, us_hooks := True\<rparr>))
      \<lparr>us_server := Some u, us_ns_index := ns\<rparr>) = (t, Ok ())" (is "add_diagnostics nodes ?s1 = _")
    and 3: "s' = ua_log LInfo (''OPC UA listening on '' @ us_endpoint_url t) t"
    and 4: "ua_security_mode (prj_opcua p) = SM_None \<or> lib_encryption lib"
    using assms unfolding ua_start_def Let_def
    by (auto split: if_splits option.splits result.splits prod.splits)
  have "us_config s' = c" "us_server s' \<noteq> None"
    using add_diagnostics_config [of nodes ?s1] add_diagnostics_running [of nodes ?s1] unfolding 2 3 by simp_all
  then show ?thesis using start_config_secure [OF 1] 4 by auto
qed

text \<open>
  A server that starts is configured as securely as the project asks: with Sign or SignAndEncrypt
  all its end points use exactly that mode and the policy Basic256Sha256; passwords and certificates
  over an unsecured channel need their explicit permission; certificate identities need a trust
  list or the permission to accept untrusted ones and are not offered otherwise; and the users and
  the ban on anonymous sessions of the project are installed.
\<close>

theorem ua_start_secure:
  assumes "ua_start lib nodes files (Some p) s = (s', Ok ())" "us_server s = None"
  shows "config_secure (us_security s) (prj_opcua p) (us_config s') \<and>
    (ua_security_mode (prj_opcua p) \<noteq> SM_None \<longrightarrow> lib_encryption lib) \<and> us_server s' \<noteq> None"
  using assms by (rule ua_start_config_secure)

text \<open>A library that grants every request: the witness of a server with SignAndEncrypt.\<close>

definition lab_lib :: ua_lib where
  "lab_lib =
     (let c = (\<lambda>eps. \<lparr>uc_endpoints = eps, uc_channel_pki = PkiLibrary, uc_session_pki = PkiLibrary, uc_access = None,
                 uc_allow_none_password = False, uc_server_urls = [], uc_application_name = [], uc_application_uri = []\<rparr>);
          none = \<lparr>ued_mode = 1, ued_policy_uri = ua_security_policy_uri SP_None\<rparr>;
          full = \<lparr>ued_mode = 3, ued_policy_uri = ua_security_policy_uri Basic256Sha256\<rparr>
      in \<lparr>lib_encryption = True, lib_minimal = (\<lambda>port. Some (c [none])), lib_policies = (\<lambda>port cert key trust crl. Some (c [none, full])),
          lib_trustlist = (\<lambda>trust crl. True), lib_access_control = True, lib_alloc = True,
          lib_create_certificate = (\<lambda>uri. Inr ([1], [2]))\<rparr>)"

definition lab_nodes :: "unit ua_nodes" where
  "lab_nodes = \<lparr>nd_new = Some (), nd_startup = (\<lambda>u c. Some u), nd_add_namespace = (\<lambda>u uri. (u, 2)),
     nd_add_folder = (\<lambda>u i parent name. (u, Some (snd i))), nd_add_variable = (\<lambda>u i parent name attr. (u, Inr (snd i))),
     nd_add_scalar = (\<lambda>u i parent name v. (u, Some (snd i))), nd_set_data_source = (\<lambda>u i. (u, True)),
     nd_write_value = (\<lambda>u i v. (u, True)), nd_run_iterate = (\<lambda>u. u)\<rparr>"

definition lab_security :: ua_security_options where
  "lab_security = \<lparr>sec_certificate_path = [], sec_private_key_path = [], sec_trust_list = [], sec_revocation_list = [],
     sec_generate_if_missing = True, sec_accept_untrusted = False\<rparr>"

definition lab_server :: "unit ua_server" where
  "lab_server = \<lparr>us_server = None, us_config = the (lib_minimal lab_lib 4840), us_project = None, us_security = lab_security,
     us_endpoint_url = [], us_ns_index = 1, us_next_numeric_id = 1000, us_folder_ids = [], us_tag_node_ids = [], us_tag_types = [],
     us_node_contexts = [], us_has_store = False, us_has_handler = False, us_subscription = 0, us_latest_quality = [],
     us_good_count = 0, us_uncertain_count = 0, us_bad_count = 0, us_active_sessions = [], us_last_error = [], us_dirty = False,
     us_state_node = 0, us_good_node = 0, us_uncertain_node = 0, us_bad_node = 0, us_last_error_node = 0, us_pump = False,
     us_hooks = False, us_has_metrics = False, us_gauges = [], us_has_log = False, us_log = []\<rparr>"

definition lab_settings :: opc_ua_settings where
  "lab_settings = default_opc_ua_settings\<lparr>ua_security_mode := SignAndEncrypt, ua_allow_anonymous := False,
     ua_users := [\<lparr>user_username = ''op'', user_password = ''pw''\<rparr>]\<rparr>"

lemma lab_config: "\<exists>c url. start_config lab_lib (\<lambda>_. None) lab_security (default_project\<lparr>prj_opcua := lab_settings\<rparr>) = Ok (c, url)"
  by (simp add: start_config_def base_config_def secure_config_def load_or_create_application_cert_def lab_lib_def lab_security_def
      lab_settings_def default_opc_ua_settings_def default_project_def keep_security_endpoints_def
      configure_session_pki_for_identity_def apply_identity_access_control_def Let_def wildcard_host_def)

lemma lab_diagnostics:
  assumes "us_server s = Some ()" "us_folder_ids s = []"
  shows "\<exists>s'. add_diagnostics lab_nodes s = (s', Ok ())"
proof -
  have "split_path ''OPC_SERVER/Diagnostics/State'' = [''OPC_SERVER'', ''Diagnostics'', ''State'']" by code_simp
  then show ?thesis
    using assms by (simp add: add_diagnostics_def ensure_path_def add_diagnostic_def lab_nodes_def emplace_def Let_def)
qed

theorem ua_start_secure_witness:
  "\<exists>s'. ua_start lab_lib lab_nodes (\<lambda>_. None) (Some (default_project\<lparr>prj_opcua := lab_settings\<rparr>)) lab_server = (s', Ok ()) \<and>
     config_secure lab_security lab_settings (us_config s') \<and> lib_encryption lab_lib \<and> us_server s' \<noteq> None"
proof -
  let ?p = "default_project\<lparr>prj_opcua := lab_settings\<rparr>"
  obtain c url where c: "start_config lab_lib (\<lambda>_. None) lab_security ?p = Ok (c, url)" using lab_config by blast
  obtain t where t: "add_diagnostics lab_nodes ((ua_gauge ''ua_sessions'' fp_zero64
      (lab_server\<lparr>us_project := Some ?p, us_config := c, us_endpoint_url := url, us_hooks := True\<rparr>))
      \<lparr>us_server := Some (), us_ns_index := 2\<rparr>) = (t, Ok ())"
    using lab_diagnostics [of "(ua_gauge ''ua_sessions'' fp_zero64
      (lab_server\<lparr>us_project := Some ?p, us_config := c, us_endpoint_url := url, us_hooks := True\<rparr>))
      \<lparr>us_server := Some (), us_ns_index := 2\<rparr>"] by (auto simp: lab_server_def)
  have sec: "us_security lab_server = lab_security" "us_server lab_server = None" by (simp_all add: lab_server_def)
  have "ua_start lab_lib lab_nodes (\<lambda>_. None) (Some ?p) lab_server =
      (ua_log LInfo (''OPC UA listening on '' @ us_endpoint_url t) t, Ok ())"
    using c t sec by (simp add: ua_start_def lab_nodes_def lab_lib_def [THEN arg_cong [where f = lib_encryption]] Let_def)
  from this ua_start_secure [OF this sec(2)] show ?thesis
    unfolding sec(1) by (auto simp: lab_settings_def default_project_def)
qed

section \<open>The address space\<close>

text \<open>Folders are created once: a path that was ensured is found again without a call of the library.\<close>

lemma ensure_folders_mono: "map_of (us_folder_ids s) \<subseteq>\<^sub>m map_of (us_folder_ids (fst (ensure_folders nodes cum pid parts s)))"
proof (induction nodes cum pid parts s rule: ensure_folders.induct)
  case (1 nodes cum pid part nxt parts s)
  then show ?case
    by (auto simp: Let_def map_le_def dom_def split: option.splits prod.splits)
qed auto

lemma ensure_folders_again:
  assumes "ensure_folders nodes cum pid parts s = (s1, Ok i)" "map_of (us_folder_ids s1) \<subseteq>\<^sub>m map_of (us_folder_ids t)"
  shows "ensure_folders nodes cum pid parts t = (t, Ok i)"
  using assms
proof (induction nodes cum pid parts s rule: ensure_folders.induct)
  case (1 nodes cum pid part nxt parts s)
  let ?c = "if cum = [] then part else cum @ ''/'' @ part"
  have found: "map_of (us_folder_ids t) ?c = Some k"
    if "ensure_folders nodes ?c k (nxt # parts) s0 = (s1, Ok i)" "map_of (us_folder_ids s0) ?c = Some k" for k s0
    using that ensure_folders_mono [of s0 nodes ?c k "nxt # parts"] 1(4)
    by (auto simp: map_le_def dom_def)
  show ?case
  proof (cases "map_of (us_folder_ids s) ?c")
    case (Some k)
    then show ?thesis using 1 found [of k s] by (simp add: Let_def)
  next
    case None
    then obtain u u' out where "us_server s = Some u"
      and *: "nd_add_folder nodes u (us_ns_index s, us_next_numeric_id s) (parent_node (s\<lparr>us_next_numeric_id := us_next_numeric_id s + 1\<rparr>) pid) part = (u', Some out)"
      and "ensure_folders nodes ?c out (nxt # parts) (s\<lparr>us_next_numeric_id := us_next_numeric_id s + 1, us_server := Some u',
         us_folder_ids := emplace ?c out (us_folder_ids s)\<rparr>) = (s1, Ok i)"
      using 1(3) by (auto simp: Let_def split: option.splits prod.splits)
    with None show ?thesis using 1(1) [OF refl None refl refl] found [of out "s\<lparr>us_next_numeric_id := us_next_numeric_id s + 1, us_server := Some u',
         us_folder_ids := emplace ?c out (us_folder_ids s)\<rparr>"] 1(4)
      by (auto simp: Let_def)
  qed
qed auto

text \<open>
  Folders are created once: a node path whose folders were created is resolved again to the same
  parent node, without a further call of the library and without using up a node id.
\<close>

theorem ensure_path_idempotent:
  assumes "ensure_path nodes p s = (s', Ok pid)"
  shows "ensure_path nodes p s' = (s', Ok pid)"
  using assms ensure_folders_again [OF _ map_le_refl] by (auto simp: ensure_path_def Let_def split: if_splits)

theorem ensure_path_idempotent_witness:
  "\<exists>s' pid. ensure_path lab_nodes ''Plant/Line/T1'' (lab_server\<lparr>us_server := Some ()\<rparr>) = (s', Ok pid) \<and>
     us_next_numeric_id s' = 1002 \<and> ensure_path lab_nodes ''Plant/Line/T1'' s' = (s', Ok pid)"
proof -
  have p: "split_path ''Plant/Line/T1'' = [''Plant'', ''Line'', ''T1'']" by code_simp
  obtain s' pid where e: "ensure_path lab_nodes ''Plant/Line/T1'' (lab_server\<lparr>us_server := Some ()\<rparr>) = (s', Ok pid)"
    and "us_next_numeric_id s' = 1002"
    using p by (simp add: ensure_path_def lab_nodes_def lab_server_def emplace_def Let_def)
  then show ?thesis using ensure_path_idempotent [OF e] by blast
qed

text \<open>What binding the tags leaves: a variable with a data source for every tag with a path.\<close>

definition published :: "'u ua_server \<Rightarrow> tag_id \<Rightarrow> tag \<Rightarrow> bool" where
  "published s i t \<longleftrightarrow> map_of (us_tag_types s) i = Some (tag_ty t) \<and>
     (\<exists>n \<in> set_option (map_of (us_tag_node_ids s) i).
        (n, \<lparr>ctx_tag_id = i, ctx_type = tag_ty t, ctx_writable = tag_writable t\<rparr>) \<in> set (us_node_contexts s))"

definition same_tags :: "'u ua_server \<Rightarrow> 'u ua_server \<Rightarrow> bool" where
  "same_tags s s' \<longleftrightarrow> us_tag_node_ids s' = us_tag_node_ids s \<and> us_tag_types s' = us_tag_types s \<and>
     us_node_contexts s' = us_node_contexts s"

lemma ensure_folders_tags: "same_tags s (fst (ensure_folders nodes cum pid parts s))"
  by (induction nodes cum pid parts s rule: ensure_folders.induct)
    (auto simp: same_tags_def Let_def split: option.splits prod.splits)

lemma add_variable_published:
  assumes "add_variable nodes i name pid t s = (s', Ok ())" "map_of (us_tag_node_ids s) i = None" "map_of (us_tag_types s) i = None"
  shows "published s' i t" "j \<noteq> i \<Longrightarrow> map_of (us_tag_node_ids s') j = map_of (us_tag_node_ids s) j"
    "j \<noteq> i \<Longrightarrow> map_of (us_tag_types s') j = map_of (us_tag_types s) j"
    "published s j t' \<Longrightarrow> published s' j t'"
  using assms by (auto simp: add_variable_def published_def Let_def split: option.splits prod.splits sum.splits bool.splits)

lemma bind_path_published:
  assumes "bind_path nodes i p t s = (s', Ok ())" "map_of (us_tag_node_ids s) i = None" "map_of (us_tag_types s) i = None"
  shows "published s' i t" "j \<noteq> i \<Longrightarrow> map_of (us_tag_node_ids s') j = map_of (us_tag_node_ids s) j"
    "j \<noteq> i \<Longrightarrow> map_of (us_tag_types s') j = map_of (us_tag_types s) j"
    "published s j t' \<Longrightarrow> published s' j t'"
proof -
  obtain s1 pid where e: "ensure_path nodes p s = (s1, Ok pid)" and v: "add_variable nodes i (last (split_path p)) pid t s1 = (s', Ok ())"
    using assms(1) by (auto simp: bind_path_def split: prod.splits result.splits)
  have "same_tags s s1"
    using e ensure_folders_tags [of s nodes "[]" objects_folder "split_path p"] by (auto simp: ensure_path_def Let_def split: if_splits)
  then have eq: "us_tag_node_ids s1 = us_tag_node_ids s" "us_tag_types s1 = us_tag_types s" "published s1 j t' = published s j t'" for j t'
    by (simp_all add: same_tags_def published_def)
  show "published s' i t" "j \<noteq> i \<Longrightarrow> map_of (us_tag_node_ids s') j = map_of (us_tag_node_ids s) j"
    "j \<noteq> i \<Longrightarrow> map_of (us_tag_types s') j = map_of (us_tag_types s) j"
    "published s j t' \<Longrightarrow> published s' j t'"
    using add_variable_published [OF v] assms(2,3) by (simp_all add: eq)
qed

lemma published_frames [simp]:
  "published (ua_log l m s) = published s" "published (ua_gauge n x s) = published s"
  "published (clear_counts d s) = published s" "published (s\<lparr>us_subscription := k\<rparr>) = published s"
  "published (s\<lparr>us_has_store := b\<rparr>) = published s" "published (s\<lparr>us_pump := b\<rparr>) = published s"
  by (simp_all add: fun_eq_iff published_def ua_log_def ua_gauge_def clear_counts_def)

lemma ua_log_tag_types [simp]: "us_tag_types (ua_log l m s) = us_tag_types s"
  by (simp add: ua_log_def)

lemma bind_specs_published:
  assumes "bind_specs nodes specs s = (s', Ok ())" "distinct (map fst specs)"
    "\<And>i t. (i, t) \<in> set specs \<Longrightarrow> map_of (us_tag_node_ids s) i = None \<and> map_of (us_tag_types s) i = None"
  shows "((i, t) \<in> set specs \<and> tag_node_path t \<noteq> []) \<or> published s i t \<Longrightarrow> published s' i t"
  using assms
proof (induction nodes specs s rule: bind_specs.induct)
  case (2 nodes k u specs s)
  show ?case
  proof (cases "tag_node_path u = []")
    case True
    have "\<And>i t. (i, t) \<in> set specs \<Longrightarrow> map_of (us_tag_node_ids s) i = None \<and> map_of (us_tag_types s) i = None"
      using 2(6) by auto
    then show ?thesis using 2(1) [OF True] 2(3-5) True by auto
  next
    case False
    then obtain s1 where b: "bind_path nodes k (tag_node_path u) u s = (s1, Ok ())" and r: "bind_specs nodes specs s1 = (s', Ok ())"
      using 2(4) by (auto split: prod.splits result.splits)
    have f: "map_of (us_tag_node_ids s) k = None" "map_of (us_tag_types s) k = None" using 2(6) by auto
    have k: "k \<notin> fst ` set specs" using 2(5) by auto
    have fresh: "map_of (us_tag_node_ids s1) i = None \<and> map_of (us_tag_types s1) i = None" if "(i, t) \<in> set specs" for i t
      using that k 2(6) [of i t] bind_path_published(2,3) [OF b f, of i] by force
    have "(i, t) \<in> set specs \<and> tag_node_path t \<noteq> [] \<or> published s1 i t"
      using 2(3) bind_path_published(1,4) [OF b f] by auto
    then show ?thesis using 2(2) [OF False b [symmetric] refl] r 2(5) fresh by simp
  qed
qed auto

lemma note_tag_quality_published [simp]: "published (note_tag_quality i v s) = published s"
proof -
  have b: "published (bump q d s) = published s" for q d and s :: "'a ua_server"
    by (cases q) (simp_all add: fun_eq_iff published_def bump_def)
  have "published (s\<lparr>us_latest_quality := m\<rparr>) = published s" "published (s\<lparr>us_last_error := e\<rparr>) = published s"
    "published (s\<lparr>us_dirty := d\<rparr>) = published s" for m e d and s :: "'a ua_server"
    by (simp_all add: fun_eq_iff published_def)
  then show ?thesis by (simp add: note_tag_quality_def publish_quality_metrics_def Let_def b split: option.split)
qed

lemma note_existing_published [simp]: "published (note_existing st specs s) = published s"
  by (induction specs arbitrary: s) (auto simp: note_existing_def split: option.split)

lemma serve_async_published [simp]: "published (serve_async s) = published s"
  by (simp add: serve_async_def)

text \<open>
  C20: Binding the tags of the runtime index to a server with an empty address space gives every tag
  with a node path a variable node, whose data source context carries the id, the type and the write
  permission of exactly that tag.
\<close>

theorem bind_tags_publishes:
  assumes "bind_tags nodes h s st specs = (s', st', Ok ())" "us_tag_node_ids s = []" "us_tag_types s = []" "distinct (map fst specs)"
  shows "\<forall>(i, t) \<in> set specs. tag_node_path t \<noteq> [] \<longrightarrow> published s' i t"
proof -
  obtain s0 s1 where b: "bind_specs nodes specs (s0\<lparr>us_has_store := True\<rparr>) = (s1, Ok ())" and s0: "s0 = s \<or> s0 = s\<lparr>us_subscription := 0\<rparr>"
    and p: "published s' = published s1"
    using assms(1) by (auto simp: bind_tags_def Let_def split: if_splits prod.splits result.splits)
  show ?thesis using bind_specs_published [OF b assms(4)] s0 assms(2,3) by (auto simp: p)
qed

definition lab_specs :: "(tag_id \<times> tag) list" where
  "lab_specs = [(1, default_tag\<lparr>tag_name := ''T1'', tag_node_path := ''Plant/Line/T1''\<rparr>),
     (2, default_tag\<lparr>tag_name := ''T2'', tag_node_path := ''Plant/Line/T2'', tag_ty := TFloat32, tag_writable := True\<rparr>)]"

lemma lab_bind: "\<exists>s' st'. bind_tags lab_nodes () (lab_server\<lparr>us_server := Some ()\<rparr>) empty_tag_store lab_specs = (s', st', Ok ())"
proof -
  have p: "split_path ''Plant/Line/T1'' = [''Plant'', ''Line'', ''T1'']" "split_path ''Plant/Line/T2'' = [''Plant'', ''Line'', ''T2'']"
    by code_simp+
  show ?thesis
    by (simp add: bind_tags_def lab_specs_def lab_server_def lab_nodes_def default_tag_def bind_path_def ensure_path_def p
        add_variable_def emplace_def subscribe_def Let_def)
qed

theorem bind_tags_publishes_witness:
  "\<exists>s'. fst (bind_tags lab_nodes () (lab_server\<lparr>us_server := Some ()\<rparr>) empty_tag_store lab_specs) = s' \<and>
     published s' 1 (snd (lab_specs ! 0)) \<and> published s' 2 (snd (lab_specs ! 1))"
proof -
  obtain s' st' where b: "bind_tags lab_nodes () (lab_server\<lparr>us_server := Some ()\<rparr>) empty_tag_store lab_specs = (s', st', Ok ())"
    using lab_bind by blast
  show ?thesis
    unfolding b using bind_tags_publishes [OF b] by (simp add: lab_specs_def lab_server_def)
qed

text \<open>Binding the tags leaves the configuration and the server as they are.\<close>

lemma bind_path_keeps:
  "us_config (fst (bind_path nodes i p t s)) = us_config s" "us_server (fst (bind_path nodes i p t s)) = None \<longleftrightarrow> us_server s = None"
proof -
  have v: "us_config (fst (add_variable nodes i n pid t s)) = us_config s" "us_server (fst (add_variable nodes i n pid t s)) = None \<longleftrightarrow> us_server s = None"
    for n pid s
    by (auto simp: add_variable_def Let_def split: option.split prod.split sum.split bool.split)
  have "us_config (fst (ensure_path nodes p s)) = us_config s" "us_server (fst (ensure_path nodes p s)) = None \<longleftrightarrow> us_server s = None"
    by (simp_all add: ensure_path_def Let_def)
  then show "us_config (fst (bind_path nodes i p t s)) = us_config s" "us_server (fst (bind_path nodes i p t s)) = None \<longleftrightarrow> us_server s = None"
    using v by (cases "ensure_path nodes p s"; auto simp: bind_path_def split: result.split)+
qed

lemma bind_specs_keeps:
  "us_config (fst (bind_specs nodes specs s)) = us_config s \<and> (us_server (fst (bind_specs nodes specs s)) = None \<longleftrightarrow> us_server s = None)"
proof (induction nodes specs s rule: bind_specs.induct)
  case (2 nodes i t specs s)
  then show ?case
    using bind_path_keeps [of nodes i "tag_node_path t" t s]
    by (cases "bind_path nodes i (tag_node_path t) t s") (auto split: result.split)
qed simp

lemma note_existing_keeps [simp]:
  "us_config (note_existing st specs s) = us_config s" "us_server (note_existing st specs s) = us_server s"
proof -
  have n: "us_config (note_tag_quality i v s) = us_config s" "us_server (note_tag_quality i v s) = us_server s" for i v and s :: "'a ua_server"
    by (cases "tv_quality v"; simp add: note_tag_quality_def publish_quality_metrics_def bump_def Let_def split: option.split quality.split)+
  show "us_config (note_existing st specs s) = us_config s" "us_server (note_existing st specs s) = us_server s"
    unfolding note_existing_def by (induction specs arbitrary: s) (auto simp: n split: option.split)
qed

lemma bind_tags_keeps:
  assumes "bind_tags nodes h s st specs = (s', st', r)"
  shows "us_config s' = us_config s" "us_server s' = None \<longleftrightarrow> us_server s = None"
proof -
  define s0 where "s0 = (if us_has_store s \<and> us_subscription s \<noteq> 0 then s\<lparr>us_subscription := 0\<rparr> else s)\<lparr>us_has_store := True\<rparr>"
  have "us_config s0 = us_config s" "us_server s0 = us_server s" by (simp_all add: s0_def)
  then show "us_config s' = us_config s" "us_server s' = None \<longleftrightarrow> us_server s = None"
    using assms bind_specs_keeps [of nodes specs s0]
    by (auto simp: bind_tags_def s0_def [symmetric] Let_def serve_async_def clear_counts_def split: if_splits prod.splits result.splits)
qed

section \<open>Writes of clients\<close>

lemma not_writable_status: "map_error_to_status (dispatcher_error EC_Permission ''tag not writable'' False) = UaBadNotWritable"
proof -
  have "contains_text ''tag not writable'' ''writable''" by code_simp
  then show ?thesis by (simp add: map_error_to_status_def dispatcher_error_def mk_error_def)
qed

lemma write_handler_disp:
  "sr_disp (fst (write_handler i v rt)) = fst (enqueue_write i v (sr_disp rt))" "snd (write_handler i v rt) = snd (enqueue_write i v (sr_disp rt))"
  by (auto simp: write_handler_def Let_def split: prod.split result.split option.split)

text \<open>
  C19: The outcome of a client's write to a bound variable. A value of the wrong type is refused without
  any effect. Otherwise the write is accepted exactly when the variable and the tag are writable and the
  queue of the tag's endpoint has room: then the value is last in that queue, every other queue is as
  before, and the tag is Uncertain, its write pending, with its last value; no other tag changes.
  Refused writes change no queue and no tag and name the reason in their status.
\<close>

theorem client_write_outcome:
  assumes b: "find_by_id (d_index (sr_disp rt)) (ctx_tag_id ctx) = Ok (Some b)" and s: "us_has_handler s" "us_has_store s"
    and w: "data_source_write s ctx (Some v) now rt = (s', rt', status)"
  shows "(case variant_to_scalar (ctx_type ctx) v of
      None \<Rightarrow> rt' = rt \<and> status = (if ctx_writable ctx then UaBadTypeMismatch else UaBadNotWritable)
    | Some x \<Rightarrow>
        if ctx_writable ctx \<and> tag_writable (tb_tag b) \<and>
           length (queue_of (sr_disp rt) (tb_endpoint_id b)) < kMaxWriteQueueDepth
        then status = UaGood \<and>
          queue_of (sr_disp rt') = (queue_of (sr_disp rt))(tb_endpoint_id b :=
            queue_of (sr_disp rt) (tb_endpoint_id b) @ [\<lparr>pw_tag_id = ctx_tag_id ctx, pw_value = x\<rparr>]) \<and>
          get (d_store (sr_disp rt')) = (get (d_store (sr_disp rt)))(ctx_tag_id ctx \<mapsto>
            with_quality (get (d_store (sr_disp rt)) (ctx_tag_id ctx)) Uncertain QR_WritePending now)
        else status = (if ctx_writable ctx \<and> tag_writable (tb_tag b) then UaBadResourceUnavailable else UaBadNotWritable) \<and>
          queue_of (sr_disp rt') = queue_of (sr_disp rt) \<and> d_store (sr_disp rt') = d_store (sr_disp rt))"
proof (cases "variant_to_scalar (ctx_type ctx) v")
  case None
  then show ?thesis using w by (auto simp: data_source_write_def)
next
  case (Some x)
  obtain rt1 r where e: "write_handler (ctx_tag_id ctx) x rt = (rt1, r)" by (rule prod.exhaust)
  have d: "sr_disp rt1 = fst (enqueue_write (ctx_tag_id ctx) x (sr_disp rt))" "r = snd (enqueue_write (ctx_tag_id ctx) x (sr_disp rt))"
    using write_handler_disp [of "ctx_tag_id ctx" x rt] by (simp_all add: e)
  have st: "get (d_store (store_publish i u d)) = (get (d_store d))(i \<mapsto> u)" "queue_of (store_publish i u d) = queue_of d"
    for i u and d :: "('a, 'b) dispatcher"
    by (auto simp: fun_eq_iff store_publish_def publish_def get_def queue_of_def Let_def update_conv')
  have full: "map_error_to_status (dispatcher_error EC_QueueFull m True) = UaBadResourceUnavailable" for m
    by (simp add: map_error_to_status_def dispatcher_error_def mk_error_def)
  show ?thesis
  proof (cases "ctx_writable ctx \<and> tag_writable (tb_tag b) \<and> length (queue_of (sr_disp rt) (tb_endpoint_id b)) < kMaxWriteQueueDepth")
    case True
    then show ?thesis
      using w Some e s d b by (auto simp: data_source_write_def enqueue_write_def Let_def on_disp_def st fun_eq_iff)
  next
    case False
    then show ?thesis
      using w Some e s d b
      by (auto simp: data_source_write_def enqueue_write_def Let_def not_writable_status full fun_eq_iff split: if_splits)
  qed
qed

theorem client_write_outcome_witness:
  "\<exists>s' (rt' :: (fake_transport, unit, unit, ring_historian) server_runtime).
     data_source_write (lab_server\<lparr>us_has_handler := True, us_has_store := True\<rparr>)
       \<lparr>ctx_tag_id = 1, ctx_type = TBool, ctx_writable = True\<rparr> (Some (VBool True)) 9 (lab_runtime\<lparr>sr_disp := lab\<rparr>) = (s', rt', UaGood) \<and>
     queue_of (sr_disp rt') ''e'' = [\<lparr>pw_tag_id = 1, pw_value = SBool True\<rparr>]"
proof -
  let ?rt = "lab_runtime\<lparr>sr_disp := lab\<rparr>" and ?c = "\<lparr>ctx_tag_id = 1, ctx_type = TBool, ctx_writable = True\<rparr>"
  obtain s' rt' status where w: "data_source_write (lab_server\<lparr>us_has_handler := True, us_has_store := True\<rparr>) ?c (Some (VBool True)) 9 ?rt = (s', rt', status)"
    by (rule prod_cases3)
  have b: "find_by_id (d_index (sr_disp ?rt)) (ctx_tag_id ?c) = Ok (Some lab_binding)" by (simp add: lab_binding_def)
  have "queue_of lab ''e'' = []" by (simp add: queue_of_def)
  then show ?thesis
    using client_write_outcome [OF b _ _ w] w by (auto simp: lab_binding_def kMaxWriteQueueDepth_def)
qed

end
