(* ===== verification/Diagnostics.thy ===== *)
theory Diagnostics
  imports Tag_Store Runtime_Index Text_Util
begin

text \<open>
  Observation of a running gateway: the runtime doctor of \<open>Src/core/runtime_doctor.cpp\<close>, which compares
  the tag store with the index, and the in-process metrics of \<open>Src/adapters/memory_metrics.cpp\<close>.
\<close>

section \<open>Runtime doctor\<close>

record runtime_doctor_finding =
  rdf_severity :: severity
  rdf_tag_name :: string
  rdf_message :: string

record runtime_doctor_report =
  rdr_findings :: "runtime_doctor_finding list"
  rdr_warning_count :: nat
  rdr_error_count :: nat

fun quality_name :: "quality \<Rightarrow> string" where
  "quality_name Good = ''Good''"
| "quality_name Uncertain = ''Uncertain''"
| "quality_name Bad = ''Bad''"

fun reason_name :: "quality_reason \<Rightarrow> string" where
  "reason_name QR_None = ''None''"
| "reason_name QR_NoCommunication = ''NoCommunication''"
| "reason_name QR_DeviceFailure = ''DeviceFailure''"
| "reason_name QR_Timeout = ''Timeout''"
| "reason_name QR_ModbusException = ''ModbusException''"
| "reason_name QR_DecodingError = ''DecodingError''"
| "reason_name QR_Stale = ''Stale''"
| "reason_name QR_WritePending = ''WritePending''"
| "reason_name QR_WriteRejected = ''WriteRejected''"
| "reason_name QR_OutOfRange = ''OutOfRange''"

definition rd_add_finding ::
  "severity \<Rightarrow> string \<Rightarrow> string \<Rightarrow> runtime_doctor_report \<Rightarrow> runtime_doctor_report" where
  "rd_add_finding sev n m r =
     (let r = (if sev = SevError then r\<lparr>rdr_error_count := rdr_error_count r + 1\<rparr>
               else r\<lparr>rdr_warning_count := rdr_warning_count r + 1\<rparr>)
      in r\<lparr>rdr_findings := rdr_findings r @ [\<lparr>rdf_severity = sev, rdf_tag_name = n, rdf_message = m\<rparr>]\<rparr>)"

definition rd_check_tag ::
  "'h tag_store \<Rightarrow> tag_binding \<Rightarrow> runtime_doctor_report \<Rightarrow> runtime_doctor_report" where
  "rd_check_tag store b r = (case get store (tb_id b) of
     None \<Rightarrow> rd_add_finding SevError (tag_name (tb_tag b)) ''tag never published (missing from TagStore)'' r
   | Some v \<Rightarrow>
       if tv_quality v = Good then r
       else rd_add_finding (if tv_quality v = Uncertain then SevWarning else SevError) (tag_name (tb_tag b))
              (''quality '' @ quality_name (tv_quality v) @ '' ('' @ reason_name (tv_reason v) @ '')'') r)"

definition runtime_doctor :: "runtime_index \<Rightarrow> 'h tag_store \<Rightarrow> runtime_doctor_report" where
  "runtime_doctor ix store =
     fold (rd_check_tag store) (ri_tags ix) \<lparr>rdr_findings = [], rdr_warning_count = 0, rdr_error_count = 0\<rparr>"

text \<open>How grave the state of a tag is.\<close>

definition tag_severity :: "tag_value option \<Rightarrow> severity option" where
  "tag_severity v = (case v of
     None \<Rightarrow> Some SevError
   | Some x \<Rightarrow> (case tv_quality x of Good \<Rightarrow> None | Uncertain \<Rightarrow> Some SevWarning | Bad \<Rightarrow> Some SevError))"

lemma rd_check_tag_spec:
  "map (\<lambda>f. (rdf_tag_name f, rdf_severity f)) (rdr_findings (rd_check_tag store b r)) =
     map (\<lambda>f. (rdf_tag_name f, rdf_severity f)) (rdr_findings r) @
     (case tag_severity (get store (tb_id b)) of None \<Rightarrow> [] | Some s \<Rightarrow> [(tag_name (tb_tag b), s)])"
  "rdr_error_count (rd_check_tag store b r) =
     rdr_error_count r + (if tag_severity (get store (tb_id b)) = Some SevError then 1 else 0)"
  "rdr_warning_count (rd_check_tag store b r) =
     rdr_warning_count r + (if tag_severity (get store (tb_id b)) = Some SevWarning then 1 else 0)"
  by (auto simp: rd_check_tag_def tag_severity_def rd_add_finding_def Let_def split: option.split quality.split)

lemma rd_check_tags_spec:
  "map (\<lambda>f. (rdf_tag_name f, rdf_severity f)) (rdr_findings (fold (rd_check_tag store) bs r)) =
     map (\<lambda>f. (rdf_tag_name f, rdf_severity f)) (rdr_findings r) @
     concat (map (\<lambda>b. case tag_severity (get store (tb_id b)) of None \<Rightarrow> [] | Some s \<Rightarrow> [(tag_name (tb_tag b), s)]) bs) \<and>
   rdr_error_count (fold (rd_check_tag store) bs r) =
     rdr_error_count r + length (filter (\<lambda>b. tag_severity (get store (tb_id b)) = Some SevError) bs) \<and>
   rdr_warning_count (fold (rd_check_tag store) bs r) =
     rdr_warning_count r + length (filter (\<lambda>b. tag_severity (get store (tb_id b)) = Some SevWarning) bs)"
  by (induction bs arbitrary: r) (auto simp: rd_check_tag_spec)

text \<open>
  The runtime doctor reports, in the order of the index, every tag that was never published or is
  not Good, with an error for missing and Bad tags and a warning for Uncertain ones, and its counters
  are the numbers of errors and warnings.
\<close>

theorem runtime_doctor_exact:
  "map (\<lambda>f. (rdf_tag_name f, rdf_severity f)) (rdr_findings (runtime_doctor ix store)) =
     concat (map (\<lambda>b. case tag_severity (get store (tb_id b)) of None \<Rightarrow> [] | Some s \<Rightarrow> [(tag_name (tb_tag b), s)])
       (ri_tags ix)) \<and>
   rdr_error_count (runtime_doctor ix store) =
     length (filter (\<lambda>b. tag_severity (get store (tb_id b)) = Some SevError) (ri_tags ix)) \<and>
   rdr_warning_count (runtime_doctor ix store) =
     length (filter (\<lambda>b. tag_severity (get store (tb_id b)) = Some SevWarning) (ri_tags ix))"
  using rd_check_tags_spec [of store "ri_tags ix"] by (simp add: runtime_doctor_def)

section \<open>Metrics in memory\<close>

record memory_metrics =
  mm_counters :: "(string, fp) umap"
  mm_gauges :: "(string, fp) umap"

definition mm_new :: memory_metrics where
  "mm_new = \<lparr>mm_counters = [], mm_gauges = []\<rparr>"

definition counter :: "memory_metrics \<Rightarrow> string \<Rightarrow> fp" where
  "counter m n = (case map_of (mm_counters m) n of Some x \<Rightarrow> x | None \<Rightarrow> fp_zero64)"

definition gauge :: "memory_metrics \<Rightarrow> string \<Rightarrow> fp" where
  "gauge m n = (case map_of (mm_gauges m) n of Some x \<Rightarrow> x | None \<Rightarrow> fp_zero64)"

definition counter_add :: "string \<Rightarrow> fp \<Rightarrow> memory_metrics \<Rightarrow> memory_metrics" where
  "counter_add n x m = m\<lparr>mm_counters := AList.update n (fp_add binary64 (counter m n) x) (mm_counters m)\<rparr>"

definition gauge_set :: "string \<Rightarrow> fp \<Rightarrow> memory_metrics \<Rightarrow> memory_metrics" where
  "gauge_set n x m = m\<lparr>mm_gauges := AList.update n x (mm_gauges m)\<rparr>"

definition histogram_observe :: "string \<Rightarrow> fp \<Rightarrow> memory_metrics \<Rightarrow> memory_metrics" where
  "histogram_observe n x m = gauge_set (n @ ''.last'') x (counter_add (n @ ''.count'') fp_one m)"

lemma counter_simps:
  "counter mm_new n = fp_zero64" "gauge mm_new n = fp_zero64"
  "counter (counter_add n x m) k = (if k = n then fp_add binary64 (counter m n) x else counter m k)"
  "gauge (counter_add n x m) k = gauge m k"
  "counter (gauge_set n x m) k = counter m k"
  "gauge (gauge_set n x m) k = (if k = n then x else gauge m k)"
  by (simp_all add: counter_def gauge_def counter_add_def gauge_set_def mm_new_def)

end
