(* ===== verification/Telemetry.thy ===== *)
theory Telemetry
  imports Diagnostics Dispatcher Server_Runtime Cli_Options "HOL-Library.Sublist"
begin

text \<open>
  Telemetry and clocks: the metrics and tracing adapters of OpenTelemetry (\<open>Src/adapters/otel_metrics.cpp\<close>,
  \<open>otel_tracer.cpp\<close>), the recording tracer of the tests, the log on the standard error stream and the
  settable clock. The SDK is not part of the sources: an instrument is the list of the values the adapter
  recorded with it, and what the SDK answers to the set-up is the record \<open>otel_sdk\<close>.
\<close>

section \<open>Sums of integers in floating point\<close>

lemma fp_val_neg [simp]: "fp_val (fp_neg x) = - fp_val x"
  by (cases x) auto

lemma fp_isfinite_neg [simp]: "fp_isfinite (fp_neg x) = fp_isfinite x"
  by (cases x) simp_all

lemma fp_add_exact:
  assumes "fp_val (FNum s m e) + fp_val (FNum t n d) = real_of_int c" "\<bar>c\<bar> < 2 ^ prec f" "int_format f" "\<not> (s \<and> t) \<or> c \<noteq> 0"
  shows "fp_add f (FNum s m e) (FNum t n d) = fp_of_int f c"
proof -
  let ?k = "min e d"
  let ?c = "fp_scaled s m e ?k + fp_scaled t n d ?k"
  have v: "real_of_int ?c * 2 powi ?k = real_of_int c"
    using fp_scaled_val [of ?k e s m] fp_scaled_val [of ?k d t n] assms(1) by (simp add: distrib_right)
  have p: "(0 :: real) < 2 powi ?k" by simp
  show ?thesis
  proof (cases "c = 0")
    case True
    then have "?c = 0" using v p by simp
    then show ?thesis using True assms(4) by (cases s) (simp_all add: Let_def fp_of_int_def fp_round_def)
  next
    case False
    have sgn: "?c < 0 \<longleftrightarrow> c < 0"
      using v p by (smt (verit, best) mult_less_0_iff of_int_less_0_iff)
    have nz: "?c \<noteq> 0"
    proof
      assume "?c = 0"
      then have "real_of_int c = 0" using v by simp
      then show False using False by simp
    qed
    obtain m' e' where x: "canonical f m' e'" "real m' * 2 powi e' = real (nat \<bar>c\<bar>)" "fp_of_int f c = FNum (c < 0) m' e'"
      using fp_of_int_exact [OF assms(2,3)] by metis
    have "real (nat \<bar>?c\<bar>) * 2 powi ?k = \<bar>real_of_int ?c * 2 powi ?k\<bar>" by (simp add: abs_mult)
    also have "\<dots> = real (nat \<bar>c\<bar>)" unfolding v by simp
    finally have "real (nat \<bar>?c\<bar>) * 2 powi ?k = real m' * 2 powi e'" using x(2) by simp
    then have "fp_round_dyadic f (c < 0) (nat \<bar>?c\<bar>) ?k = FNum (c < 0) m' e'"
      using assms(3) x(1) by (intro fp_round_dyadic_exact) (simp_all add: int_format_def)
    then show ?thesis using sgn nz x(3) by (simp add: Let_def)
  qed
qed

lemma fp_add_of_int [fp_exact]:
  assumes "\<bar>a\<bar> < 2 ^ prec f" "\<bar>b\<bar> < 2 ^ prec f" "\<bar>a + b\<bar> < 2 ^ prec f" "int_format f"
  shows "fp_add f (fp_of_int f a) (fp_of_int f b) = fp_of_int f (a + b)"
proof -
  obtain m e where x: "fp_of_int f a = FNum (a < 0) m e" using fp_of_int_exact [OF assms(1,4)] by metis
  obtain n d where y: "fp_of_int f b = FNum (b < 0) n d" using fp_of_int_exact [OF assms(2,4)] by metis
  have "fp_val (FNum (a < 0) m e) + fp_val (FNum (b < 0) n d) = real_of_int (a + b)"
    using assms fp_val_of_int [of a f] fp_val_of_int [of b f] by (simp flip: x y)
  then show ?thesis unfolding x y using assms by (intro fp_add_exact) auto
qed

lemma fp_sub_of_int [fp_exact]:
  assumes "\<bar>a\<bar> < 2 ^ prec f" "\<bar>b\<bar> < 2 ^ prec f" "\<bar>a - b\<bar> < 2 ^ prec f" "int_format f"
  shows "fp_sub f (fp_of_int f a) (fp_of_int f b) = fp_of_int f (a - b)"
proof -
  obtain m e where x: "fp_of_int f a = FNum (a < 0) m e" using fp_of_int_exact [OF assms(1,4)] by metis
  obtain n d where y: "fp_of_int f b = FNum (b < 0) n d" using fp_of_int_exact [OF assms(2,4)] by metis
  have "fp_val (FNum (a < 0) m e) = real_of_int a" "fp_val (fp_neg (FNum (b < 0) n d)) = - real_of_int b"
    using assms fp_val_of_int [of a f] fp_val_of_int [of b f] unfolding fp_val_neg by (simp_all flip: x y)
  then have "fp_val (FNum (a < 0) m e) + fp_val (FNum (\<not> b < 0) n d) = real_of_int (a - b)"
    by (simp only: fp_neg.simps)
  then show ?thesis unfolding fp_sub_def x y fp_neg.simps using assms by (intro fp_add_exact) auto
qed

lemma fp_eq_val: "fp_eq (FNum s m e) (FNum t n d) \<longleftrightarrow> fp_val (FNum s m e) = fp_val (FNum t n d)"
proof -
  let ?k = "min e d"
  have "fp_val (FNum s m e) = fp_val (FNum t n d) \<longleftrightarrow>
      real_of_int (fp_scaled s m e ?k) * 2 powi ?k = real_of_int (fp_scaled t n d ?k) * 2 powi ?k"
    by (simp only: fp_scaled_val min.cobounded1 min.cobounded2)
  then show ?thesis by (simp add: Let_def)
qed

lemma fp_eq_zero_of_int [fp_exact]:
  assumes "\<bar>i\<bar> < 2 ^ prec f" "int_format f"
  shows "fp_eq (fp_of_int f i) fp_zero64 \<longleftrightarrow> i = 0"
proof -
  obtain m e where x: "fp_of_int f i = FNum (i < 0) m e" using fp_of_int_exact [OF assms] by metis
  have "fp_eq (FNum (i < 0) m e) fp_zero64 \<longleftrightarrow> fp_val (FNum (i < 0) m e) = fp_val fp_zero64" by (rule fp_eq_val)
  moreover have "fp_val (FNum (i < 0) m e) = real_of_int i" using fp_val_of_int [OF assms] by (simp flip: x)
  moreover have "fp_val fp_zero64 = 0" by simp
  ultimately show ?thesis unfolding x by (simp only: of_int_eq_0_iff)
qed

lemma fp_zero64_of_int: "fp_of_int binary64 0 = fp_zero64"
  by (simp add: fp_of_int_def fp_round_def fp_zero_def binary64_def)

section \<open>The metrics port\<close>

text \<open>
  What a caller of \<open>IMetrics\<close> may rely on: a counter grows by what is added, and a gauge shows the last
  value set, as long as the values are integers of fewer than 53 bits. Histograms may use counters and
  gauges of their own, so the laws leave out the names \<open>cname\<close> and \<open>gname\<close> do not hold of.
\<close>

locale metrics_port =
  fixes inv :: "'m \<Rightarrow> bool" and cval gval :: "'m \<Rightarrow> string \<Rightarrow> fp"
    and cadd gset hobs :: "string \<Rightarrow> fp \<Rightarrow> 'm \<Rightarrow> 'm" and cname gname :: "string \<Rightarrow> bool"
  assumes inv_add: "inv m \<Longrightarrow> inv (cadd n x m)"
    and inv_set: "inv m \<Longrightarrow> \<bar>i\<bar> < 2 ^ 52 \<Longrightarrow> inv (gset n (fp_of_int binary64 i) m)"
    and inv_observe: "inv m \<Longrightarrow> inv (hobs n x m)"
    and c_add: "inv m \<Longrightarrow> cval (cadd n x m) k = (if k = n then fp_add binary64 (cval m n) x else cval m k)"
    and g_add: "gval (cadd n x m) k = gval m k"
    and c_set: "cval (gset n x m) k = cval m k"
    and g_set: "inv m \<Longrightarrow> \<bar>i\<bar> < 2 ^ 52 \<Longrightarrow>
      gval (gset n (fp_of_int binary64 i) m) k = (if k = n then fp_of_int binary64 i else gval m k)"
    and c_observe: "cname k \<Longrightarrow> cval (hobs n x m) k = cval m k"
    and g_observe: "gname k \<Longrightarrow> gval (hobs n x m) k = gval m k"

text \<open>The calls the dispatcher makes, handed to an adapter.\<close>

fun record_metric :: "(string \<Rightarrow> fp \<Rightarrow> 'm \<Rightarrow> 'm) \<Rightarrow> (string \<Rightarrow> fp \<Rightarrow> 'm \<Rightarrow> 'm) \<Rightarrow> (string \<Rightarrow> fp \<Rightarrow> 'm \<Rightarrow> 'm) \<Rightarrow> metric_event \<Rightarrow> 'm \<Rightarrow> 'm" where
  "record_metric cadd gset hobs (CounterAdd n) = cadd n fp_one"
| "record_metric cadd gset hobs (GaugeSet n i) = gset n (fp_of_int binary64 i)"
| "record_metric cadd gset hobs (HistogramObserve n i) = hobs n (fp_of_int binary64 i)"

fun small_metric :: "metric_event \<Rightarrow> bool" where
  "small_metric (GaugeSet n i) \<longleftrightarrow> \<bar>i\<bar> < 2 ^ 52"
| "small_metric _ \<longleftrightarrow> True"

fun gauge_after :: "string \<Rightarrow> metric_event \<Rightarrow> int \<Rightarrow> int" where
  "gauge_after k (GaugeSet n i) g = (if n = k then i else g)"
| "gauge_after k _ g = g"

definition observed :: "string \<Rightarrow> metric_event list \<Rightarrow> int list" where
  "observed k evs = concat (map (\<lambda>ev. case ev of HistogramObserve n i \<Rightarrow> if n = k then [i] else [] | _ \<Rightarrow> []) evs)"

lemma prec_binary64: "prec binary64 = 53"
  by (simp add: binary64_def)

lemma fp_one_of_int: "fp_one = fp_of_int binary64 1"
proof -
  have "fp_round binary64 False 1 1 = FNum False (2 ^ 52) (- 52)"
    by (rule fp_round_exact) (simp_all add: canonical_def binary64_def powi2_neg52)
  then show ?thesis by (simp add: fp_one_def fp_of_int_def)
qed

context metrics_port
begin

lemma counter_counts:
  assumes "inv m" "cname k" "cval m k = fp_of_int binary64 (int j)" "list_all small_metric evs" "j + length evs < 2 ^ 53"
  shows "cval (fold (record_metric cadd gset hobs) evs m) k = fp_of_int binary64 (int (j + count_list evs (CounterAdd k)))"
  using assms
proof (induction evs arbitrary: m j)
  case (Cons ev evs)
  show ?case
  proof (cases ev)
    case (CounterAdd n)
    have "fp_add binary64 (fp_of_int binary64 (int j)) fp_one = fp_of_int binary64 (int (j + 1))"
      using Cons.prems(5) unfolding fp_one_of_int by (subst fp_add_of_int) (simp_all add: int_format_binary prec_binary64 add.commute)
    then show ?thesis using Cons.prems CounterAdd Cons.IH [of "cadd n fp_one m" "if n = k then j + 1 else j"]
      by (cases "n = k") (simp_all add: inv_add c_add algebra_simps)
  next
    case (GaugeSet n i)
    then show ?thesis using Cons.prems Cons.IH [of "gset n (fp_of_int binary64 i) m" j] by (simp add: inv_set c_set)
  next
    case (HistogramObserve n i)
    then show ?thesis using Cons.prems Cons.IH [of "hobs n (fp_of_int binary64 i) m" j] by (simp add: inv_observe c_observe)
  qed
qed simp

lemma gauge_shows_last:
  assumes "inv m" "gname k" "gval m k = fp_of_int binary64 g" "list_all small_metric evs"
  shows "gval (fold (record_metric cadd gset hobs) evs m) k = fp_of_int binary64 (fold (gauge_after k) evs g)"
  using assms
proof (induction evs arbitrary: m g)
  case (Cons ev evs)
  show ?case
  proof (cases ev)
    case (CounterAdd n)
    then show ?thesis using Cons.prems Cons.IH [of "cadd n fp_one m" g] by (simp add: inv_add g_add)
  next
    case (GaugeSet n i)
    then show ?thesis using Cons.prems Cons.IH [of "gset n (fp_of_int binary64 i) m" "if n = k then i else g"]
      by (simp add: inv_set g_set)
  next
    case (HistogramObserve n i)
    then show ?thesis using Cons.prems Cons.IH [of "hobs n (fp_of_int binary64 i) m" g] by (simp add: inv_observe g_observe)
  qed
qed simp

end

definition no_count :: "string \<Rightarrow> bool" where "no_count k \<longleftrightarrow> \<not> suffix ''.count'' k"

definition no_last :: "string \<Rightarrow> bool" where "no_last k \<longleftrightarrow> \<not> suffix ''.last'' k"

interpretation mem: metrics_port "\<lambda>_. True" counter gauge counter_add gauge_set histogram_observe no_count no_last
  by unfold_locales (auto simp: counter_simps histogram_observe_def no_count_def no_last_def suffix_def)

section \<open>Metrics through OpenTelemetry\<close>

datatype export_mode = ExportNone | ExportOStream | ExportOtlpHttp

fun to_metrics_mode :: "metrics_export_option \<Rightarrow> export_mode" where
  "to_metrics_mode ExNone = ExportNone"
| "to_metrics_mode ExOStream = ExportOStream"
| "to_metrics_mode ExOtlpHttp = ExportOtlpHttp"

record otel_options =
  oo_mode :: export_mode
  oo_endpoint :: string
  oo_interval_ms :: int
  oo_service_name :: string
  oo_service_version :: string

text \<open>An exporter over OTLP has the URL that was set, or the default of the library.\<close>

datatype exporter = OStreamExporter | OtlpExporter "string option"

record metric_reader =
  mr_exporter :: exporter
  mr_interval_ms :: int
  mr_timeout_ms :: int

text \<open>
  The SDK: whether it was built with OTLP, and the result of setting up a provider and asking it for a
  meter (or tracer) of a service: the text of an exception, or whether there is one.
\<close>

record otel_sdk =
  sdk_otlp :: bool
  sdk_meter :: "metric_reader option \<Rightarrow> string \<Rightarrow> string \<Rightarrow> string + bool"
  sdk_tracer :: "exporter option \<Rightarrow> string \<Rightarrow> string \<Rightarrow> string + bool"

record otel_metrics =
  om_ok :: bool
  om_init_error :: string
  om_counters :: "(string, fp list) umap"
  om_histograms :: "(string, fp list) umap"
  om_gauges :: "(string, fp list) umap"
  om_gauge_last :: "(string, fp) umap"

definition app_otel_options :: "string \<Rightarrow> metrics_export_option \<Rightarrow> string \<Rightarrow> otel_options" where
  "app_otel_options version mode url = \<lparr>oo_mode = to_metrics_mode mode, oo_endpoint = url, oo_interval_ms = 1000,
     oo_service_name = ''opc-server'', oo_service_version = version\<rparr>"

definition metric_exporter :: "otel_sdk \<Rightarrow> otel_options \<Rightarrow> string + exporter option" where
  "metric_exporter sdk o' = (case oo_mode o' of
     ExportNone \<Rightarrow> Inr None
   | ExportOStream \<Rightarrow> Inr (Some OStreamExporter)
   | ExportOtlpHttp \<Rightarrow>
       if sdk_otlp sdk then Inr (Some (OtlpExporter (if oo_endpoint o' = [] then None else Some (oo_endpoint o'))))
       else Inl ''OTLP metrics exporter was not enabled at build time (OPC_WITH_OTLP)'')"

definition reader_of :: "otel_options \<Rightarrow> exporter \<Rightarrow> metric_reader" where
  "reader_of o' e = \<lparr>mr_exporter = e, mr_interval_ms = max 100 (oo_interval_ms o'), mr_timeout_ms = 500\<rparr>"

definition otel_metrics_with :: "bool \<Rightarrow> string \<Rightarrow> otel_metrics" where
  "otel_metrics_with ok e = \<lparr>om_ok = ok, om_init_error = e, om_counters = [], om_histograms = [], om_gauges = [], om_gauge_last = []\<rparr>"

definition new_otel_metrics :: "otel_sdk \<Rightarrow> otel_options \<Rightarrow> otel_metrics" where
  "new_otel_metrics sdk o' = (case metric_exporter sdk o' of
     Inl e \<Rightarrow> otel_metrics_with False e
   | Inr ex \<Rightarrow> (case sdk_meter sdk (map_option (reader_of o') ex) (oo_service_name o') (oo_service_version o') of
       Inl what \<Rightarrow> otel_metrics_with False what
     | Inr ok \<Rightarrow> otel_metrics_with ok (if ok then [] else ''failed to create OTel meter'')))"

text \<open>The values recorded with the instrument of a name, which is created when it is missing.\<close>

definition recorded :: "(string, fp list) umap \<Rightarrow> string \<Rightarrow> fp list" where
  "recorded m n = (case map_of m n of Some xs \<Rightarrow> xs | None \<Rightarrow> [])"

definition otel_counter_add :: "string \<Rightarrow> fp \<Rightarrow> otel_metrics \<Rightarrow> otel_metrics" where
  "otel_counter_add n x m =
     (if \<not> om_ok m then m else m\<lparr>om_counters := AList.update n (recorded (om_counters m) n @ [x]) (om_counters m)\<rparr>)"

definition last_gauge :: "otel_metrics \<Rightarrow> string \<Rightarrow> fp" where
  "last_gauge m n = (case map_of (om_gauge_last m) n of Some x \<Rightarrow> x | None \<Rightarrow> fp_zero64)"

definition otel_gauge_set :: "string \<Rightarrow> fp \<Rightarrow> otel_metrics \<Rightarrow> otel_metrics" where
  "otel_gauge_set n x m =
     (if \<not> om_ok m then m
      else let m = (if map_of (om_gauges m) n = None
                    then m\<lparr>om_gauges := AList.update n [] (om_gauges m), om_gauge_last := AList.update n fp_zero64 (om_gauge_last m)\<rparr>
                    else m);
               delta = fp_sub binary64 x (last_gauge m n);
               m = (if fp_eq delta fp_zero64 then m
                    else m\<lparr>om_gauges := AList.update n (recorded (om_gauges m) n @ [delta]) (om_gauges m)\<rparr>)
           in m\<lparr>om_gauge_last := AList.update n x (om_gauge_last m)\<rparr>)"

definition otel_histogram_observe :: "string \<Rightarrow> fp \<Rightarrow> otel_metrics \<Rightarrow> otel_metrics" where
  "otel_histogram_observe n x m =
     (if \<not> om_ok m then m else m\<lparr>om_histograms := AList.update n (recorded (om_histograms m) n @ [x]) (om_histograms m)\<rparr>)"

text \<open>What a collector shows for a counter: the sum of the values in their order.\<close>

definition recorded_sum :: "fp list \<Rightarrow> fp" where
  "recorded_sum xs = fold (\<lambda>x s. fp_add binary64 s x) xs fp_zero64"

definition otel_counter :: "otel_metrics \<Rightarrow> string \<Rightarrow> fp" where
  "otel_counter m n = recorded_sum (recorded (om_counters m) n)"

definition otel_gauge :: "otel_metrics \<Rightarrow> string \<Rightarrow> fp" where
  "otel_gauge m n = recorded_sum (recorded (om_gauges m) n)"

lemma recorded_sum_snoc [simp]: "recorded_sum [] = fp_zero64" "recorded_sum [x] = fp_add binary64 fp_zero64 x" "recorded_sum (xs @ [x]) = fp_add binary64 (recorded_sum xs) x"
  by (simp_all add: recorded_sum_def)

lemma recorded_update [simp]: "recorded (AList.update n xs m) k = (if k = n then xs else recorded m k)"
  by (simp add: recorded_def)

text \<open>Every gauge sums up to the value it was set to last, an integer.\<close>

definition gauges_in_step :: "otel_metrics \<Rightarrow> bool" where
  "gauges_in_step m \<longleftrightarrow> om_ok m \<and> (\<forall>n. (map_of (om_gauges m) n = None \<longrightarrow> last_gauge m n = fp_zero64) \<and>
     (\<exists>i. \<bar>i\<bar> < 2 ^ 52 \<and> last_gauge m n = fp_of_int binary64 i \<and> otel_gauge m n = fp_of_int binary64 i))"

lemma gauges_in_stepD:
  assumes "gauges_in_step m"
  obtains i where "\<bar>i\<bar> < 2 ^ 52" "last_gauge m n = fp_of_int binary64 i" "otel_gauge m n = fp_of_int binary64 i"
  using assms unfolding gauges_in_step_def by metis

lemma otel_gauge_set_fields [simp]:
  "om_ok (otel_gauge_set n x m) = om_ok m" "om_counters (otel_gauge_set n x m) = om_counters m"
  "om_histograms (otel_gauge_set n x m) = om_histograms m"
  by (simp_all add: otel_gauge_set_def Let_def)

lemma otel_gauge_set_last: "om_ok m \<Longrightarrow> last_gauge (otel_gauge_set n x m) k = (if k = n then x else last_gauge m k)"
  by (simp add: otel_gauge_set_def Let_def last_gauge_def)

lemma otel_gauge_set_known:
  "om_ok m \<Longrightarrow> map_of (om_gauges (otel_gauge_set n x m)) k = None \<longleftrightarrow> k \<noteq> n \<and> map_of (om_gauges m) k = None"
  by (auto simp: otel_gauge_set_def Let_def)

lemma otel_gauge_set_other: "k \<noteq> n \<Longrightarrow> otel_gauge (otel_gauge_set n x m) k = otel_gauge m k"
  by (simp add: otel_gauge_set_def Let_def otel_gauge_def)

lemma otel_gauge_set_sum:
  assumes "gauges_in_step m"
  shows "otel_gauge (otel_gauge_set n x m) n =
    (let d = fp_sub binary64 x (last_gauge m n) in if fp_eq d fp_zero64 then otel_gauge m n else fp_add binary64 (otel_gauge m n) d)"
proof (cases "map_of (om_gauges m) n")
  case None
  then have "last_gauge m n = fp_zero64" "om_ok m" using assms by (simp_all add: gauges_in_step_def)
  then show ?thesis using None by (simp add: otel_gauge_set_def Let_def otel_gauge_def last_gauge_def recorded_def)
next
  case (Some xs)
  then show ?thesis using assms by (simp add: gauges_in_step_def otel_gauge_set_def Let_def otel_gauge_def last_gauge_def)
qed

lemma otel_gauge_set_exact:
  assumes "gauges_in_step m" "\<bar>i\<bar> < 2 ^ 52"
  shows "otel_gauge (otel_gauge_set n (fp_of_int binary64 i) m) n = fp_of_int binary64 i"
proof -
  obtain j where j: "\<bar>j\<bar> < 2 ^ 52" "last_gauge m n = fp_of_int binary64 j" "otel_gauge m n = fp_of_int binary64 j"
    by (rule gauges_in_stepD [OF assms(1)])
  have b: "\<bar>i\<bar> < 2 ^ prec binary64" "\<bar>j\<bar> < 2 ^ prec binary64" "\<bar>i - j\<bar> < 2 ^ prec binary64"
    using assms(2) j(1) by (simp_all add: prec_binary64)
  have d: "fp_sub binary64 (fp_of_int binary64 i) (fp_of_int binary64 j) = fp_of_int binary64 (i - j)"
    by (rule fp_sub_of_int) (use b in simp_all)
  have "fp_add binary64 (fp_of_int binary64 j) (fp_of_int binary64 (i - j)) = fp_of_int binary64 (j + (i - j))"
    by (rule fp_add_of_int) (use b in simp_all)
  then show ?thesis unfolding otel_gauge_set_sum [OF assms(1)] Let_def j(2,3) d
    using b(3) by (simp add: fp_eq_zero_of_int)
qed

lemma gauges_in_step_set:
  assumes "gauges_in_step m" "\<bar>i\<bar> < 2 ^ 52"
  shows "gauges_in_step (otel_gauge_set n (fp_of_int binary64 i) m)"
  unfolding gauges_in_step_def
proof (intro conjI allI impI)
  have ok: "om_ok m" using assms(1) by (simp add: gauges_in_step_def)
  then show "om_ok (otel_gauge_set n (fp_of_int binary64 i) m)" by simp
  fix k
  show "last_gauge (otel_gauge_set n (fp_of_int binary64 i) m) k = fp_zero64"
    if "map_of (om_gauges (otel_gauge_set n (fp_of_int binary64 i) m)) k = None"
    using that assms(1) ok by (simp add: otel_gauge_set_known otel_gauge_set_last gauges_in_step_def)
  show "\<exists>j. \<bar>j\<bar> < 2 ^ 52 \<and> last_gauge (otel_gauge_set n (fp_of_int binary64 i) m) k = fp_of_int binary64 j \<and>
      otel_gauge (otel_gauge_set n (fp_of_int binary64 i) m) k = fp_of_int binary64 j"
  proof (cases "k = n")
    case True
    then show ?thesis using assms ok otel_gauge_set_exact [OF assms, of n] by (auto simp: otel_gauge_set_last)
  next
    case False
    then show ?thesis using gauges_in_stepD [OF assms(1), of k] ok by (metis otel_gauge_set_last otel_gauge_set_other)
  qed
qed

lemma otel_add_fields [simp]:
  "om_ok (otel_counter_add n x m) = om_ok m" "om_gauges (otel_counter_add n x m) = om_gauges m"
  "om_gauge_last (otel_counter_add n x m) = om_gauge_last m" "om_histograms (otel_counter_add n x m) = om_histograms m"
  "om_ok (otel_histogram_observe n x m) = om_ok m" "om_gauges (otel_histogram_observe n x m) = om_gauges m"
  "om_gauge_last (otel_histogram_observe n x m) = om_gauge_last m" "om_counters (otel_histogram_observe n x m) = om_counters m"
  by (simp_all add: otel_counter_add_def otel_histogram_observe_def)

interpretation otel: metrics_port gauges_in_step otel_counter otel_gauge otel_counter_add otel_gauge_set otel_histogram_observe
  "\<lambda>_. True" "\<lambda>_. True"
proof unfold_locales
  fix m n x i k
  show "gauges_in_step (otel_counter_add n x m)" "gauges_in_step (otel_histogram_observe n x m)" if "gauges_in_step m"
    using that by (simp_all add: gauges_in_step_def last_gauge_def otel_gauge_def)
  show "otel_counter (otel_counter_add n x m) k = (if k = n then fp_add binary64 (otel_counter m n) x else otel_counter m k)"
    if "gauges_in_step m" using that by (simp add: otel_counter_def otel_counter_add_def gauges_in_step_def)
  show "otel_gauge (otel_gauge_set n (fp_of_int binary64 i) m) k = (if k = n then fp_of_int binary64 i else otel_gauge m k)"
    if "gauges_in_step m" "\<bar>i\<bar> < 2 ^ 52" using that by (simp add: otel_gauge_set_exact otel_gauge_set_other)
qed (simp_all add: gauges_in_step_set otel_counter_def otel_gauge_def)

lemma new_otel_in_step: "om_ok (new_otel_metrics sdk o') \<Longrightarrow> gauges_in_step (new_otel_metrics sdk o')"
  by (auto simp: new_otel_metrics_def otel_metrics_with_def gauges_in_step_def last_gauge_def otel_gauge_def recorded_def
      intro!: exI [of _ 0] fp_zero64_of_int [symmetric] split: sum.splits)

lemma new_otel_empty: "otel_counter (new_otel_metrics sdk o') n = fp_zero64" "otel_gauge (new_otel_metrics sdk o') n = fp_zero64"
  "recorded (om_histograms (new_otel_metrics sdk o')) n = []"
  by (auto simp: new_otel_metrics_def otel_metrics_with_def otel_counter_def otel_gauge_def recorded_def split: sum.split)

abbreviation otel_record :: "metric_event list \<Rightarrow> otel_metrics \<Rightarrow> otel_metrics" where
  "otel_record \<equiv> fold (record_metric otel_counter_add otel_gauge_set otel_histogram_observe)"

abbreviation memory_record :: "metric_event list \<Rightarrow> memory_metrics \<Rightarrow> memory_metrics" where
  "memory_record \<equiv> fold (record_metric counter_add gauge_set histogram_observe)"

lemma otel_histograms:
  "om_ok m \<Longrightarrow> recorded (om_histograms (otel_record evs m)) n = recorded (om_histograms m) n @ map (fp_of_int binary64) (observed n evs)"
proof (induction evs arbitrary: m)
  case (Cons ev evs)
  then show ?case by (cases ev) (simp_all add: observed_def otel_histogram_observe_def)
qed (simp add: observed_def)

text \<open>
  C27: The exported metrics are those of the reference in memory. After any sequence of fewer than
  \<open>2 ^ 53\<close> calls of the dispatcher with gauges of fewer than 53 bits, the values the OpenTelemetry adapter
  recorded sum up, for a counter, to the number of its additions, and, for a gauge, which the
  adapter records as differences, to the value that was set last; both are what the metrics in memory
  show. A histogram has received exactly the observed values, in their order.
\<close>

theorem otel_refines_memory:
  assumes "om_ok (new_otel_metrics sdk o')" "list_all small_metric evs" "length evs < 2 ^ 53"
  shows "recorded (om_histograms (otel_record evs (new_otel_metrics sdk o'))) n = map (fp_of_int binary64) (observed n evs) \<and>
    otel_counter (otel_record evs (new_otel_metrics sdk o')) n = fp_of_int binary64 (int (count_list evs (CounterAdd n))) \<and>
    otel_gauge (otel_record evs (new_otel_metrics sdk o')) n = fp_of_int binary64 (fold (gauge_after n) evs 0) \<and>
    (no_count n \<longrightarrow> counter (memory_record evs mm_new) n = otel_counter (otel_record evs (new_otel_metrics sdk o')) n) \<and>
    (no_last n \<longrightarrow> gauge (memory_record evs mm_new) n = otel_gauge (otel_record evs (new_otel_metrics sdk o')) n)"
  using assms otel.counter_counts [where k = n and j = 0 and evs = evs, OF new_otel_in_step [OF assms(1)]]
    otel.gauge_shows_last [where k = n and g = 0 and evs = evs, OF new_otel_in_step [OF assms(1)]]
    mem.counter_counts [where m = mm_new and k = n and j = 0 and evs = evs] mem.gauge_shows_last [where m = mm_new and k = n and g = 0 and evs = evs]
  by (simp add: otel_histograms new_otel_empty fp_zero64_of_int counter_simps)

definition lab_sdk :: otel_sdk where
  "lab_sdk = \<lparr>sdk_otlp = False, sdk_meter = (\<lambda>r s v. Inr True), sdk_tracer = (\<lambda>e s v. Inr True)\<rparr>"

theorem otel_refines_memory_witness:
  "otel_gauge (otel_record [GaugeSet ''depth'' 3, CounterAdd ''errors'', GaugeSet ''depth'' 1]
     (new_otel_metrics lab_sdk (app_otel_options ''1'' ExNone []))) ''depth'' = fp_of_int binary64 1"
proof -
  have "om_ok (new_otel_metrics lab_sdk (app_otel_options ''1'' ExNone []))"
    by (simp add: new_otel_metrics_def metric_exporter_def app_otel_options_def lab_sdk_def otel_metrics_with_def)
  from otel_refines_memory [OF this, of "[GaugeSet ''depth'' 3, CounterAdd ''errors'', GaugeSet ''depth'' 1]" "''depth''"]
  show ?thesis by simp
qed

section \<open>Traces through OpenTelemetry\<close>

fun find_sub :: "string \<Rightarrow> string \<Rightarrow> nat option" where
  "find_sub p [] = (if p = [] then Some 0 else None)"
| "find_sub p (c # cs) = (if prefix p (c # cs) then Some 0 else map_option Suc (find_sub p cs))"

definition otlp_traces_url :: "string \<Rightarrow> string" where
  "otlp_traces_url u =
     (if u = [] then []
      else case find_sub ''/v1/metrics'' u of
        Some i \<Rightarrow> take i u @ ''/v1/traces''
      | None \<Rightarrow> if suffix ''/v1/traces'' u then u
                else if last u = CHR ''/'' then u @ ''v1/traces'' else u @ ''/v1/traces'')"

lemma find_sub_None: "find_sub p s = None \<longleftrightarrow> \<not> sublist p s"
  by (induction p s rule: find_sub.induct) (auto simp: sublist_Cons_right)

lemma find_sub_before: "find_sub p s = Some i \<Longrightarrow> p \<noteq> [] \<Longrightarrow> \<not> sublist p (take i s)"
proof (induction p s arbitrary: i rule: find_sub.induct)
  case (2 p c cs)
  show ?case
  proof (cases "prefix p (c # cs)")
    case False
    then obtain j where j: "find_sub p cs = Some j" "i = Suc j" using 2(2) by auto
    have "\<not> prefix p (take i (c # cs))" using False by (meson prefix_order.trans take_is_prefix)
    then show ?thesis using 2(1) [OF False j(1) 2(3)] j(2) by (simp add: sublist_Cons_right)
  qed (use 2 in simp)
qed (auto split: if_splits)

lemma no_metrics_append:
  assumes "\<not> sublist ''/v1/metrics'' p" "z = ''/v1/traces'' \<or> z = ''v1/traces''"
  shows "\<not> sublist ''/v1/metrics'' (p @ z)"
proof
  assume "sublist ''/v1/metrics'' (p @ z)"
  moreover have "\<not> sublist ''/v1/metrics'' z" using assms(2) by (auto dest!: sublist_length_le)
  ultimately obtain a b where ab: "''/v1/metrics'' = a @ b" "suffix a p" "prefix b z"
    using assms(1) by (auto simp: sublist_append)
  then have "b = []" using assms(2) by (auto simp: Cons_eq_append_conv)
  then show False using ab assms(1) by (simp add: suffix_imp_sublist)
qed

text \<open>
  The URL for traces is a fixed point: it ends in \<open>/v1/traces\<close>, contains no \<open>/v1/metrics\<close>, and rewriting it
  again changes nothing, so a collector base, a metrics URL and a traces URL are all accepted.
\<close>

theorem otlp_traces_url_stable:
  "otlp_traces_url (otlp_traces_url u) = otlp_traces_url u \<and> \<not> sublist ''/v1/metrics'' (otlp_traces_url u) \<and>
   (u = [] \<and> otlp_traces_url u = [] \<or> suffix ''/v1/traces'' (otlp_traces_url u))"
proof (cases "u = []")
  case False
  have "suffix ''/v1/traces'' (otlp_traces_url u) \<and> \<not> sublist ''/v1/metrics'' (otlp_traces_url u)"
  proof (cases "find_sub ''/v1/metrics'' u")
    case None
    then have n: "\<not> sublist ''/v1/metrics'' u" by (simp add: find_sub_None)
    have "suffix ''/v1/traces'' (u @ ''v1/traces'')" if "last u = CHR ''/''"
      using that False append_butlast_last_id [of u] by (auto simp: suffix_def) (metis append.assoc append_Cons append_Nil)
    then show ?thesis using None False n no_metrics_append [OF n] by (auto simp: otlp_traces_url_def suffix_def)
  next
    case (Some i)
    then show ?thesis using False no_metrics_append [OF find_sub_before [OF Some]]
      by (auto simp: otlp_traces_url_def suffix_def)
  qed
  moreover have "otlp_traces_url v = v" if "suffix ''/v1/traces'' v" "\<not> sublist ''/v1/metrics'' v" for v
    using that find_sub_None [of "''/v1/metrics''" v] by (simp add: otlp_traces_url_def)
  ultimately show ?thesis by blast
qed (simp add: otlp_traces_url_def)

definition span_exporter :: "otel_sdk \<Rightarrow> otel_options \<Rightarrow> string + exporter option" where
  "span_exporter sdk o' = (case oo_mode o' of
     ExportNone \<Rightarrow> Inr None
   | ExportOStream \<Rightarrow> Inr (Some OStreamExporter)
   | ExportOtlpHttp \<Rightarrow>
       if sdk_otlp sdk
       then let url = otlp_traces_url (oo_endpoint o') in Inr (Some (OtlpExporter (if url = [] then None else Some url)))
       else Inl ''OTLP traces exporter was not enabled at build time (OPC_WITH_OTLP)'')"

text \<open>A span of the SDK is the list of the calls made with it.\<close>

datatype span_call = SetAttribute string string | SetIntAttribute string int | SetErrorStatus string | EndSpan

record otel_tracer =
  ot_ok :: bool
  ot_init_error :: string
  ot_spans :: "(string \<times> span_call list) list"

definition new_otel_tracer :: "otel_sdk \<Rightarrow> otel_options \<Rightarrow> otel_tracer" where
  "new_otel_tracer sdk o' = (case span_exporter sdk o' of
     Inl e \<Rightarrow> \<lparr>ot_ok = False, ot_init_error = e, ot_spans = []\<rparr>
   | Inr ex \<Rightarrow> (case sdk_tracer sdk ex (oo_service_name o') (oo_service_version o') of
       Inl what \<Rightarrow> \<lparr>ot_ok = False, ot_init_error = what, ot_spans = []\<rparr>
     | Inr ok \<Rightarrow> \<lparr>ot_ok = ok, ot_init_error = (if ok then [] else ''failed to create OTel tracer''), ot_spans = []\<rparr>))"

text \<open>The set-up of both adapters in \<open>Application::init\<close>: the error that ends it, if any.\<close>

definition otel_metrics_init :: "otel_sdk \<Rightarrow> string \<Rightarrow> metrics_export_option \<Rightarrow> string \<Rightarrow> string option" where
  "otel_metrics_init sdk version mode url =
     (let m = new_otel_metrics sdk (app_otel_options version mode url) in if om_ok m then None else Some (om_init_error m))"

definition otel_traces_init :: "otel_sdk \<Rightarrow> string \<Rightarrow> metrics_export_option \<Rightarrow> string \<Rightarrow> string option" where
  "otel_traces_init sdk version mode url =
     (let t = new_otel_tracer sdk (app_otel_options version mode url) in if ot_ok t then None else Some (ot_init_error t))"

lemma lab_sdk_init [simp]: "otel_metrics_init lab_sdk v ExNone url = None" "otel_traces_init lab_sdk v ExNone url = None"
  by (simp_all add: otel_metrics_init_def otel_traces_init_def new_otel_metrics_def new_otel_tracer_def metric_exporter_def
      span_exporter_def app_otel_options_def lab_sdk_def otel_metrics_with_def)

text \<open>A span object is the number of its span, or \<open>None\<close> for the null span, which ignores every call.\<close>

definition otel_start_span :: "string \<Rightarrow> otel_tracer \<Rightarrow> otel_tracer \<times> nat option" where
  "otel_start_span name t =
     (if \<not> ot_ok t then (t, None) else (t\<lparr>ot_spans := ot_spans t @ [(name, [])]\<rparr>, Some (length (ot_spans t))))"

definition span_do :: "span_call \<Rightarrow> nat option \<Rightarrow> otel_tracer \<Rightarrow> otel_tracer" where
  "span_do c sp t = (case sp of
     None \<Rightarrow> t
   | Some i \<Rightarrow> t\<lparr>ot_spans := (ot_spans t)[i := (fst (ot_spans t ! i), snd (ot_spans t ! i) @ [c])]\<rparr>)"

definition otel_set_attribute :: "string \<Rightarrow> string \<Rightarrow> nat option \<Rightarrow> otel_tracer \<Rightarrow> otel_tracer" where
  "otel_set_attribute k v = span_do (SetAttribute k v)"

definition otel_set_int_attribute :: "string \<Rightarrow> int \<Rightarrow> nat option \<Rightarrow> otel_tracer \<Rightarrow> otel_tracer" where
  "otel_set_int_attribute k v = span_do (SetIntAttribute k v)"

definition otel_set_error :: "string \<Rightarrow> nat option \<Rightarrow> otel_tracer \<Rightarrow> otel_tracer" where
  "otel_set_error m = span_do (SetErrorStatus m)"

definition otel_end_span :: "nat option \<Rightarrow> otel_tracer \<Rightarrow> otel_tracer" where
  "otel_end_span = span_do EndSpan"

lemma span_do_other: "j \<noteq> i \<Longrightarrow> ot_spans (span_do c (Some i) t) ! j = ot_spans t ! j"
  by (simp add: span_do_def)

lemma span_do_calls:
  "i < length (ot_spans t) \<Longrightarrow> ot_spans (span_do c (Some i) t) ! i = (fst (ot_spans t ! i), snd (ot_spans t ! i) @ [c])"
  "length (ot_spans (span_do c sp t)) = length (ot_spans t)"
  by (simp_all add: span_do_def split: option.split)

section \<open>The recording tracer\<close>

record recorded_span =
  rs_name :: string
  rs_attributes :: "(string, string) umap"
  rs_error :: bool
  rs_error_message :: string

definition new_span :: "string \<Rightarrow> recorded_span" where
  "new_span name = \<lparr>rs_name = name, rs_attributes = [], rs_error = False, rs_error_message = []\<rparr>"

definition rec_set_attribute :: "string \<Rightarrow> string \<Rightarrow> recorded_span \<Rightarrow> recorded_span" where
  "rec_set_attribute k v s = s\<lparr>rs_attributes := AList.update k v (rs_attributes s)\<rparr>"

definition rec_set_int_attribute :: "string \<Rightarrow> int \<Rightarrow> recorded_span \<Rightarrow> recorded_span" where
  "rec_set_int_attribute k v s = rec_set_attribute k (show_int v) s"

definition rec_set_error :: "string \<Rightarrow> recorded_span \<Rightarrow> recorded_span" where
  "rec_set_error m s = s\<lparr>rs_error := True, rs_error_message := m\<rparr>"

definition rec_finish :: "recorded_span \<Rightarrow> recorded_span list \<Rightarrow> recorded_span list" where
  "rec_finish s finished = finished @ [s]"

text \<open>The calls of the dispatcher with one span, for both tracers.\<close>

fun otel_span_event :: "nat option \<Rightarrow> span_event \<Rightarrow> otel_tracer \<Rightarrow> otel_tracer" where
  "otel_span_event sp (SpanStart n) t = t"
| "otel_span_event sp (SpanAttribute k v) t = otel_set_attribute k v sp t"
| "otel_span_event sp (SpanCount k i) t = otel_set_int_attribute k i sp t"
| "otel_span_event sp (SpanError m) t = otel_set_error m sp t"

fun rec_span_event :: "span_event \<Rightarrow> recorded_span \<Rightarrow> recorded_span" where
  "rec_span_event (SpanStart n) s = s"
| "rec_span_event (SpanAttribute k v) s = rec_set_attribute k v s"
| "rec_span_event (SpanCount k i) s = rec_set_int_attribute k i s"
| "rec_span_event (SpanError m) s = rec_set_error m s"

text \<open>What a span shows after its calls: the last value of an attribute and the last error.\<close>

fun call_effect :: "span_call \<Rightarrow> recorded_span \<Rightarrow> recorded_span" where
  "call_effect (SetAttribute k v) s = rec_set_attribute k v s"
| "call_effect (SetIntAttribute k i) s = rec_set_attribute k (show_int i) s"
| "call_effect (SetErrorStatus m) s = rec_set_error m s"
| "call_effect EndSpan s = s"

definition span_view :: "string \<times> span_call list \<Rightarrow> recorded_span" where
  "span_view sp = fold call_effect (snd sp) (new_span (fst sp))"

lemma tracers_step:
  "i < length (ot_spans t) \<Longrightarrow> span_view (ot_spans (otel_span_event (Some i) ev t) ! i) = rec_span_event ev (span_view (ot_spans t ! i))"
  by (cases ev) (simp_all add: otel_set_attribute_def otel_set_int_attribute_def otel_set_error_def span_do_calls span_view_def rec_set_int_attribute_def)

lemma span_event_length [simp]: "length (ot_spans (otel_span_event sp ev t)) = length (ot_spans t)"
  by (cases ev) (simp_all add: otel_set_attribute_def otel_set_int_attribute_def otel_set_error_def span_do_calls)

lemma tracers_run:
  "i < length (ot_spans t) \<Longrightarrow>
     span_view (ot_spans (fold (otel_span_event (Some i)) evs t) ! i) = fold rec_span_event evs (span_view (ot_spans t ! i))"
  by (induction evs arbitrary: t) (simp_all add: tracers_step)

text \<open>
  The span that a test reads from the recording tracer is the one that is exported: for the same calls
  both have the same name, the same attributes and the same error, whatever other spans there are.
\<close>

lemma tracers_agree:
  assumes "otel_start_span name t = (t', Some i)"
  shows "rec_finish (span_view (ot_spans (otel_end_span (Some i) (fold (otel_span_event (Some i)) evs t')) ! i)) finished =
    rec_finish (fold rec_span_event evs (new_span name)) finished"
proof -
  have t: "i < length (ot_spans t')" "ot_spans t' ! i = (name, [])"
    using assms by (auto simp: otel_start_span_def split: if_splits)
  have "length (ot_spans (fold (otel_span_event (Some i)) evs t')) = length (ot_spans t')" by (induction evs arbitrary: t') simp_all
  moreover have "span_view (ot_spans (fold (otel_span_event (Some i)) evs t') ! i) = fold rec_span_event evs (new_span name)"
    using tracers_run [OF t(1)] t(2) by (simp add: span_view_def)
  ultimately show ?thesis using t(1) by (simp add: otel_end_span_def span_do_calls span_view_def)
qed

section \<open>Log and clock\<close>

fun log_level_name :: "log_level \<Rightarrow> string" where
  "log_level_name LTrace = ''TRACE''"
| "log_level_name LDebug = ''DEBUG''"
| "log_level_name LInfo = ''INFO''"
| "log_level_name LWarn = ''WARN''"
| "log_level_name LError = ''ERROR''"

fun log_level_number :: "log_level \<Rightarrow> nat" where
  "log_level_number LTrace = 0"
| "log_level_number LDebug = 1"
| "log_level_number LInfo = 2"
| "log_level_number LWarn = 3"
| "log_level_number LError = 4"

definition stderr_log :: "log_level \<Rightarrow> log_level \<Rightarrow> string \<Rightarrow> string \<Rightarrow> string \<Rightarrow> string" where
  "stderr_log min_level level component message err =
     (if log_level_number level < log_level_number min_level then err
      else err @ log_level_name level @ '' ['' @ component @ ''] '' @ message @ [CHR 0x0A])"

definition advance_ms :: "timestamp_ms \<Rightarrow> timestamp_ms \<Rightarrow> timestamp_ms" where
  "advance_ms delta now = now + delta"

definition set_now_ms :: "timestamp_ms \<Rightarrow> timestamp_ms \<Rightarrow> timestamp_ms" where
  "set_now_ms v now = v"

text \<open>A log with a higher minimum level prints a part of what a log with a lower one prints, in the same order.\<close>

lemma stderr_log_mono:
  "log_level_number low \<le> log_level_number high \<Longrightarrow>
     subseq (fold (\<lambda>(l, c, m). stderr_log high l c m) es []) (fold (\<lambda>(l, c, m). stderr_log low l c m) es [])"
proof -
  assume le: "log_level_number low \<le> log_level_number high"
  have "subseq a b \<Longrightarrow> subseq (fold (\<lambda>(l, c, m). stderr_log high l c m) es a) (fold (\<lambda>(l, c, m). stderr_log low l c m) es b)" for a b
  proof (induction es arbitrary: a b)
    case (Cons e es)
    obtain l c m where e: "e = (l, c, m)" by (cases e)
    have "subseq (stderr_log high l c m a) (stderr_log low l c m b)"
      using Cons.prems le by (auto simp: stderr_log_def list_emb_append_mono subseq_drop_many intro: list_emb_append2)
    then show ?case using Cons.IH e by simp
  qed simp
  then show ?thesis by simp
qed

end
