(* ===== verification/Application.thy ===== *)
theory Application
  imports Cli_Options Load Opc_Ua_Server Telemetry
begin

text \<open>
  The gateway program: \<open>Src/app/application.cpp\<close> and \<open>Src/main.cpp\<close>, with \<open>load_project_or_error\<close> of
  \<open>Src/app/server_runtime.cpp\<close>. \<open>init\<close> builds the runtime of a command line, \<open>run\<close> drives it and gives the
  exit code. \<open>app_runtime_env\<close> plugs the models of the other theories into the parameters of the
  runtime: the UDP and TCP transports of the default factory, the OPC UA server, and the ring or SQLite
  historian.

  What remains outside is the record \<open>app_env\<close>: files, the OpenTelemetry SDK, sockets, the database,
  open62541, the clock, and \<open>ae_serve\<close>, the effect of the reactor between its start and the signal that
  stops it. Log entries are kept in order whatever their level.
\<close>

section \<open>Environment\<close>

datatype handler_token = HistorianHandler | OpcUaHandler

datatype 'db app_historian = HotRing ring_historian | ColdSqlite "'db sqlite_historian"

type_synonym ('a, 'b, 'v, 'db) gateway_runtime =
  "(('a, 'b) field_transport, handler_token, 'v ua_server, 'db app_historian) server_runtime"

record ('a, 'b, 'v, 'db) app_env =
  ae_version :: string
  ae_sdk :: otel_sdk
  ae_exists :: "string \<Rightarrow> bool"
  ae_content :: "string \<Rightarrow> string option"
  ae_load :: load_env
  ae_frame_log :: "string \<Rightarrow> bool"
  ae_sql :: "'db sqlite_api"
  ae_text :: fp_text
  ae_udp :: "'a udp_net"
  ae_udp_world :: 'a
  ae_tcp :: "'b tcp_net"
  ae_tcp_world :: 'b
  ae_ua_lib :: ua_lib
  ae_ua_nodes :: "'v ua_nodes"
  ae_ua_config :: ua_config
  ae_files :: "string \<Rightarrow> bytes option"
  ae_threads :: nat
  ae_clock :: "nat \<Rightarrow> timestamp_ms"
  ae_serve :: "('a, 'b, 'v, 'db) gateway_runtime \<Rightarrow> ('a, 'b, 'v, 'db) gateway_runtime"

fun historian_record :: "'db app_historian \<Rightarrow> historian_sample \<Rightarrow> 'db app_historian" where
  "historian_record (HotRing r) x = HotRing (ring_record r x)"
| "historian_record (ColdSqlite h) x = ColdSqlite (sqlite_record h x)"

fun historian_flush :: "'db sqlite_api \<Rightarrow> fp_text \<Rightarrow> 'db app_historian \<Rightarrow> 'db app_historian \<times> unit result" where
  "historian_flush sql ft (HotRing r) = (case ring_flush r of (r, x) \<Rightarrow> (HotRing r, x))"
| "historian_flush sql ft (ColdSqlite h) = (case sqlite_flush sql ft h of (h, x) \<Rightarrow> (ColdSqlite h, x))"

fun field_set_executor :: "bool \<Rightarrow> ('a, 'b) field_transport \<Rightarrow> ('a, 'b) field_transport" where
  "field_set_executor e (TcpTransport t) = TcpTransport (tcp_set_completion_executor e t)"
| "field_set_executor e (UdpTransport t) = UdpTransport t"

definition app_runtime_env ::
  "('a, 'b, 'v, 'db) app_env \<Rightarrow> bool \<Rightarrow>
     (('a, 'b) field_transport, handler_token, 'v ua_server, 'db app_historian) runtime_env" where
  "app_runtime_env env frame_log =
     \<lparr>en_ops = field_ops (ae_udp env) (ae_tcp env),
      en_factory = default_transport_factory (ae_udp_world env) (ae_tcp_world env) frame_log,
      en_set_executor = field_set_executor,
      en_ua_set_write_handler = set_write_handler,
      en_ua_start = (\<lambda>u p. ua_start (ae_ua_lib env) (ae_ua_nodes env) (ae_files env) (Some p) u),
      en_ua_bind_tags = bind_tags (ae_ua_nodes env) OpcUaHandler,
      en_ua_iterate = Opc_Ua_Server.iterate (ae_ua_nodes env),
      en_ua_stop = ua_stop,
      en_ua_handler = OpcUaHandler,
      en_ua_change = (\<lambda>u i v. note_tag_quality i v u),
      en_hist_handler = HistorianHandler,
      en_hist_record = historian_record,
      en_hist_flush = historian_flush (ae_sql env) (ae_text env),
      en_hardware_threads = ae_threads env\<rparr>"

section \<open>Identities and certificates of the command line\<close>

definition identity_overlay :: "cli_options \<Rightarrow> opc_ua_settings \<Rightarrow> opc_ua_settings" where
  "identity_overlay o' ua =
     (if cli_ua_users o' \<noteq> [] \<or> cli_ua_deny_anonymous o' \<or> cli_ua_allow_anonymous o' \<or> cli_ua_allow_none_password o' \<or>
         cli_ua_allow_certificate_identity o' \<or> cli_ua_allow_none_certificate o' then
        let had_users = (ua_users ua \<noteq> []); had_cert_identity = ua_allow_certificate_identity ua;
            m = ua\<lparr>ua_users := ua_users ua @ map (\<lambda>(u, p). \<lparr>user_username = u, user_password = p\<rparr>) (cli_ua_users o')\<rparr>;
            m = (if ((cli_ua_users o' \<noteq> [] \<and> \<not> had_users) \<or> (cli_ua_allow_certificate_identity o' \<and> \<not> had_cert_identity)) \<and>
                    \<not> cli_ua_allow_anonymous o' \<and> \<not> cli_ua_deny_anonymous o'
                 then m\<lparr>ua_allow_anonymous := False\<rparr> else m);
            m = (if cli_ua_deny_anonymous o' then m\<lparr>ua_allow_anonymous := False\<rparr> else m);
            m = (if cli_ua_allow_anonymous o' then m\<lparr>ua_allow_anonymous := True\<rparr> else m);
            m = (if cli_ua_allow_none_password o' then m\<lparr>ua_allow_none_password := True\<rparr> else m);
            m = (if cli_ua_allow_certificate_identity o' then m\<lparr>ua_allow_certificate_identity := True\<rparr> else m);
            m = (if cli_ua_allow_none_certificate o' then m\<lparr>ua_allow_none_certificate := True\<rparr> else m)
        in m
      else ua)"

definition pki_options :: "cli_options \<Rightarrow> opc_ua_settings \<Rightarrow> ua_security_options" where
  "pki_options o' ua =
     \<lparr>sec_certificate_path = cli_ua_cert_path o', sec_private_key_path = cli_ua_key_path o',
      sec_trust_list = cli_ua_trust_paths o', sec_revocation_list = cli_ua_revocation_paths o',
      sec_generate_if_missing = True,
      sec_accept_untrusted =
        (if cli_ua_strict_certs o' then False
         else if ua_security_mode ua \<noteq> SM_None then cli_ua_accept_untrusted o'
         else True)\<rparr>"

text \<open>\<open>OpcUaServer(log, metrics, security)\<close>; \<open>c\<close> stands for the configuration before the first start.\<close>

definition new_ua_server :: "ua_config \<Rightarrow> ua_security_options \<Rightarrow> 'v ua_server" where
  "new_ua_server c sec =
     \<lparr>us_server = None, us_config = c, us_project = None, us_security = sec, us_endpoint_url = [], us_ns_index = 1,
      us_next_numeric_id = 1000, us_folder_ids = [], us_tag_node_ids = [], us_tag_types = [], us_node_contexts = [],
      us_has_store = False, us_has_handler = False, us_subscription = 0, us_latest_quality = [], us_good_count = 0,
      us_uncertain_count = 0, us_bad_count = 0, us_active_sessions = [], us_last_error = [], us_dirty = False,
      us_state_node = 0, us_good_node = 0, us_uncertain_node = 0, us_bad_node = 0, us_last_error_node = 0,
      us_pump = False, us_hooks = False, us_has_metrics = True, us_gauges = [], us_has_log = True, us_log = []\<rparr>"

section \<open>Initialisation\<close>

record ('a, 'b, 'v, 'db) application =
  app_options :: cli_options
  app_log :: "(log_level \<times> string) list"
  app_usage :: bool
  app_out :: "string list"
  app_frame_log :: bool
  app_runtime :: "('a, 'b, 'v, 'db) gateway_runtime option"

text \<open>How \<open>init\<close> ends: it returns true, it returns false, or an exception escapes.\<close>

datatype init_outcome = Initialised | Refused | Threw string

definition new_application :: "cli_options \<Rightarrow> ('a, 'b, 'v, 'db) application" where
  "new_application o' = \<lparr>app_options = o', app_log = [], app_usage = False, app_out = [], app_frame_log = False, app_runtime = None\<rparr>"

definition app_note :: "log_level \<Rightarrow> string \<Rightarrow> ('a, 'b, 'v, 'db) application \<Rightarrow> ('a, 'b, 'v, 'db) application" where
  "app_note l m a = a\<lparr>app_log := app_log a @ [(l, m)]\<rparr>"

definition refuse :: "string \<Rightarrow> ('a, 'b, 'v, 'db) application \<Rightarrow> ('a, 'b, 'v, 'db) application \<times> init_outcome" where
  "refuse m a = (app_note LError m a, Refused)"

definition load_project_or_error ::
  "load_env \<Rightarrow> (string \<Rightarrow> string option) \<Rightarrow> string \<Rightarrow> string + (log_level \<times> string) list \<times> project result" where
  "load_project_or_error env content path = (case load_file env content path of
     Inl what \<Rightarrow> Inl what
   | Inr loaded \<Rightarrow>
       Inr (map (\<lambda>d. (if diag_severity d = SevError then LError else LWarn, diag_path d @ '': '' @ diag_message d)) (lr_diagnostics loaded),
            if lr_ok loaded then Ok (lr_project loaded)
            else Err (runtime_error EC_InvalidArgument (''project validation failed: '' @ path))))"

text \<open>The part of \<open>init\<close> after the project is loaded: frame log, historian, OPC UA server, runtime.\<close>

definition init_historian ::
  "('a, 'b, 'v, 'db) app_env \<Rightarrow> ('a, 'b, 'v, 'db) application \<Rightarrow> ('a, 'b, 'v, 'db) application \<times> 'db app_historian option result" where
  "init_historian env a =
     (let o' = app_options a
      in if \<not> cli_enable_historian o' then (a, Ok None)
         else if cli_historian_db o' \<noteq> [] then
           (let h = sqlite_new (ae_sql env) (cli_historian_db o') (cli_historian_capacity o') True
            in case sh_open_error h of
                 Some e \<Rightarrow> (a, Err (e\<lparr>err_message := ''historian db: '' @ err_message e\<rparr>))
               | None \<Rightarrow> (app_note LInfo (''historian cold sqlite: '' @ cli_historian_db o') a, Ok (Some (ColdSqlite h))))
         else (app_note LInfo (''historian hot ring capacity='' @ show_nat (cli_historian_capacity o')) a,
               Ok (Some (HotRing (ring_new (cli_historian_capacity o') True)))))"

definition init_opcua ::
  "('a, 'b, 'v, 'db) app_env \<Rightarrow> project \<Rightarrow> ('a, 'b, 'v, 'db) application \<Rightarrow> ('a, 'b, 'v, 'db) application \<times> 'v ua_server option" where
  "init_opcua env p a =
     (let o' = app_options a
      in if \<not> cli_enable_opcua o' then (a, None)
         else let pki = pki_options o' (prj_opcua p);
                  a = (if ua_security_mode (prj_opcua p) \<noteq> SM_None \<and> \<not> sec_accept_untrusted pki \<and> sec_trust_list pki = []
                       then app_note LWarn (''Sign/Encrypt without --ua-trust: only explicitly trusted client '' @
                         ''certificates will be accepted (pass --ua-accept-untrusted for lab)'') a
                       else a)
              in (a, Some (new_ua_server (ae_ua_config env) pki)))"

definition init_runtime ::
  "('a, 'b, 'v, 'db) app_env \<Rightarrow> string \<Rightarrow> project \<Rightarrow> ('a, 'b, 'v, 'db) application \<Rightarrow> ('a, 'b, 'v, 'db) application \<times> init_outcome" where
  "init_runtime env path p a =
     (let o' = app_options a; fl = cli_frame_log_path o'
      in if fl \<noteq> [] \<and> \<not> ae_frame_log env fl then refuse (''failed to open frame log: '' @ fl) a
         else let a = (if fl \<noteq> [] then app_note LInfo (''frame log: '' @ fl) (a\<lparr>app_frame_log := True\<rparr>) else a)
              in (case init_historian env a of
                    (a, Err e) \<Rightarrow> refuse (err_message e) a
                  | (a, Undef) \<Rightarrow> (a, Refused)
                  | (a, Ok historian) \<Rightarrow>
                      (case init_opcua env p a of (a, opcua) \<Rightarrow>
                         (case create (Some p) True True True True historian opcua (ae_clock env)
                                 (\<lambda>_. UdpTransport (udp_new (ae_udp_world env) False [])) of
                            Err e \<Rightarrow> refuse (err_message e) a
                          | Undef \<Rightarrow> (a, Refused)
                          | Ok rt \<Rightarrow>
                              (app_note LInfo (''loaded project '' @ [CHR 0x27] @ prj_name (sr_project rt) @ [CHR 0x27] @ '' from '' @ path)
                                 (a\<lparr>app_runtime := Some rt\<rparr>), Initialised)))))"

definition init_app ::
  "('a, 'b, 'v, 'db) app_env \<Rightarrow> cli_options \<Rightarrow> ('a, 'b, 'v, 'db) application \<times> init_outcome" where
  "init_app env o' =
     (let a = new_application o'
      in if cli_errors o' \<noteq> []
         then (a\<lparr>app_log := map (\<lambda>e. (LError, e)) (cli_errors o'), app_usage := True\<rparr>, Refused)
         else if cli_help o' then (a\<lparr>app_usage := True\<rparr>, Refused)
         else if cli_version o' then (a\<lparr>app_out := [''OPC_SERVER '' @ ae_version env]\<rparr>, Refused)
         else if (cli_metrics_export o' = ExOtlpHttp \<and> \<not> sdk_otlp (ae_sdk env)) \<or> (cli_traces_export o' = ExOtlpHttp \<and> \<not> sdk_otlp (ae_sdk env))
         then refuse ''OTLP requested but build lacks OPC_WITH_OTLP'' a
         else case otel_metrics_init (ae_sdk env) (ae_version env) (cli_metrics_export o') (cli_otlp_endpoint o') of
                Some e \<Rightarrow> refuse (''otel metrics init failed: '' @ e) a
              | None \<Rightarrow> (case otel_traces_init (ae_sdk env) (ae_version env) (cli_traces_export o') (cli_otlp_endpoint o') of
                  Some e \<Rightarrow> refuse (''otel traces init failed: '' @ e) a
                | None \<Rightarrow> (case resolve_project_path (ae_exists env) (cli_project_path o') of
                    None \<Rightarrow> refuse (if cli_project_path o' = [] then ''no project file found (use --project)''
                                    else ''project file not found: '' @ cli_project_path o') a
                  | Some path \<Rightarrow> (case load_project_or_error (ae_load env) (ae_content env) path of
                      Inl what \<Rightarrow> (a, Threw what)
                    | Inr (entries, Ok p) \<Rightarrow>
                        init_runtime env path (p\<lparr>prj_opcua := identity_overlay o' (prj_opcua p)\<rparr>) (a\<lparr>app_log := entries\<rparr>)
                    | Inr (entries, Err e) \<Rightarrow> refuse (err_message e) (a\<lparr>app_log := entries\<rparr>)
                    | Inr (entries, Undef) \<Rightarrow> (a, Refused)))))"

section \<open>Running\<close>

text \<open>\<open>None\<close> as the exit code: a poll met undefined behaviour.\<close>

definition poll_and_watch ::
  "('a, 'b, 'v, 'db) app_env \<Rightarrow> timestamp_ms \<Rightarrow> ('a, 'b, 'v, 'db) gateway_runtime \<Rightarrow> ('a, 'b, 'v, 'db) application \<Rightarrow>
     (('a, 'b, 'v, 'db) gateway_runtime \<times> ('a, 'b, 'v, 'db) application) option" where
  "poll_and_watch env now rt a =
     (case poll_once (app_runtime_env env (app_frame_log a)) now rt of
        (rt, r) \<Rightarrow>
          if r = Undef then None
          else let a = (case r of Err e \<Rightarrow> app_note LWarn (''poll_once: '' @ err_message e) a | _ \<Rightarrow> a)
               in Some (rt, if cli_watch (app_options a) then a\<lparr>app_out := app_out a @ [write_watchlist (ae_text env) rt]\<rparr> else a))"

definition print_runtime_doctor :: "('a, 'b, 'v, 'db) gateway_runtime \<Rightarrow> string list \<times> nat" where
  "print_runtime_doctor rt =
     (let report = runtime_doctor (d_index (sr_disp rt)) (d_store (sr_disp rt));
          line = (\<lambda>f. (if rdf_severity f = SevError then ''error'' else ''warning'') @ '': '' @ rdf_tag_name f @ '': '' @ rdf_message f)
      in (map line (rdr_findings report) @
            [''runtime-doctor: '' @ show_nat (rdr_error_count report) @ '' error(s), '' @ show_nat (rdr_warning_count report) @ '' warning(s)''],
          if rdr_error_count report > 0 then 1 else 0))"

text \<open>The reactor: \<open>start_reactor\<close>, the time until the stop signal, \<open>stop\<close>.\<close>

definition run_reactor ::
  "('a, 'b, 'v, 'db) app_env \<Rightarrow> ('a, 'b, 'v, 'db) gateway_runtime \<Rightarrow> ('a, 'b, 'v, 'db) application \<Rightarrow> ('a, 'b, 'v, 'db) application \<times> nat option" where
  "run_reactor env rt a =
     (let renv = app_runtime_env env (app_frame_log a); a = app_note LInfo ''entering asio reactor (Ctrl+C to stop)'' a
      in case start_reactor renv rt of
           (rt, Ok _) \<Rightarrow> (a\<lparr>app_runtime := Some (stop renv (ae_serve env rt))\<rparr>, Some 0)
         | (rt, Err e) \<Rightarrow> (app_note LError (''reactor start failed: '' @ err_message e) (a\<lparr>app_runtime := Some (stop renv rt)\<rparr>), Some 1)
         | (rt, Undef) \<Rightarrow> (a, None))"

definition run_app :: "('a, 'b, 'v, 'db) app_env \<Rightarrow> ('a, 'b, 'v, 'db) application \<Rightarrow> ('a, 'b, 'v, 'db) application \<times> nat option" where
  "run_app env a =
     (let renv = app_runtime_env env (app_frame_log a); o' = app_options a
      in case app_runtime a of
           None \<Rightarrow> (a, Some 1)
         | Some rt \<Rightarrow> (case start renv rt of
             (rt, Undef) \<Rightarrow> (a, None)
           | (rt, Err e) \<Rightarrow> (app_note LError (''start failed: '' @ err_message e) (a\<lparr>app_runtime := Some (stop renv rt)\<rparr>), Some 1)
           | (rt, Ok _) \<Rightarrow>
               if cli_once o' \<or> cli_runtime_doctor o' then
                 (case runtime_now rt of (rt, now) \<Rightarrow>
                    (case poll_and_watch env now rt a of
                       None \<Rightarrow> (a, None)
                     | Some (rt, a) \<Rightarrow>
                         let (lines, rc) = (if cli_runtime_doctor o' then print_runtime_doctor rt else ([], 0));
                             a = a\<lparr>app_out := app_out a @ lines\<rparr>
                         in if cli_once o' then (a\<lparr>app_runtime := Some (stop renv rt)\<rparr>, Some rc)
                            else run_reactor env rt a))
               else run_reactor env rt a))"

definition main_gateway :: "('a, 'b, 'v, 'db) app_env \<Rightarrow> string list \<Rightarrow> ('a, 'b, 'v, 'db) application \<times> nat option" where
  "main_gateway env args =
     (let o' = parse_cli args
      in case init_app env o' of
           (a, Initialised) \<Rightarrow> run_app env a
         | (a, Refused) \<Rightarrow> (a, Some (if cli_help o' \<or> cli_version o' then 0 else 2))
         | (a, Threw what) \<Rightarrow> (a, None))"

section \<open>Identities of the command line\<close>

lemma identity_overlay_fields:
  "ua_users (identity_overlay o' ua) = ua_users ua @ map (\<lambda>(u, p). \<lparr>user_username = u, user_password = p\<rparr>) (cli_ua_users o')"
  "ua_allow_anonymous (identity_overlay o' ua) \<longleftrightarrow>
      cli_ua_allow_anonymous o' \<or>
      (ua_allow_anonymous ua \<and> \<not> cli_ua_deny_anonymous o' \<and>
       (if ua_users ua = [] then cli_ua_users o' = [] else True) \<and>
       (if ua_allow_certificate_identity ua then True else \<not> cli_ua_allow_certificate_identity o'))"
  "ua_allow_none_password (identity_overlay o' ua) \<longleftrightarrow> ua_allow_none_password ua \<or> cli_ua_allow_none_password o'"
  "ua_allow_certificate_identity (identity_overlay o' ua) \<longleftrightarrow>
      ua_allow_certificate_identity ua \<or> cli_ua_allow_certificate_identity o'"
  "ua_allow_none_certificate (identity_overlay o' ua) \<longleftrightarrow> ua_allow_none_certificate ua \<or> cli_ua_allow_none_certificate o'"
  "ua_security_mode (identity_overlay o' ua) = ua_security_mode ua"
  by (auto simp: identity_overlay_def Let_def)

text \<open>
  What the options of the command line make of the identities of the project: the users are
  added to those of the project, each permission is granted by the project or its option, and
  anonymous sessions are allowed by \<open>--ua-allow-anonymous\<close>, or by the project unless the command line
  denies them or brings in the first user or the first certificate identity.
\<close>

theorem identity_overlay_spec:
  "ua_users (identity_overlay o' ua) = ua_users ua @ map (\<lambda>(u, p). \<lparr>user_username = u, user_password = p\<rparr>) (cli_ua_users o') \<and>
   (ua_allow_anonymous (identity_overlay o' ua) \<longleftrightarrow>
      cli_ua_allow_anonymous o' \<or>
      (ua_allow_anonymous ua \<and> \<not> cli_ua_deny_anonymous o' \<and>
       (if ua_users ua = [] then cli_ua_users o' = [] else True) \<and>
       (if ua_allow_certificate_identity ua then True else \<not> cli_ua_allow_certificate_identity o'))) \<and>
   (ua_allow_none_password (identity_overlay o' ua) \<longleftrightarrow> ua_allow_none_password ua \<or> cli_ua_allow_none_password o') \<and>
   (ua_allow_certificate_identity (identity_overlay o' ua) \<longleftrightarrow>
      ua_allow_certificate_identity ua \<or> cli_ua_allow_certificate_identity o') \<and>
   (ua_allow_none_certificate (identity_overlay o' ua) \<longleftrightarrow> ua_allow_none_certificate ua \<or> cli_ua_allow_none_certificate o') \<and>
   ua_security_mode (identity_overlay o' ua) = ua_security_mode ua"
  by (simp add: identity_overlay_fields)

text \<open>
  Over an unsecured channel every certificate is an accepted identity, whatever \<open>--ua-trust\<close> lists:
  the application accepts untrusted certificates in that mode unless \<open>--ua-strict-certs\<close> is given, so the
  server never comes to read the trust list.
\<close>

theorem unsecured_certificates_accepted:
  assumes "ua_security_mode ua = SM_None" "ua_allow_certificate_identity ua" "ua_allow_none_certificate ua"
    and "lib_encryption lib" "\<not> cli_ua_strict_certs o'"
  shows "configure_session_pki_for_identity lib files ua (pki_options o' ua) c = Ok (c\<lparr>uc_session_pki := PkiAcceptAll\<rparr>)"
  using assms by (simp add: configure_session_pki_for_identity_def pki_options_def)

theorem unsecured_certificates_accepted_witness:
  "configure_session_pki_for_identity lab_lib (\<lambda>_. None)
     (default_opc_ua_settings\<lparr>ua_allow_certificate_identity := True, ua_allow_none_certificate := True\<rparr>)
     (pki_options (default_cli_options\<lparr>cli_ua_trust_paths := [''ca.der'']\<rparr>)
        (default_opc_ua_settings\<lparr>ua_allow_certificate_identity := True, ua_allow_none_certificate := True\<rparr>))
     (the (lib_minimal lab_lib 4840)) = Ok ((the (lib_minimal lab_lib 4840))\<lparr>uc_session_pki := PkiAcceptAll\<rparr>)"
  by (rule unsecured_certificates_accepted) (simp_all add: default_opc_ua_settings_def default_cli_options_def lab_lib_def Let_def)

section \<open>The runtime of a command line\<close>

lemma app_note_fields [simp]:
  "app_options (app_note l m a) = app_options a" "app_runtime (app_note l m a) = app_runtime a"
  "app_frame_log (app_note l m a) = app_frame_log a"
  by (simp_all add: app_note_def)

lemma refuse_outcome [simp]: "snd (refuse m a) = Refused" "refuse m a = (a', Initialised) \<longleftrightarrow> False" "refuse m a = (a', Threw w) \<longleftrightarrow> False"
  by (auto simp: refuse_def)

lemma init_historian_options: "init_historian env a = (a', r) \<Longrightarrow> app_options a' = app_options a"
  by (auto simp: init_historian_def Let_def split: if_splits option.splits)

lemma init_opcua_result:
  assumes "init_opcua env p a = (a', u)"
  shows "app_options a' = app_options a"
    "u = (if cli_enable_opcua (app_options a) then Some (new_ua_server (ae_ua_config env) (pki_options (app_options a) (prj_opcua p))) else None)"
  using assms by (auto simp: init_opcua_def Let_def split: if_splits)

lemma init_runtime_Initialised:
  assumes "init_runtime env path p a = (a', Initialised)"
  obtains rt where "app_runtime a' = Some rt" "sr_project rt = p" "\<not> sr_started rt" "d_index (sr_disp rt) = build p"
    "sr_opcua rt = (if cli_enable_opcua (app_options a) then Some (new_ua_server (ae_ua_config env) (pki_options (app_options a) (prj_opcua p))) else None)"
proof -
  define a0 where "a0 = (if cli_frame_log_path (app_options a) \<noteq> [] then
      app_note LInfo (''frame log: '' @ cli_frame_log_path (app_options a)) (a\<lparr>app_frame_log := True\<rparr>) else a)"
  have o: "app_options a0 = app_options a" by (simp add: a0_def)
  obtain a1 a2 h u where 1: "init_historian env a0 = (a1, Ok h)" and 2: "init_opcua env p a1 = (a2, u)"
    and 3: "app_runtime a' = Some \<lparr>sr_project = p,
            sr_disp = \<lparr>d_index = build p, d_has_store = True, d_has_clock = True, d_has_metrics = True,
              d_has_tracer = True, d_transports = [], d_last_poll_ms = [], d_write_queues = [],
              d_store = empty_tag_store, d_calls = [], d_heap = (\<lambda>_. UdpTransport (udp_new (ae_udp_world env) False [])), d_clock = ae_clock env, d_clock_reads = 0,
              d_metrics = [], d_spans = []\<rparr>,
            sr_has_log = True, sr_log = [], sr_historian = h, sr_historian_sub = None,
            sr_opcua = u, sr_transports = [], sr_next_addr = 0, sr_poll_state = [], sr_reactor = None,
            sr_posted = [], sr_started = False\<rparr>"
    using assms unfolding init_runtime_def Let_def a0_def [symmetric] create_def
    by (auto split: if_splits prod.splits result.splits)
  show thesis using that 3 init_opcua_result [OF 2] init_historian_options [OF 1] o by auto
qed

lemma init_app_Initialised:
  assumes "init_app env o' = (a, Initialised)"
  obtains path content r rt where "ae_content env path = Some content" "load_json_text (ae_load env) content path = Inr r" "lr_ok r"
    "app_runtime a = Some rt" "\<not> sr_started rt" "d_index (sr_disp rt) = build (sr_project rt)"
    "sr_project rt = (lr_project r)\<lparr>prj_opcua := identity_overlay o' (prj_opcua (lr_project r))\<rparr>"
    "sr_opcua rt = (if cli_enable_opcua o' then Some (new_ua_server (ae_ua_config env) (pki_options o' (prj_opcua (sr_project rt)))) else None)"
proof -
  obtain path entries p where l: "load_project_or_error (ae_load env) (ae_content env) path = Inr (entries, Ok p)"
    and i: "init_runtime env path (p\<lparr>prj_opcua := identity_overlay o' (prj_opcua p)\<rparr>) ((new_application o')\<lparr>app_log := entries\<rparr>) = (a, Initialised)"
    using assms unfolding init_app_def Let_def by (auto split: if_splits option.splits sum.splits prod.splits result.splits)
  obtain content r where r: "ae_content env path = Some content" "load_json_text (ae_load env) content path = Inr r" "lr_ok r" "p = lr_project r"
    using l by (auto simp: load_project_or_error_def load_file_def split: sum.splits option.splits if_splits)
  show thesis using i
  proof (rule init_runtime_Initialised)
    fix rt assume "app_runtime a = Some rt" "sr_project rt = p\<lparr>prj_opcua := identity_overlay o' (prj_opcua p)\<rparr>" "\<not> sr_started rt" "d_index (sr_disp rt) = build (p\<lparr>prj_opcua := identity_overlay o' (prj_opcua p)\<rparr>)"
      "sr_opcua rt = (if cli_enable_opcua (app_options ((new_application o')\<lparr>app_log := entries\<rparr>)) then Some (new_ua_server (ae_ua_config env) (pki_options (app_options ((new_application o')\<lparr>app_log := entries\<rparr>)) (prj_opcua (p\<lparr>prj_opcua := identity_overlay o' (prj_opcua p)\<rparr>)))) else None)"
    then show thesis using r that by (simp add: new_application_def)
  qed
qed

lemma start_endpoints_opcua:
  "start_endpoints env eps s = (s', Ok ()) \<Longrightarrow> sr_opcua s' = sr_opcua s \<and> sr_project s' = sr_project s"
proof (induction eps arbitrary: s)
  case (Cons ep eps)
  have "sr_opcua s1 = sr_opcua s \<and> sr_project s1 = sr_project s" if "start_endpoint env ep s = (s1, Ok ())" for s1
    using that by (auto simp: start_endpoint_def on_disp_def runtime_now_def Let_def case_prod_unfold split: option.splits result.splits)
  then show ?case using Cons by (auto split: prod.splits result.splits)
qed simp

lemma start_opcua_server:
  assumes "start (app_runtime_env env fl) rt = (rt', Ok ())" "\<not> sr_started rt" "sr_opcua rt = Some u" "us_server u = None"
  obtains u' where "sr_opcua rt' = Some u'" "us_server u' \<noteq> None"
    "config_secure (us_security u) (prj_opcua (sr_project rt)) (us_config u')"
proof -
  let ?e = "app_runtime_env env fl"
  obtain s1 s2 where 1: "start_endpoints ?e (prj_endpoints (sr_project rt)) rt = (s1, Ok ())"
    and 2: "start_opcua ?e s1 = (s2, Ok ())" and 3: "sr_opcua rt' = sr_opcua s2"
    using assms(1,2) by (auto simp: start_def subscribe_historian_def on_disp_def Let_def split: prod.splits result.splits if_splits)
  have s1: "sr_opcua s1 = Some u" "sr_project s1 = sr_project rt" using start_endpoints_opcua [OF 1] assms(3) by auto
  obtain u1 where u1: "ua_start (ae_ua_lib env) (ae_ua_nodes env) (ae_files env) (Some (sr_project rt)) (set_write_handler u) = (u1, Ok ())"
    using 2 s1 by (auto simp: start_opcua_def app_runtime_env_def split: prod.splits result.splits)
  obtain u2 st where u2: "bind_tags (ae_ua_nodes env) OpcUaHandler u1 (d_store (sr_disp s1))
      (map (\<lambda>b. (tb_id b, tb_tag b)) (ri_tags (d_index (sr_disp s1)))) = (u2, st, Ok ())" and s2: "sr_opcua s2 = Some u2"
    using 2 s1 u1 by (auto simp: start_opcua_def app_runtime_env_def on_disp_def Let_def split: prod.splits result.splits)
  have "us_server (set_write_handler u) = None" "us_security (set_write_handler u) = us_security u"
    using assms(4) by (simp_all add: set_write_handler_def)
  then show thesis
    using that [of u2] ua_start_config_secure [OF u1] bind_tags_keeps [OF u2] 3 s2 by auto
qed

lemma new_ua_server_fields [simp]: "us_server (new_ua_server c sec) = None" "us_security (new_ua_server c sec) = sec"
  by (simp_all add: new_ua_server_def)

lemma gateway_server:
  assumes "init_app env o' = (a, Initialised)" "cli_enable_opcua o'" "app_runtime a = Some rt"
    and "start (app_runtime_env env (app_frame_log a)) rt = (rt', Ok ())"
  obtains path content r u where "ae_content env path = Some content" "load_json_text (ae_load env) content path = Inr r" "lr_ok r"
    "sr_opcua rt' = Some u" "us_server u \<noteq> None" "prj_opcua (sr_project rt) = identity_overlay o' (prj_opcua (lr_project r))"
    "config_secure (pki_options o' (prj_opcua (sr_project rt))) (prj_opcua (sr_project rt)) (us_config u)"
proof -
  obtain path content r where l: "ae_content env path = Some content" "load_json_text (ae_load env) content path = Inr r" "lr_ok r"
    and rt: "\<not> sr_started rt" "sr_project rt = (lr_project r)\<lparr>prj_opcua := identity_overlay o' (prj_opcua (lr_project r))\<rparr>"
      "sr_opcua rt = Some (new_ua_server (ae_ua_config env) (pki_options o' (prj_opcua (sr_project rt))))"
    by (rule init_app_Initialised [OF assms(1)]) (use assms(2,3) in auto)
  show thesis
    by (rule start_opcua_server [OF assms(4) rt(1,3) new_ua_server_fields(1)]) (use that l rt(2) in auto)
qed



section \<open>A small gateway\<close>

definition lab_app_env :: "(u8 list list, u8 list, unit, sample_row list \<times> sample_row list) app_env" where
  "lab_app_env = \<lparr>ae_version = ''1'', ae_sdk = lab_sdk, ae_exists = (\<lambda>p. True), ae_content = (\<lambda>p. Some ''{demo}''), ae_load = demo_env,
     ae_frame_log = (\<lambda>p. True), ae_sql = list_db, ae_text = no_text, ae_udp = peer_net (\<lambda>x. x), ae_udp_world = [],
     ae_tcp = stream_net (\<lambda>x. x), ae_tcp_world = [], ae_ua_lib = lab_lib, ae_ua_nodes = lab_nodes,
     ae_ua_config = the (lib_minimal lab_lib 4840), ae_files = (\<lambda>p. None), ae_threads = 4, ae_clock = (\<lambda>n. 7),
     ae_serve = (\<lambda>rt. rt)\<rparr>"

definition lab_options :: cli_options where
  "lab_options = default_cli_options\<lparr>cli_project_path := ''demo.json'', cli_ua_allow_none_password := True, cli_enable_historian := False\<rparr>"

definition lab_app_project :: project where
  "lab_app_project = (expand_device_profiles demo_project)\<lparr>prj_opcua := identity_overlay lab_options (prj_opcua demo_project)\<rparr>"

lemma lab_init: "snd (init_app lab_app_env lab_options) = Initialised"
  using load_demo
  by (simp add: init_app_def lab_options_def default_cli_options_def lab_app_env_def resolve_project_path_def
      load_project_or_error_def load_file_def demo_load_def init_runtime_def init_historian_def init_opcua_def create_def
      new_application_def Let_def)

lemma start_endpoints_total:
  assumes "\<And>ep. en_factory env ep \<noteq> None" shows "snd (start_endpoints env eps s) = Ok ()"
proof (induction eps arbitrary: s)
  case (Cons ep eps)
  have "snd (start_endpoint env ep s) = Ok ()"
    using assms [of ep] by (auto simp: start_endpoint_def Let_def split: option.split prod.split)
  then show ?case using Cons by (cases "start_endpoint env ep s") simp
qed simp

lemma start_endpoints_index: "snd (start_endpoints env eps s) = Ok () \<Longrightarrow> d_index (sr_disp (fst (start_endpoints env eps s))) = d_index (sr_disp s)"
proof (induction eps arbitrary: s)
  case (Cons ep eps)
  have "d_index (sr_disp s1) = d_index (sr_disp s)" if "start_endpoint env ep s = (s1, Ok ())" for s1
    using that by (auto simp: start_endpoint_def on_disp_def runtime_now_def now_ms_def on_transport_def heap_update_def bind_transport_def Let_def case_prod_unfold split: option.splits result.splits)
  then show ?case using Cons by (auto split: prod.splits result.splits)
qed simp

lemma lab_ua_start:
  assumes "us_server s = None" "us_folder_ids s = []" "start_config lab_lib files (us_security s) p = Ok (c, url)"
  shows "\<exists>s'. ua_start lab_lib lab_nodes files (Some p) s = (s', Ok ())"
proof -
  let ?s = "(ua_gauge ''ua_sessions'' fp_zero64 (s\<lparr>us_project := Some p, us_config := c, us_endpoint_url := url, us_hooks := True\<rparr>))
      \<lparr>us_server := Some (), us_ns_index := 2\<rparr>"
  obtain t where t: "add_diagnostics lab_nodes ?s = (t, Ok ())"
    using lab_diagnostics [of ?s] assms(2) by auto
  have "lib_encryption lab_lib" by (simp add: lab_lib_def Let_def)
  then show ?thesis using assms t by (simp add: ua_start_def lab_nodes_def Let_def)
qed

lemma bind_specs_no_paths: "list_all (\<lambda>(i, t). tag_node_path t = []) specs \<Longrightarrow> snd (bind_specs nodes specs s) = Ok ()"
  by (induction nodes specs s rule: bind_specs.induct) auto

lemma bind_tags_no_paths:
  assumes "us_server s \<noteq> None" "list_all (\<lambda>(i, t). tag_node_path t = []) specs"
  shows "\<exists>s' st'. bind_tags nodes h s st specs = (s', st', Ok ())"
proof -
  define s0 where "s0 = (if us_has_store s \<and> us_subscription s \<noteq> 0 then s\<lparr>us_subscription := 0\<rparr> else s)\<lparr>us_has_store := True\<rparr>"
  obtain t where "bind_specs nodes specs s0 = (t, Ok ())"
    using bind_specs_no_paths [OF assms(2), of nodes s0] by (cases "bind_specs nodes specs s0") auto
  then show ?thesis using assms(1) by (simp add: bind_tags_def Let_def s0_def [symmetric] split: prod.split)
qed

lemma lab_tags:
  "list_all (\<lambda>(i, t). tag_node_path t = [])
     (map (\<lambda>b. (tb_id b, tb_tag b)) (ri_tags (build ((expand_device_profiles demo_project)\<lparr>prj_opcua := ua\<rparr>))))"
  by (simp add: build_def expand_demo) (simp add: demo_project_def demo_tag_def default_tag_def build_tag_def emplace_def)

lemma lab_app_config:
  "\<exists>c url. start_config lab_lib files (pki_options lab_options (identity_overlay lab_options (prj_opcua demo_project)))
     ((expand_device_profiles demo_project)\<lparr>prj_opcua := identity_overlay lab_options (prj_opcua demo_project)\<rparr>) = Ok (c, url)"
  by (simp add: start_config_def base_config_def lab_lib_def lab_options_def default_cli_options_def identity_overlay_def
      demo_project_def default_opc_ua_settings_def configure_session_pki_for_identity_def apply_identity_access_control_def
      pki_options_def Let_def wildcard_host_def)

lemma lab_gateway_starts:
  obtains a rt rt' where "init_app lab_app_env lab_options = (a, Initialised)" "app_runtime a = Some rt"
    "start (app_runtime_env lab_app_env (app_frame_log a)) rt = (rt', Ok ())"
    "ua_users (prj_opcua (sr_project rt)) = [\<lparr>user_username = ''op'', user_password = ''pw''\<rparr>]"
proof -
  obtain a where a: "init_app lab_app_env lab_options = (a, Initialised)"
    using lab_init by (cases "init_app lab_app_env lab_options") auto
  let ?ua = "identity_overlay lab_options (prj_opcua demo_project)" and ?e = "app_runtime_env lab_app_env (app_frame_log a)"
  have on: "cli_enable_opcua lab_options" by (simp add: lab_options_def default_cli_options_def)
  have env: "ae_content lab_app_env = (\<lambda>p. Some ''{demo}'')" "ae_load lab_app_env = demo_env" "ae_ua_lib lab_app_env = lab_lib"
    "ae_ua_nodes lab_app_env = lab_nodes" by (simp_all add: lab_app_env_def)
  obtain rt where rt: "app_runtime a = Some rt" "\<not> sr_started rt" "d_index (sr_disp rt) = build (sr_project rt)"
    "sr_project rt = (expand_device_profiles demo_project)\<lparr>prj_opcua := ?ua\<rparr>"
    "sr_opcua rt = Some (new_ua_server (ae_ua_config lab_app_env) (pki_options lab_options ?ua))"
  proof (rule init_app_Initialised [OF a])
    fix path content rt and r :: load_result
    assume l: "ae_content lab_app_env path = Some content" "load_json_text (ae_load lab_app_env) content path = Inr r" "lr_ok r"
      and *: "app_runtime a = Some rt" "\<not> sr_started rt" "d_index (sr_disp rt) = build (sr_project rt)"
      "sr_project rt = (lr_project r)\<lparr>prj_opcua := identity_overlay lab_options (prj_opcua (lr_project r))\<rparr>"
      "sr_opcua rt = (if cli_enable_opcua lab_options then Some (new_ua_server (ae_ua_config lab_app_env) (pki_options lab_options (prj_opcua (sr_project rt)))) else None)"
    have "lr_project r = expand_device_profiles demo_project"
      using l(2) by (cases rule: load_json_text_Inr) (use l(1,3) in \<open>auto simp: env demo_env_def parse_demo\<close>)
    then show thesis using that * on by simp
  qed
  obtain s1 where s1: "start_endpoints ?e (prj_endpoints (sr_project rt)) rt = (s1, Ok ())"
    using start_endpoints_total [of ?e "prj_endpoints (sr_project rt)" rt]
    by (cases "start_endpoints ?e (prj_endpoints (sr_project rt)) rt") (auto simp: app_runtime_env_def default_transport_factory_def)
  have i: "d_index (sr_disp s1) = build (sr_project rt)" using start_endpoints_index [of ?e "prj_endpoints (sr_project rt)" rt] s1 rt(3) by simp
  have o: "sr_opcua s1 = sr_opcua rt" "sr_project s1 = sr_project rt" using start_endpoints_opcua [OF s1] by auto
  let ?u = "set_write_handler (new_ua_server (ae_ua_config lab_app_env) (pki_options lab_options ?ua)) :: unit ua_server"
  have f: "us_server ?u = None" "us_folder_ids ?u = []" "us_security ?u = pki_options lab_options ?ua"
    by (simp_all add: set_write_handler_def new_ua_server_def)
  obtain c url where "start_config lab_lib (ae_files lab_app_env) (us_security ?u) (sr_project rt) = Ok (c, url)"
    unfolding f(3) rt(4) using lab_app_config by blast
  then obtain u where u: "ua_start lab_lib lab_nodes (ae_files lab_app_env) (Some (sr_project rt)) ?u = (u, Ok ())"
    using lab_ua_start [OF f(1,2)] by blast
  have run: "us_server u \<noteq> None" using ua_start_config_secure [OF u f(1)] by simp
  have sp: "list_all (\<lambda>(i, t). tag_node_path t = []) (map (\<lambda>b. (tb_id b, tb_tag b)) (ri_tags (d_index (sr_disp s1))))"
    unfolding i rt(4) by (rule lab_tags)
  obtain u' st where "bind_tags lab_nodes OpcUaHandler u (d_store (sr_disp s1))
      (map (\<lambda>b. (tb_id b, tb_tag b)) (ri_tags (d_index (sr_disp s1)))) = (u', st, Ok ())"
    using bind_tags_no_paths [OF run sp, of lab_nodes OpcUaHandler "d_store (sr_disp s1)"] by blast
  then have "snd (start ?e rt) = Ok ()"
    using s1 rt(2,5) o u by (simp add: start_def start_opcua_def app_runtime_env_def env Let_def)
  moreover have "ua_users ?ua = [\<lparr>user_username = ''op'', user_password = ''pw''\<rparr>]"
    by (simp add: identity_overlay_fields demo_project_def lab_options_def default_cli_options_def)
  ultimately show thesis using that [OF a rt(1)] rt(4) by (cases "start ?e rt") auto
qed



section \<open>Exit codes\<close>

lemma new_application_runtime [simp]: "app_runtime (new_application o') = None"
  by (simp add: new_application_def)

lemma run_reactor_code: "snd (run_reactor env rt a) = Some y \<Longrightarrow> y \<le> 1"
  by (auto simp: run_reactor_def Let_def split: prod.splits result.splits)

lemma run_app_code: "snd (run_app env a) = Some y \<Longrightarrow> y \<le> 1"
proof -
  have d: "snd (print_runtime_doctor rt) \<le> 1" for rt :: "('a, 'b, 'c, 'd) gateway_runtime"
    by (simp add: print_runtime_doctor_def Let_def)
  assume "snd (run_app env a) = Some y"
  then show ?thesis using d
    by (auto simp: run_app_def Let_def case_prod_unfold dest: run_reactor_code split: option.splits result.splits if_splits)
qed

text \<open>
  The exit codes of the gateway: it is 2 exactly when the initialisation refuses the command line,
  the project or a file without being asked for the help or the version, and the only codes are 0, 1
  and 2. A refusal leaves no runtime behind.
\<close>

theorem gateway_exit_codes:
  "(snd (main_gateway env args) = Some 2 \<longleftrightarrow>
      snd (init_app env (parse_cli args)) = Refused \<and> \<not> cli_help (parse_cli args) \<and> \<not> cli_version (parse_cli args)) \<and>
   snd (main_gateway env args) \<in> {None, Some 0, Some 1, Some 2} \<and>
   (snd (init_app env (parse_cli args)) = Initialised \<longleftrightarrow> app_runtime (fst (init_app env (parse_cli args))) \<noteq> None)"
proof -
  obtain a i where e: "init_app env (parse_cli args) = (a, i)" by (rule prod.exhaust)
  have h: "app_runtime (fst (init_historian env x)) = app_runtime x" for x
    by (simp add: init_historian_def Let_def split: option.split)
  have u: "app_runtime (fst (init_opcua env p x)) = app_runtime x" for p x
    by (simp add: init_opcua_def Let_def)
  have r: "snd (init_runtime env path p x) = Initialised \<longleftrightarrow> app_runtime (fst (init_runtime env path p x)) \<noteq> None" if "app_runtime x = None" for path p x
    using that h u by (auto simp: init_runtime_def refuse_def create_def Let_def case_prod_unfold split: result.split option.split)
  have r: "i = Initialised \<longleftrightarrow> app_runtime a \<noteq> None"
    if "init_runtime env path p ((new_application (parse_cli args))\<lparr>app_log := l\<rparr>) = (a, i)" for path p l a i
    using r [of "(new_application (parse_cli args))\<lparr>app_log := l\<rparr>" path p] that by simp
  have r': "i = Initialised"
    if "init_runtime env path p ((new_application (parse_cli args))\<lparr>app_log := l\<rparr>) = (a, i)" "app_runtime a = Some y" for path p l a i y
    using r [OF that(1)] that(2) by simp
  have "i = Initialised \<longleftrightarrow> app_runtime a \<noteq> None"
    using e unfolding init_app_def Let_def
    by (auto simp: refuse_def dest: r r' split: if_splits option.splits sum.splits result.splits)
  then show ?thesis using run_app_code [of env a]
    by (cases "snd (run_app env a)") (auto simp: main_gateway_def e Let_def le_Suc_eq split: init_outcome.split)
qed

end
