(* ===== verification/Asio_Reactor.thy ===== *)
theory Asio_Reactor
  imports Domain
begin

text \<open>
  The reactor of \<open>Src/adapters/asio_reactor.cpp\<close>: worker threads, one strand per endpoint, posted work
  and repeating timers. Asio is not part of the sources; what is taken from it is its documented
  contract: a strand runs one handler at a time and posted handlers of a strand in their order, a
  handler runs on a thread of \<open>io_context::run\<close>, a timer calls its handler once, not before it expires,
  and a stopped context starts no further handler.

  The state is \<open>asio_reactor\<close>: strands and repeat operations are numbered, a pending timer of an
  operation is its expiry, and a handler that has started and not ended is in \<open>ar_executing\<close> with its
  strand. \<open>asio_call\<close> are the calls of the interface, \<open>asio_exec\<close> the starts and ends of handlers.
  \<open>request_stop\<close> is taken as one step: the flag, the timers and the context stop together.
\<close>

section \<open>State\<close>

record 'w repeat_op =
  ro_id :: nat
  ro_strand :: nat
  ro_period :: int
  ro_work :: 'w
  ro_timer :: "timestamp_ms option"

datatype 'w handler = PostedWork 'w | RepeatTick nat

record 'w asio_reactor =
  ar_workers :: nat
  ar_strands :: "(string, nat) umap"
  ar_next_id :: nat
  ar_queue :: "(nat \<times> 'w) list"
  ar_repeats :: "'w repeat_op list"
  ar_executing :: "(nat \<times> 'w handler) list"
  ar_threads :: nat
  ar_stopping :: bool
  ar_running :: bool
  ar_now :: timestamp_ms

definition new_reactor :: "nat \<Rightarrow> timestamp_ms \<Rightarrow> 'w asio_reactor" where
  "new_reactor worker_threads now =
     \<lparr>ar_workers = (if worker_threads < 1 then 1 else worker_threads), ar_strands = [], ar_next_id = 0, ar_queue = [],
      ar_repeats = [], ar_executing = [], ar_threads = 0, ar_stopping = False, ar_running = False, ar_now = now\<rparr>"

section \<open>Operations\<close>

definition strand_for :: "string \<Rightarrow> 'w asio_reactor \<Rightarrow> 'w asio_reactor \<times> nat" where
  "strand_for key r = (case map_of (ar_strands r) key of
     Some s \<Rightarrow> (r, s)
   | None \<Rightarrow> (r\<lparr>ar_strands := emplace key (ar_next_id r) (ar_strands r), ar_next_id := ar_next_id r + 1\<rparr>, ar_next_id r))"

definition ensure_strand :: "string \<Rightarrow> 'w asio_reactor \<Rightarrow> 'w asio_reactor" where
  "ensure_strand key r = fst (strand_for key r)"

definition asio_post :: "string \<Rightarrow> 'w \<Rightarrow> 'w asio_reactor \<Rightarrow> 'w asio_reactor" where
  "asio_post key w r =
     (if ar_stopping r then r
      else case strand_for key r of (r, s) \<Rightarrow> r\<lparr>ar_queue := ar_queue r @ [(s, w)]\<rparr>)"

text \<open>\<open>StrandExecutor::post\<close>, for the strand an executor was made for.\<close>

definition executor_post :: "nat \<Rightarrow> 'w \<Rightarrow> 'w asio_reactor \<Rightarrow> 'w asio_reactor" where
  "executor_post s w r = (if ar_stopping r then r else r\<lparr>ar_queue := ar_queue r @ [(s, w)]\<rparr>)"

text \<open>\<open>RepeatOp::arm\<close>.\<close>

definition arm :: "nat \<Rightarrow> int \<Rightarrow> 'w asio_reactor \<Rightarrow> 'w asio_reactor" where
  "arm i delay r = r\<lparr>ar_repeats :=
     map (\<lambda>op. if ro_id op = i then op\<lparr>ro_timer := Some (ar_now r + delay)\<rparr> else op) (ar_repeats r)\<rparr>"

definition add_repeat :: "nat option \<Rightarrow> int \<Rightarrow> 'w \<Rightarrow> 'w asio_reactor \<Rightarrow> 'w asio_reactor" where
  "add_repeat strand period w r =
     (let own = ar_next_id r; i = ar_next_id r + 1;
          op = \<lparr>ro_id = i, ro_strand = (case strand of Some s \<Rightarrow> s | None \<Rightarrow> own), ro_period = period, ro_work = w, ro_timer = None\<rparr>
      in arm i 0 (r\<lparr>ar_next_id := ar_next_id r + 2, ar_repeats := ar_repeats r @ [op]\<rparr>))"

definition repeat_on_strand :: "string \<Rightarrow> int \<Rightarrow> 'w \<Rightarrow> 'w asio_reactor \<Rightarrow> 'w asio_reactor" where
  "repeat_on_strand key period w r =
     (case strand_for key r of (r, s) \<Rightarrow> add_repeat (Some s) (if period < 1 then 1 else period) w r)"

definition asio_repeat :: "int \<Rightarrow> 'w \<Rightarrow> 'w asio_reactor \<Rightarrow> 'w asio_reactor" where
  "asio_repeat period w r = add_repeat None (if period < 1 then 1 else period) w r"

definition asio_start :: "'w asio_reactor \<Rightarrow> 'w asio_reactor" where
  "asio_start r = (if ar_running r then r else r\<lparr>ar_running := True, ar_stopping := False, ar_threads := ar_workers r\<rparr>)"

definition request_stop :: "'w asio_reactor \<Rightarrow> 'w asio_reactor" where
  "request_stop r = (if ar_stopping r then r else r\<lparr>ar_stopping := True, ar_repeats := []\<rparr>)"

text \<open>The end of \<open>stop\<close> and of \<open>run_until_stop\<close>: all threads have been joined.\<close>

definition joined :: "'w asio_reactor \<Rightarrow> 'w asio_reactor" where
  "joined r = r\<lparr>ar_threads := 0, ar_running := False\<rparr>"

section \<open>Handlers\<close>

text \<open>The handler of a repeat operation after its work: it arms its timer again unless the reactor stops.\<close>

definition finish :: "'w handler \<Rightarrow> 'w asio_reactor \<Rightarrow> 'w asio_reactor" where
  "finish h r = (case h of
     PostedWork w \<Rightarrow> r
   | RepeatTick i \<Rightarrow>
       (if ar_stopping r then r
        else case find (\<lambda>op. ro_id op = i) (ar_repeats r) of Some op \<Rightarrow> arm i (ro_period op) r | None \<Rightarrow> r))"

definition may_start :: "nat \<Rightarrow> 'w asio_reactor \<Rightarrow> bool" where
  "may_start s r \<longleftrightarrow> \<not> ar_stopping r \<and> s \<notin> fst ` set (ar_executing r) \<and> length (ar_executing r) < ar_threads r"

inductive asio_exec :: "'w asio_reactor \<Rightarrow> 'w asio_reactor \<Rightarrow> bool" where
  begin_posted: "asio_exec r (r\<lparr>ar_queue := q @ q', ar_executing := (s, PostedWork w) # ar_executing r\<rparr>)"
    if "ar_queue r = q @ (s, w) # q'" "s \<notin> fst ` set q" "may_start s r"
| begin_tick: "asio_exec r (r\<lparr>ar_repeats := ops @ op\<lparr>ro_timer := None\<rparr> # ops',
      ar_executing := (ro_strand op, RepeatTick (ro_id op)) # ar_executing r\<rparr>)"
    if "ar_repeats r = ops @ op # ops'" "ro_timer op = Some t" "t \<le> ar_now r" "may_start (ro_strand op) r"
| end_handler: "asio_exec r (finish h (r\<lparr>ar_executing := es @ es'\<rparr>))"
    if "ar_executing r = es @ (s, h) # es'"

inductive asio_call :: "'w asio_reactor \<Rightarrow> 'w asio_reactor \<Rightarrow> bool" where
  "asio_call r (ensure_strand key r)"
| "asio_call r (asio_post key w r)"
| "asio_call r (executor_post s w r)"
| "asio_call r (repeat_on_strand key period w r)"
| "asio_call r (asio_repeat period w r)"
| "asio_call r (asio_start r)"
| "asio_call r (request_stop r)"
| "ar_executing r = [] \<Longrightarrow> ar_stopping r \<Longrightarrow> asio_call r (joined r)"
| "0 \<le> d \<Longrightarrow> asio_call r (r\<lparr>ar_now := ar_now r + d\<rparr>)"

inductive_cases asio_execE: "asio_exec r r'"
inductive_cases asio_callE: "asio_call r r'"

definition asio_step :: "'w asio_reactor \<Rightarrow> 'w asio_reactor \<Rightarrow> bool" where
  "asio_step r r' \<longleftrightarrow> asio_call r r' \<or> asio_exec r r'"

section \<open>Handlers of a strand never overlap\<close>

definition op_ok :: "'w asio_reactor \<Rightarrow> 'w repeat_op \<Rightarrow> bool" where
  "op_ok r op \<longleftrightarrow> 1 \<le> ro_period op \<and> ro_id op < ar_next_id r \<and>
     (ro_timer op = None \<longleftrightarrow> (ro_strand op, RepeatTick (ro_id op)) \<in> set (ar_executing r))"

definition reactor_inv :: "'w asio_reactor \<Rightarrow> bool" where
  "reactor_inv r \<longleftrightarrow>
     distinct (map fst (ar_executing r)) \<and> length (ar_executing r) \<le> ar_threads r \<and> ar_threads r \<le> ar_workers r \<and>
     (\<not> ar_running r \<longrightarrow> ar_threads r = 0) \<and>
     (ar_stopping r \<longrightarrow> list_all (\<lambda>op. ro_timer op \<noteq> None) (ar_repeats r)) \<and>
     distinct (map ro_id (ar_repeats r)) \<and> list_all (op_ok r) (ar_repeats r) \<and>
     (\<forall>s i. (s, RepeatTick i) \<in> set (ar_executing r) \<longrightarrow> i < ar_next_id r \<and>
        (\<forall>op \<in> set (ar_repeats r). ro_id op = i \<longrightarrow> ro_strand op = s))"

lemma reactor_inv_new: "reactor_inv (new_reactor n now)"
  by (simp add: reactor_inv_def new_reactor_def)

lemma strand_for_frame [simp]:
  "ar_executing (fst (strand_for k r)) = ar_executing r" "ar_repeats (fst (strand_for k r)) = ar_repeats r"
  "ar_threads (fst (strand_for k r)) = ar_threads r" "ar_workers (fst (strand_for k r)) = ar_workers r"
  "ar_running (fst (strand_for k r)) = ar_running r" "ar_next_id r \<le> ar_next_id (fst (strand_for k r))"
  "ar_stopping (fst (strand_for k r)) = ar_stopping r"
  by (simp_all add: strand_for_def split: option.split)

text \<open>The invariant depends on the fresh names only from below.\<close>

lemma reactor_inv_cong:
  assumes "reactor_inv r" "ar_executing r' = ar_executing r" "ar_repeats r' = ar_repeats r" "ar_threads r' = ar_threads r"
    "ar_workers r' = ar_workers r" "ar_running r' = ar_running r" "ar_stopping r' = ar_stopping r" "ar_next_id r \<le> ar_next_id r'"
  shows "reactor_inv r'"
  using assms by (fastforce simp: reactor_inv_def op_ok_def list_all_iff)

lemma add_repeat_inv:
  assumes "reactor_inv r" "1 \<le> period"
  shows "reactor_inv (add_repeat s period w r)"
proof -
  have f: "ro_id op < ar_next_id r" if "op \<in> set (ar_repeats r)" for op
    using assms(1) that by (auto simp: reactor_inv_def op_ok_def list_all_iff)
  then have ops: "map (\<lambda>op. if ro_id op = Suc (ar_next_id r) then op\<lparr>ro_timer := Some (ar_now r)\<rparr> else op) (ar_repeats r) = ar_repeats r"
    by (intro map_idI) (auto dest!: f)
  define op where "op = \<lparr>ro_id = Suc (ar_next_id r), ro_strand = (case s of Some s \<Rightarrow> s | None \<Rightarrow> ar_next_id r),
      ro_period = period, ro_work = w, ro_timer = Some (ar_now r)\<rparr>"
  have e: "add_repeat s period w r = r\<lparr>ar_next_id := ar_next_id r + 2, ar_repeats := ar_repeats r @ [op]\<rparr>"
    using ops by (simp add: add_repeat_def arm_def Let_def op_def cong: if_cong)
  have new: "(x, RepeatTick (Suc (ar_next_id r))) \<notin> set (ar_executing r)" for x
    using assms(1) unfolding reactor_inv_def by fastforce
  have o: "op_ok (r\<lparr>ar_next_id := ar_next_id r + 2, ar_repeats := ar_repeats r @ [op]\<rparr>) op"
    using assms new by (auto simp: op_ok_def op_def)
  have "op_ok (r\<lparr>ar_next_id := ar_next_id r + 2, ar_repeats := ar_repeats r @ [op]\<rparr>) x" if "op_ok r x" for x
    using that by (auto simp: op_ok_def)
  then show ?thesis
    using assms(1) f o unfolding e reactor_inv_def by (fastforce simp: list_all_iff op_def)
qed

lemma asio_call_inv:
  assumes "asio_call r r'" "reactor_inv r" shows "reactor_inv r'"
  using assms
proof (cases rule: asio_call.cases)
  case (4 key period w)
  have "reactor_inv (fst (strand_for key r))" using assms(2) by (rule reactor_inv_cong) simp_all
  then show ?thesis using 4 by (simp add: repeat_on_strand_def case_prod_unfold add_repeat_inv)
next
  case (8)
  then show ?thesis using assms(2) by (auto simp: reactor_inv_def joined_def op_ok_def list_all_iff)
next
  case (6)
  then show ?thesis using assms(2) by (auto simp: reactor_inv_def op_ok_def asio_start_def list_all_iff)
next
  case (7)
  then show ?thesis using assms(2) by (auto simp: reactor_inv_def request_stop_def)
qed (use assms(2) in \<open>auto simp: ensure_strand_def asio_post_def executor_post_def asio_repeat_def joined_def case_prod_unfold
    add_repeat_inv intro: reactor_inv_cong split: if_splits\<close>)

text \<open>Starting and ending handlers.\<close>

lemma begin_posted_inv:
  assumes "reactor_inv r" "may_start s r"
  shows "reactor_inv (r\<lparr>ar_queue := q, ar_executing := (s, PostedWork w) # ar_executing r\<rparr>)"
  using assms by (auto simp: reactor_inv_def may_start_def op_ok_def list_all_iff)

lemma begin_tick_inv:
  assumes "reactor_inv r" "ar_repeats r = ops @ op # ops'" "may_start (ro_strand op) r"
  shows "reactor_inv (r\<lparr>ar_repeats := ops @ op\<lparr>ro_timer := None\<rparr> # ops',
      ar_executing := (ro_strand op, RepeatTick (ro_id op)) # ar_executing r\<rparr>)" (is "reactor_inv ?r'")
proof -
  have d: "distinct (map ro_id (ops @ op # ops'))" and l: "list_all (op_ok r) (ops @ op # ops')"
    using assms(1,2) by (simp_all add: reactor_inv_def)
  have "ro_id op \<notin> ro_id ` (set ops \<union> set ops')" using d by auto
  then have "ro_id x \<noteq> ro_id op" if "x \<in> set ops \<union> set ops'" for x using that by (metis imageI)
  then have o: "op_ok r op" "\<And>x. x \<in> set ops \<union> set ops' \<Longrightarrow> op_ok r x \<and> ro_id x \<noteq> ro_id op"
    using l by (auto simp: list_all_iff)
  have "op_ok ?r' (op\<lparr>ro_timer := None\<rparr>)" "\<And>x. x \<in> set ops \<union> set ops' \<Longrightarrow> op_ok ?r' x"
    using o by (auto simp: op_ok_def)
  moreover have "ro_id op < ar_next_id r" using o(1) by (simp add: op_ok_def)
  moreover have "\<And>x. x \<in> set ops \<union> set ops' \<Longrightarrow> ro_id x \<noteq> ro_id op" using o(2) by blast
  ultimately show ?thesis
    using assms unfolding reactor_inv_def may_start_def by (auto simp: list_all_iff)
qed

lemma arm_inv:
  assumes "distinct (map fst (ar_executing r))" "length (ar_executing r) \<le> ar_threads r" "ar_threads r \<le> ar_workers r"
    "\<not> ar_running r \<longrightarrow> ar_threads r = 0" "distinct (map ro_id (ar_repeats r))" "\<not> ar_stopping r"
    and ops: "\<And>op. op \<in> set (ar_repeats r) \<Longrightarrow> op_ok r (if ro_id op = i then op\<lparr>ro_timer := Some (ar_now r + d)\<rparr> else op)"
    and ticks: "\<And>s j. (s, RepeatTick j) \<in> set (ar_executing r) \<Longrightarrow>
      j < ar_next_id r \<and> (\<forall>op \<in> set (ar_repeats r). ro_id op = j \<longrightarrow> ro_strand op = s)"
  shows "reactor_inv (arm i d r)"
proof -
  let ?f = "\<lambda>op. if ro_id op = i then op\<lparr>ro_timer := Some (ar_now r + d)\<rparr> else op"
  have f: "ar_repeats (arm i d r) = map ?f (ar_repeats r)" "ar_executing (arm i d r) = ar_executing r" "ar_threads (arm i d r) = ar_threads r"
    "ar_workers (arm i d r) = ar_workers r" "ar_running (arm i d r) = ar_running r" "ar_next_id (arm i d r) = ar_next_id r"
    "ar_stopping (arm i d r) = ar_stopping r"
    by (simp_all add: arm_def)
  have ids: "map ro_id (map ?f (ar_repeats r)) = map ro_id (ar_repeats r)" by simp
  have same: "op_ok (arm i d r) = op_ok r" by (simp add: fun_eq_iff op_ok_def f)
  have ok: "list_all (op_ok (arm i d r)) (map ?f (ar_repeats r))"
    unfolding same list.pred_map o_def unfolding list_all_iff using ops by blast
  have "j < ar_next_id r \<and> (\<forall>op \<in> set (map ?f (ar_repeats r)). ro_id op = j \<longrightarrow> ro_strand op = s)"
    if "(s, RepeatTick j) \<in> set (ar_executing r)" for s j
    using ticks [OF that] by auto
  then show ?thesis unfolding reactor_inv_def f ids using ok assms(1-6) by blast
qed

lemma end_handler_inv:
  assumes "reactor_inv r" "ar_executing r = es @ (s, h) # es'"
  shows "reactor_inv (finish h (r\<lparr>ar_executing := es @ es'\<rparr>))"
proof -
  let ?r = "r\<lparr>ar_executing := es @ es'\<rparr>"
  have base: "distinct (map fst (es @ es'))" "length (es @ es') \<le> ar_threads r" "ar_threads r \<le> ar_workers r"
    "\<not> ar_running r \<longrightarrow> ar_threads r = 0" "distinct (map ro_id (ar_repeats r))"
    "ar_stopping r \<longrightarrow> list_all (\<lambda>op. ro_timer op \<noteq> None) (ar_repeats r)"
    "\<And>s i. (s, RepeatTick i) \<in> set (es @ es') \<Longrightarrow> i < ar_next_id r \<and> (\<forall>op \<in> set (ar_repeats r). ro_id op = i \<longrightarrow> ro_strand op = s)"
    and ops: "\<And>op. op \<in> set (ar_repeats r) \<Longrightarrow> op_ok r op"
    using assms by (auto simp: reactor_inv_def list_all_iff)
  have s: "s \<notin> fst ` set (es @ es')" using assms by (auto simp: reactor_inv_def)
  show ?thesis
  proof (cases h)
    case (PostedWork w)
    then have "op_ok ?r op" if "op \<in> set (ar_repeats r)" for op using ops [OF that] assms(2) by (auto simp: op_ok_def)
    then show ?thesis using base PostedWork by (auto simp: reactor_inv_def list_all_iff finish_def)
  next
    case (RepeatTick i)
    have st: "ro_strand op = s" if "op \<in> set (ar_repeats r)" "ro_id op = i" for op
      using assms that RepeatTick by (auto simp: reactor_inv_def)
    have other: "op_ok ?r op" if "op \<in> set (ar_repeats r)" "ro_id op \<noteq> i" for op
      using ops [OF that(1)] that(2) assms(2) RepeatTick by (auto simp: op_ok_def)
    have own: "op_ok ?r (op\<lparr>ro_timer := Some t\<rparr>)" if "op \<in> set (ar_repeats r)" "ro_id op = i" for op t
      using ops [OF that(1)] st [OF that] s by (force simp: op_ok_def)
    show ?thesis
    proof (cases "ar_stopping r")
      case True
      have "ro_id op \<noteq> i" if "op \<in> set (ar_repeats r)" for op
      proof
        assume i: "ro_id op = i"
        have "ro_timer op = None" using ops [OF that] st [OF that i] i assms(2) RepeatTick by (simp add: op_ok_def)
        then show False using True base(6) that by (auto simp: list_all_iff)
      qed
      then show ?thesis using True base other assms(1) RepeatTick by (auto simp: reactor_inv_def list_all_iff finish_def)
    next
      case False
      have e: "finish h ?r = (case find (\<lambda>op. ro_id op = i) (ar_repeats r) of Some op \<Rightarrow> arm i (ro_period op) ?r | None \<Rightarrow> ?r)"
        using False RepeatTick by (simp add: finish_def)
      have a: "reactor_inv (arm i d ?r)" for d
        by (rule arm_inv) (use base own other False in auto)
      have "reactor_inv ?r" if "find (\<lambda>op. ro_id op = i) (ar_repeats r) = None"
        using that base other False by (auto simp: reactor_inv_def list_all_iff find_None_iff)
      then show ?thesis using a by (simp add: e split: option.split)
    qed
  qed
qed

lemma asio_exec_inv:
  assumes "asio_exec r r'" "reactor_inv r" shows "reactor_inv r'"
  using assms
proof (cases rule: asio_exec.cases)
  case (begin_posted q s w q')
  then show ?thesis using begin_posted_inv [OF assms(2)] by simp
next
  case (begin_tick ops op ops' t)
  then show ?thesis using begin_tick_inv [OF assms(2)] by simp
next
  case (end_handler es s h es')
  then show ?thesis using end_handler_inv [OF assms(2)] by simp
qed

lemma asio_workers: "asio_step r r' \<Longrightarrow> ar_workers r' = ar_workers r"
  unfolding asio_step_def
  by (auto elim!: asio_execE asio_callE simp: ensure_strand_def asio_post_def executor_post_def repeat_on_strand_def asio_repeat_def
      add_repeat_def arm_def asio_start_def request_stop_def joined_def finish_def case_prod_unfold Let_def
      split: handler.split option.split)


section \<open>Stopping\<close>

lemma stopping_exec:
  assumes "asio_exec r r'" "ar_stopping r"
  shows "ar_stopping r' \<and> length (ar_executing r) = Suc (length (ar_executing r')) \<and> ar_queue r' = ar_queue r"
  using assms by (auto elim!: asio_execE simp: may_start_def finish_def split: handler.split)


text \<open>A reactor with one worker that executes a tick, with posted work behind it.\<close>

definition lab_reactor :: "string asio_reactor" where
  "lab_reactor = asio_post ''e'' ''write'' (asio_start (repeat_on_strand ''e'' 500 ''poll'' (new_reactor 1 0)))"

lemma lab_reactor_value:
  "lab_reactor = \<lparr>ar_workers = 1, ar_strands = [(''e'', 0)], ar_next_id = 3, ar_queue = [(0, ''write'')],
     ar_repeats = [\<lparr>ro_id = 2, ro_strand = 0, ro_period = 500, ro_work = ''poll'', ro_timer = Some 0\<rparr>], ar_executing = [],
     ar_threads = 1, ar_stopping = False, ar_running = True, ar_now = 0\<rparr>"
  by (simp add: lab_reactor_def asio_post_def asio_start_def repeat_on_strand_def new_reactor_def strand_for_def add_repeat_def
      arm_def emplace_def Let_def)

definition lab_ticks :: "string asio_reactor" where
  "lab_ticks = lab_reactor\<lparr>ar_repeats := [\<lparr>ro_id = 2, ro_strand = 0, ro_period = 500, ro_work = ''poll'', ro_timer = None\<rparr>],
     ar_executing := [(0, RepeatTick 2)]\<rparr>"

lemma lab_tick_step: "asio_exec lab_reactor lab_ticks"
  using asio_exec.begin_tick [of lab_reactor "[]" "\<lparr>ro_id = 2, ro_strand = 0, ro_period = 500, ro_work = ''poll'', ro_timer = Some 0\<rparr>" "[]" 0]
  by (simp add: lab_ticks_def lab_reactor_value may_start_def)



end
