(* ===== verification/Runtime_Reactor.thy ===== *)
theory Runtime_Reactor
  imports Server_Runtime Asio_Reactor
begin

text \<open>
  The server runtime on its reactor: \<open>start_reactor\<close>, \<open>run_until_stop\<close> and \<open>reactor_running\<close> of
  \<open>Src/app/server_runtime.cpp\<close> over the reactor of theory \<open>Asio_Reactor\<close>. The work of the reactor is named
  by what it calls: the tick of an endpoint, the watch list, a flush of queued writes, and the
  completion of a poll, which a transport posts through the executor of its endpoint.
\<close>

section \<open>Operations\<close>

datatype runtime_work = TickEndpoint string | WatchList | FlushWrites string | Completion string

definition wire_strands :: "endpoint list \<Rightarrow> runtime_work asio_reactor \<Rightarrow> runtime_work asio_reactor" where
  "wire_strands eps r = fold (\<lambda>ep r. ensure_strand (ep_id ep) r) eps r"

definition start_ticks ::
  "('t, 'h, 'u, 'r) server_runtime \<Rightarrow> endpoint list \<Rightarrow> runtime_work asio_reactor \<Rightarrow> runtime_work asio_reactor" where
  "start_ticks s eps r =
     fold (\<lambda>ep r. repeat_on_strand (ep_id ep) (min_group_period_ms (ep_id ep) s) (TickEndpoint (ep_id ep)) r) eps r"

text \<open>\<open>watch\<close>: the period of the watch list, when there is an output for it.\<close>

definition launch_reactor ::
  "('t, 'h, 'u, 'r) runtime_env \<Rightarrow> int option \<Rightarrow> timestamp_ms \<Rightarrow> ('t, 'h, 'u, 'r) server_runtime \<Rightarrow> runtime_work asio_reactor" where
  "launch_reactor env watch now s =
     (let eps = prj_endpoints (sr_project s);
          r = start_ticks s eps (asio_start (wire_strands eps (new_reactor (choose_worker_count env s) now)))
      in case watch of Some p \<Rightarrow> if p > 0 then asio_repeat p WatchList r else r | None \<Rightarrow> r)"

definition reactor_running :: "runtime_work asio_reactor option \<Rightarrow> bool" where
  "reactor_running r = (case r of None \<Rightarrow> False | Some r \<Rightarrow> ar_running r)"

text \<open>What the runtime, its transports, a signal and the clock do to a reactor that was launched.\<close>

inductive runtime_call :: "runtime_work asio_reactor \<Rightarrow> runtime_work asio_reactor \<Rightarrow> bool" where
  post_flush: "ar_running r \<Longrightarrow> runtime_call r (asio_post e (FlushWrites e) r)"
| post_completion: "map_of (ar_strands r) e = Some s \<Longrightarrow> runtime_call r (executor_post s (Completion e) r)"
| stop_signal: "runtime_call r (request_stop r)"
| clock: "0 \<le> d \<Longrightarrow> runtime_call r (r\<lparr>ar_now := ar_now r + d\<rparr>)"

definition runtime_run :: "runtime_work asio_reactor \<Rightarrow> runtime_work asio_reactor \<Rightarrow> bool" where
  "runtime_run r r' \<longleftrightarrow> runtime_call r r' \<or> asio_exec r r'"

text \<open>\<open>run_until_stop\<close> returns when all threads have left the stopped context.\<close>

inductive run_until_stop :: "runtime_work asio_reactor option \<Rightarrow> runtime_work asio_reactor option \<Rightarrow> bool" where
  no_reactor: "run_until_stop None None"
| until_stop: "runtime_run\<^sup>*\<^sup>* (asio_start r) r' \<Longrightarrow> ar_stopping r' \<Longrightarrow> ar_executing r' = [] \<Longrightarrow> run_until_stop (Some r) (Some (joined r'))"

section \<open>Work of an endpoint stays on its strand\<close>

definition posted_ok :: "runtime_work asio_reactor \<Rightarrow> nat \<Rightarrow> runtime_work \<Rightarrow> bool" where
  "posted_ok r s w \<longleftrightarrow> (case w of FlushWrites e \<Rightarrow> map_of (ar_strands r) e = Some s | Completion e \<Rightarrow> map_of (ar_strands r) e = Some s | _ \<Rightarrow> False)"

definition repeat_ok :: "runtime_work asio_reactor \<Rightarrow> runtime_work repeat_op \<Rightarrow> bool" where
  "repeat_ok r op \<longleftrightarrow> (case ro_work op of
     TickEndpoint e \<Rightarrow> map_of (ar_strands r) e = Some (ro_strand op)
   | WatchList \<Rightarrow> ro_strand op \<notin> snd ` set (ar_strands r) \<and> ro_strand op < ar_next_id r
   | _ \<Rightarrow> False)"

definition strands_ok :: "runtime_work asio_reactor \<Rightarrow> bool" where
  "strands_ok r \<longleftrightarrow> distinct (map snd (ar_strands r)) \<and> (\<forall>s \<in> snd ` set (ar_strands r). s < ar_next_id r) \<and>
     (\<forall>op \<in> set (ar_repeats r). repeat_ok r op) \<and> (\<forall>(s, w) \<in> set (ar_queue r). posted_ok r s w) \<and>
     (\<forall>s w. (s, PostedWork w) \<in> set (ar_executing r) \<longrightarrow> posted_ok r s w)"

lemma strand_for_queue [simp]: "ar_queue (fst (strand_for k r)) = ar_queue r"
  by (simp add: strand_for_def split: option.split)

lemma strand_for_strands:
  "map_of (ar_strands (fst (strand_for k r))) k = Some (snd (strand_for k r))"
  "map_of (ar_strands r) e = Some s \<Longrightarrow> map_of (ar_strands (fst (strand_for k r))) e = Some s"
  by (auto simp: strand_for_def split: option.split)

lemma posted_ok_strand_for: "posted_ok r s w \<Longrightarrow> posted_ok (fst (strand_for k r)) s w"
  by (auto simp: posted_ok_def strand_for_strands(2) split: runtime_work.splits)

lemma repeat_ok_strand_for: "repeat_ok r op \<Longrightarrow> repeat_ok (fst (strand_for k r)) op"
  by (cases "map_of (ar_strands r) k")
    (auto simp: repeat_ok_def strand_for_def emplace_def split: runtime_work.splits)

lemma strands_ok_strand_for: "strands_ok r \<Longrightarrow> strands_ok (fst (strand_for k r))"
proof -
  assume a: "strands_ok r"
  have "distinct (map snd (ar_strands (fst (strand_for k r)))) \<and>
      (\<forall>s \<in> snd ` set (ar_strands (fst (strand_for k r))). s < ar_next_id (fst (strand_for k r)))"
    using a unfolding strands_ok_def by (cases "map_of (ar_strands r) k") (auto simp: strand_for_def emplace_def)
  then show ?thesis using a posted_ok_strand_for repeat_ok_strand_for unfolding strands_ok_def
    by (simp add: strand_for_frame) blast
qed

text \<open>The predicates look at the strands and the next name only, and at the work and strand of an operation.\<close>

lemma posted_ok_cong: "ar_strands r' = ar_strands r \<Longrightarrow> posted_ok r' = posted_ok r"
  by (intro ext) (simp add: posted_ok_def split: runtime_work.split)

lemma repeat_ok_mono:
  "repeat_ok r op' \<Longrightarrow> ar_strands r' = ar_strands r \<Longrightarrow> ar_next_id r \<le> ar_next_id r' \<Longrightarrow>
    ro_work op = ro_work op' \<Longrightarrow> ro_strand op = ro_strand op' \<Longrightarrow> repeat_ok r' op"
  by (auto simp: repeat_ok_def split: runtime_work.splits)

definition kept :: "runtime_work repeat_op list \<Rightarrow> runtime_work repeat_op \<Rightarrow> bool" where
  "kept ops op \<longleftrightarrow> (ro_work op, ro_strand op) \<in> (\<lambda>op. (ro_work op, ro_strand op)) ` set ops"

lemma keptI [intro, simp]: "op \<in> set ops \<Longrightarrow> kept ops op" "op \<in> set ops \<Longrightarrow> kept ops (op\<lparr>ro_timer := t\<rparr>)"
  by (force simp: kept_def)+

lemma strands_ok_change:
  assumes "strands_ok r" "ar_strands r' = ar_strands r" "ar_next_id r \<le> ar_next_id r'"
    "\<And>op. op \<in> set (ar_repeats r') \<Longrightarrow> kept (ar_repeats r) op \<or> repeat_ok r' op"
    "\<And>s w. (s, w) \<in> set (ar_queue r') \<Longrightarrow> (s, w) \<in> set (ar_queue r) \<or> posted_ok r s w"
    "\<And>s w. (s, PostedWork w) \<in> set (ar_executing r') \<Longrightarrow> (s, PostedWork w) \<in> set (ar_executing r) \<or> (s, w) \<in> set (ar_queue r)"
  shows "strands_ok r'"
proof -
  have "repeat_ok r' op" if "op \<in> set (ar_repeats r')" for op
  proof (cases "kept (ar_repeats r) op")
    case True
    then obtain op' where "op' \<in> set (ar_repeats r)" "ro_work op = ro_work op'" "ro_strand op = ro_strand op'"
      by (auto simp: kept_def)
    then show ?thesis using assms(1-3) repeat_ok_mono [of r op' r' op] by (simp add: strands_ok_def)
  qed (use assms(4) that in blast)
  moreover have "\<forall>(s, w) \<in> set (ar_queue r'). posted_ok r s w" "\<forall>s w. (s, PostedWork w) \<in> set (ar_executing r') \<longrightarrow> posted_ok r s w"
    using assms(1,5,6) unfolding strands_ok_def by blast+
  moreover have "\<forall>s \<in> snd ` set (ar_strands r). s < ar_next_id r'"
    using assms(1,3) unfolding strands_ok_def by (meson less_le_trans)
  ultimately show ?thesis
    using assms(1) unfolding strands_ok_def posted_ok_cong [OF assms(2)] assms(2) by blast
qed

lemma arm_fields [simp]:
  "ar_strands (arm i d r) = ar_strands r" "ar_next_id (arm i d r) = ar_next_id r" "ar_queue (arm i d r) = ar_queue r"
  "ar_executing (arm i d r) = ar_executing r" "ar_running (arm i d r) = ar_running r" "ar_stopping (arm i d r) = ar_stopping r"
  "ar_threads (arm i d r) = ar_threads r" "ar_workers (arm i d r) = ar_workers r"
  by (simp_all add: arm_def)

lemma strands_ok_arm: "strands_ok r \<Longrightarrow> strands_ok (arm i d r)"
  by (erule strands_ok_change) (auto simp: arm_def split: if_splits)

lemma strands_ok_add_repeat:
  assumes "strands_ok r" "repeat_ok (r\<lparr>ar_next_id := ar_next_id r + 2\<rparr>)
      \<lparr>ro_id = ar_next_id r + 1, ro_strand = (case s of Some s \<Rightarrow> s | None \<Rightarrow> ar_next_id r), ro_period = p, ro_work = w, ro_timer = None\<rparr>"
  shows "strands_ok (add_repeat s p w r)"
proof -
  let ?op = "\<lparr>ro_id = ar_next_id r + 1, ro_strand = (case s of Some s \<Rightarrow> s | None \<Rightarrow> ar_next_id r), ro_period = p, ro_work = w, ro_timer = None\<rparr>"
  have "repeat_ok (r\<lparr>ar_next_id := ar_next_id r + 2, ar_repeats := ar_repeats r @ [?op]\<rparr>) ?op"
    by (rule repeat_ok_mono [OF assms(2)]) simp_all
  then have "strands_ok (r\<lparr>ar_next_id := ar_next_id r + 2, ar_repeats := ar_repeats r @ [?op]\<rparr>)"
    by (intro strands_ok_change [OF assms(1)]) auto
  then show ?thesis by (simp add: add_repeat_def Let_def strands_ok_arm)
qed

lemma strands_ok_tick: "strands_ok r \<Longrightarrow> strands_ok (repeat_on_strand e p (TickEndpoint e) r)"
  unfolding repeat_on_strand_def case_prod_unfold
  by (intro strands_ok_add_repeat strands_ok_strand_for) (simp_all add: repeat_ok_def strand_for_strands)

lemma strands_ok_watch: "strands_ok r \<Longrightarrow> strands_ok (asio_repeat p WatchList r)"
  unfolding asio_repeat_def
  by (intro strands_ok_add_repeat) (auto simp: repeat_ok_def strands_ok_def)

lemma strands_ok_call: "runtime_call r r' \<Longrightarrow> strands_ok r \<Longrightarrow> strands_ok r'"
proof (induction rule: runtime_call.induct)
  case (post_flush r e)
  have s: "strands_ok (fst (strand_for e r))" by (rule strands_ok_strand_for [OF post_flush(2)])
  have "strands_ok ((fst (strand_for e r))\<lparr>ar_queue := ar_queue r @ [(snd (strand_for e r), FlushWrites e)]\<rparr>)"
    by (rule strands_ok_change [OF s]) (auto simp: posted_ok_def strand_for_strands(1))
  then show ?case using post_flush by (simp add: asio_post_def case_prod_unfold)
next
  case (post_completion r e s)
  then show ?case unfolding executor_post_def
    by - (rule strands_ok_change [of r], auto simp: posted_ok_def split: if_splits)
next
  case (stop_signal r)
  then show ?case unfolding request_stop_def by - (rule strands_ok_change [of r], auto split: if_splits)
next
  case (clock d r)
  then show ?case by - (rule strands_ok_change [of r], auto)
qed

lemma strands_ok_exec: "asio_exec r r' \<Longrightarrow> strands_ok r \<Longrightarrow> strands_ok r'"
proof (induction rule: asio_exec.induct)
  case (begin_posted r q s w q')
  then show ?case by - (rule strands_ok_change [of r], auto)
next
  case (begin_tick r ops op ops' t)
  then show ?case by - (rule strands_ok_change [of r], auto)
next
  case (end_handler r es s h es')
  have e: "strands_ok (r\<lparr>ar_executing := es @ es'\<rparr>)"
    using end_handler by - (rule strands_ok_change [of r], auto)
  then show ?case by (simp add: finish_def strands_ok_arm split: handler.split option.split)
qed

section \<open>The launched reactor\<close>

lemma fold_keeps: "(\<And>x r. P r \<Longrightarrow> P (f x r)) \<Longrightarrow> P r \<Longrightarrow> P (fold f xs r)"
  by (induction xs arbitrary: r) simp_all

lemma launch_keeps:
  assumes "P (new_reactor (choose_worker_count env s) now)" "\<And>e r. P r \<Longrightarrow> P (ensure_strand e r)" "\<And>r. P r \<Longrightarrow> P (asio_start r)"
    "\<And>e p r. P r \<Longrightarrow> P (repeat_on_strand e p (TickEndpoint e) r)" "\<And>p r. P r \<Longrightarrow> P (asio_repeat p WatchList r)"
  shows "P (launch_reactor env watch now s)"
proof -
  have w: "P (wire_strands eps r)" if "P r" for eps r
    unfolding wire_strands_def by (rule fold_keeps [of P, OF _ that]) (rule assms(2))
  have t: "P (start_ticks s eps r)" if "P r" for eps r
    unfolding start_ticks_def by (rule fold_keeps [of P, OF _ that]) (rule assms(4))
  have "P (start_ticks s eps (asio_start (wire_strands eps (new_reactor (choose_worker_count env s) now))))" for eps
    by (rule t, rule assms(3), rule w, rule assms(1))
  then show ?thesis using assms(5) by (simp add: launch_reactor_def Let_def split: option.split)
qed

lemma launch_inv: "reactor_inv (launch_reactor env watch now s)"
  by (rule launch_keeps) (auto intro: reactor_inv_new asio_call_inv asio_call.intros)

lemma launch_strands: "strands_ok (launch_reactor env watch now s)"
proof (rule launch_keeps)
  show "strands_ok (new_reactor (choose_worker_count env s) now)" by (simp add: strands_ok_def new_reactor_def)
  show "strands_ok (ensure_strand e r)" if "strands_ok r" for e r
    using that by (simp add: ensure_strand_def strands_ok_strand_for)
  show "strands_ok (asio_start r)" if "strands_ok r" for r
    unfolding asio_start_def by (rule strands_ok_change [OF that]) (auto split: if_splits)
qed (simp_all add: strands_ok_tick strands_ok_watch)

definition works :: "runtime_work asio_reactor \<Rightarrow> (runtime_work \<times> int) set" where
  "works r = set (map (\<lambda>op. (ro_work op, ro_period op)) (ar_repeats r))"

lemma works_arm [simp]: "works (arm i d r) = works r"
  unfolding works_def arm_def by (rule arg_cong [of _ _ set]) simp

lemma works_add: "works (add_repeat st p w r) = insert (w, p) (works r)"
proof -
  let ?op = "\<lparr>ro_id = ar_next_id r + 1, ro_strand = (case st of Some s \<Rightarrow> s | None \<Rightarrow> ar_next_id r), ro_period = p, ro_work = w, ro_timer = None\<rparr>"
  have "works (r\<lparr>ar_next_id := ar_next_id r + 2, ar_repeats := ar_repeats r @ [?op]\<rparr>) = insert (w, p) (works r)"
    by (simp add: works_def)
  then show ?thesis by (simp add: add_repeat_def Let_def)
qed

lemma works_tick: "works (repeat_on_strand e p w r) = insert (w, max 1 p) (works r)"
  by (simp add: repeat_on_strand_def case_prod_unfold works_add) (auto simp: works_def)

lemma works_start_ticks:
  "works (start_ticks s eps r) = works r \<union> (\<lambda>ep. (TickEndpoint (ep_id ep), max 1 (min_group_period_ms (ep_id ep) s))) ` set eps"
  by (induction eps arbitrary: r) (auto simp: start_ticks_def works_tick)

lemma launch_works:
  "(\<lambda>ep. (TickEndpoint (ep_id ep), max 1 (min_group_period_ms (ep_id ep) s))) ` set (prj_endpoints (sr_project s))
     \<subseteq> works (launch_reactor env watch now s)"
  by (auto simp: launch_reactor_def Let_def works_start_ticks asio_repeat_def works_add split: option.split)

lemma works_exec: "asio_exec r r' \<Longrightarrow> works r' = works r"
proof (induction rule: asio_exec.induct)
  case (end_handler r es s h es')
  have "works (r\<lparr>ar_executing := es @ es'\<rparr>) = works r" by (simp add: works_def)
  then show ?case by (simp add: finish_def split: handler.split option.split)
qed (simp_all add: works_def)

lemma runtime_run_keeps:
  assumes "runtime_run r r'" "reactor_inv r" "strands_ok r" "ar_stopping r \<or> T \<subseteq> works r"
  shows "reactor_inv r' \<and> strands_ok r' \<and> (ar_stopping r' \<or> T \<subseteq> works r')"
proof (cases "asio_exec r r'")
  case True
  have "ar_stopping r' = ar_stopping r" using True
    by (induction rule: asio_exec.induct) (simp_all add: finish_def split: handler.split option.split)
  then show ?thesis using assms True by (simp add: asio_exec_inv strands_ok_exec works_exec)
next
  case False
  then have c: "runtime_call r r'" using assms(1) by (simp add: runtime_run_def)
  then have "asio_call r r'" by (induction rule: runtime_call.induct) (simp_all add: asio_call.intros)
  moreover have "ar_stopping r' \<or> T \<subseteq> works r'" using c assms(4)
    by (induction rule: runtime_call.induct)
      (auto simp: asio_post_def executor_post_def request_stop_def works_def case_prod_unfold)
  ultimately show ?thesis using asio_call_inv assms(2) strands_ok_call [OF c assms(3)] by blast
qed

lemma runtime_reach:
  assumes "runtime_run\<^sup>*\<^sup>* r r'" "reactor_inv r" "strands_ok r" "T \<subseteq> works r"
  shows "reactor_inv r' \<and> strands_ok r' \<and> (ar_stopping r' \<or> T \<subseteq> works r')"
  using assms by (induction rule: rtranclp_induct) (auto dest: runtime_run_keeps)


lemma run_until_stop_rests:
  "run_until_stop r r' \<Longrightarrow> \<not> reactor_running r' \<and> (\<forall>a. r' = Some a \<longrightarrow> ar_executing a = [] \<and> ar_threads a = 0 \<and> ar_stopping a)"
  by (induction rule: run_until_stop.induct) (simp_all add: reactor_running_def joined_def)


end
