(* ===== verification/Import_Csv.thy ===== *)
theory Import_Csv
  imports Load
begin

text \<open>
  \<open>Src/project/import_csv.cpp\<close>: a CSV register map becomes a draft project. Exceptions are \<open>Inl\<close> with
  their text. Fields are evaluated in the order in which the code reads them, so the first of several
  errors is the one reported. \<open>std::stod\<close> is modelled for decimal and hexadecimal numbers, infinities
  and NaN: the value is the correctly rounded one, and it throws (\<open>None\<close>) when there is no number, on
  overflow, and when a subnormal result is not exact.
\<close>

section \<open>Exceptions\<close>

fun bindE :: "'e + 'a \<Rightarrow> ('a \<Rightarrow> 'e + 'b) \<Rightarrow> 'e + 'b" where
  "bindE (Inl e) k = Inl e"
| "bindE (Inr x) k = k x"

lemma bindE_Inr: "bindE m k = Inr y \<longleftrightarrow> (\<exists>x. m = Inr x \<and> k x = Inr y)"
  by (cases m) auto

section \<open>Reading doubles\<close>

definition lower :: "char \<Rightarrow> char" where
  "lower c = (let n = of_char c :: nat in if 65 \<le> n \<and> n \<le> 90 then char_of (n + 32) else c)"

fun hex_value :: "char \<Rightarrow> nat option" where
  "hex_value c = (let n = of_char c :: nat in
     if 48 \<le> n \<and> n \<le> 57 then Some (n - 48)
     else if 97 \<le> n \<and> n \<le> 102 then Some (n - 87)
     else if 65 \<le> n \<and> n \<le> 70 then Some (n - 55) else None)"

definition dec_value :: "char \<Rightarrow> nat option" where
  "dec_value c = (if is_digit c then Some (digit_value c) else None)"

text \<open>Digits, a point and digits: the value of all digits, the number of them after the point and the rest.\<close>

definition read_mantissa :: "(char \<Rightarrow> nat option) \<Rightarrow> nat \<Rightarrow> string \<Rightarrow> (nat \<times> nat \<times> string) option" where
  "read_mantissa dv base s =
     (let isd = (\<lambda>c. dv c \<noteq> None); ip = takeWhile isd s; r = dropWhile isd s;
          val = (\<lambda>ds. foldl (\<lambda>v c. v * base + get_or (dv c) 0) 0 ds)
      in case r of
           c # r' \<Rightarrow>
             if c = CHR ''.'' then
               let fr = takeWhile isd r' in
               if ip = [] \<and> fr = [] then None else Some (val (ip @ fr), length fr, dropWhile isd r')
             else if ip = [] then None else Some (val ip, 0, r)
         | [] \<Rightarrow> if ip = [] then None else Some (val ip, 0, []))"

text \<open>An exponent after its letter; without digits nothing is consumed.\<close>

definition read_exponent :: "char \<Rightarrow> string \<Rightarrow> int \<times> string" where
  "read_exponent l s = (case s of
     c # r \<Rightarrow>
       if lower c = l then
         (case read_sign r of (neg, r') \<Rightarrow>
            let ds = takeWhile is_digit r' in
            if ds = [] then (0, s)
            else ((if neg then - int (digits_value ds) else int (digits_value ds)), dropWhile is_digit r'))
       else (0, s)
   | [] \<Rightarrow> (0, []))"

text \<open>The double nearest to \<open>a / b\<close>, unless the range error of \<open>strtod\<close> makes \<open>stod\<close> throw.\<close>

definition stod_round :: "bool \<Rightarrow> nat \<Rightarrow> nat \<Rightarrow> fp option" where
  "stod_round neg a b = (case fp_round binary64 neg a b of
     FNum s m e \<Rightarrow>
       if m < 2 ^ 52 \<and> m * b * 2 ^ nat e \<noteq> a * 2 ^ nat (- e) then None else Some (FNum s m e)
   | _ \<Rightarrow> None)"

text \<open>\<open>nan\<close> may be followed by letters, digits and underscores in parentheses.\<close>

definition drop_nan_payload :: "string \<Rightarrow> string" where
  "drop_nan_payload s =
     (let isp = (\<lambda>c. is_digit c \<or> c = CHR ''_'' \<or> (let n = of_char (lower c) :: nat in 97 \<le> n \<and> n \<le> 122))
      in case s of
           c # r \<Rightarrow> if c = CHR ''('' \<and> take 1 (dropWhile isp r) = '')'' then drop 1 (dropWhile isp r) else s
         | [] \<Rightarrow> [])"

definition stod :: "string \<Rightarrow> (fp \<times> string) option" where
  "stod s = (case read_sign (ltrim s) of (neg, r) \<Rightarrow>
     if map lower (take 8 r) = ''infinity'' then Some (FInf neg, drop 8 r)
     else if map lower (take 3 r) = ''inf'' then Some (FInf neg, drop 3 r)
     else if map lower (take 3 r) = ''nan'' then Some (FNaN, drop_nan_payload (drop 3 r))
     else case (if map lower (take 2 r) = ''0x'' then read_mantissa hex_value 16 (drop 2 r) else None) of
       Some (m, k, r') \<Rightarrow>
         (case read_exponent (CHR ''p'') r' of (e, r'') \<Rightarrow>
            let x = e - 4 * int k in
            map_option (\<lambda>v. (v, r'')) (stod_round neg (m * 2 ^ nat x) (2 ^ nat (- x))))
     | None \<Rightarrow> (case read_mantissa dec_value 10 r of
         None \<Rightarrow> None
       | Some (m, k, r') \<Rightarrow>
           (case read_exponent (CHR ''e'') r' of (e, r'') \<Rightarrow>
              let x = e - int k in
              map_option (\<lambda>v. (v, r'')) (stod_round neg (m * 10 ^ nat x) (10 ^ nat (- x))))))"

section \<open>Lines and fields\<close>

definition strip_utf8_bom :: "string \<Rightarrow> string" where
  "strip_utf8_bom s = (if take 3 s = [CHR 0xEF, CHR 0xBB, CHR 0xBF] then drop 3 s else s)"

abbreviation quote :: char where "quote \<equiv> CHR 0x22"

fun csv_scan :: "bool \<Rightarrow> string \<Rightarrow> string \<Rightarrow> string + string list" where
  "csv_scan in_quotes current [] =
     (if in_quotes then Inl ''CSV: unterminated quoted field'' else Inr [current])"
| "csv_scan True current (c # s) =
     (if c = quote
      then (case s of
              d # s' \<Rightarrow> if d = quote then csv_scan True (current @ [quote]) s' else csv_scan False current s
            | [] \<Rightarrow> csv_scan False current s)
      else csv_scan True (current @ [c]) s)"
| "csv_scan False current (c # s) =
     (if c = quote then csv_scan True current s
      else if c = CHR '','' then bindE (csv_scan False [] s) (\<lambda>fs. Inr (current # fs))
      else if c = CHR 0x0D then csv_scan False current s
      else csv_scan False (current @ [c]) s)"

definition parse_csv_line :: "string \<Rightarrow> string + string list" where
  "parse_csv_line line = csv_scan False [] line"

definition parse_bool :: "string \<Rightarrow> string \<Rightarrow> string + bool" where
  "parse_bool raw column =
     (let v = trim raw
      in if v \<in> set [''true'', ''TRUE'', ''True'', ''1'', ''yes'', ''YES''] then Inr True
         else if v \<in> set [''false'', ''FALSE'', ''False'', ''0'', ''no'', ''NO'', []] then Inr False
         else Inl (quoted ''CSV: invalid boolean in '' column ('': '' @ v)))"

definition parse_int :: "string \<Rightarrow> string \<Rightarrow> string + int" where
  "parse_int raw column =
     (let v = trim raw
      in case read_int (- (2 ^ 31)) (2 ^ 31 - 1) v of
           Some (n, []) \<Rightarrow> Inr n
         | _ \<Rightarrow> Inl (quoted ''CSV: invalid integer in '' column ('': '' @ v)))"

definition parse_double :: "string \<Rightarrow> string \<Rightarrow> string + fp" where
  "parse_double raw column =
     (let v = trim raw
      in if v = [] then Inr fp_zero64
         else case stod v of
           Some (x, []) \<Rightarrow> Inr x
         | _ \<Rightarrow> Inl (quoted ''CSV: invalid number in '' column ('': '' @ v)))"

section \<open>Rows\<close>

record import_csv_options =
  io_project_name :: string
  io_device_id :: string
  io_endpoint_id :: string
  io_unit_id :: int
  io_group :: string
  io_host :: string
  io_port :: u16

definition default_import_csv_options :: import_csv_options where
  "default_import_csv_options = \<lparr>io_project_name = ''csv-import'', io_device_id = ''csv-device'',
     io_endpoint_id = ''csv-endpoint'', io_unit_id = 1, io_group = ''csv-imported'', io_host = ''127.0.0.1'', io_port = 502\<rparr>"

definition kAreas :: "string list" where
  "kAreas = [''holding'', ''input'', ''coil'', ''discrete'']"

definition kTypes :: "string list" where
  "kTypes = [''bool'', ''uint16'', ''int16'', ''uint32'', ''int32'', ''float32'', ''float64'']"

definition kByteOrders :: "string list" where
  "kByteOrders = [[], ''ABCD'', ''CDAB'', ''BADC'', ''DCBA'', ''AB'', ''BA'']"

definition csv_field :: "string list \<Rightarrow> (string, nat) umap \<Rightarrow> string \<Rightarrow> bool \<Rightarrow> string + string" where
  "csv_field row cols name req = (case map_of cols name of
     None \<Rightarrow> if req then Inl (quoted ''CSV: missing required column '' name []) else Inr []
   | Some i \<Rightarrow> Inr (if i \<ge> length row then [] else row ! i))"

definition optional_member :: "string \<Rightarrow> string \<Rightarrow> json \<Rightarrow> json" where
  "optional_member k v j = (if v = [] then j else set_member k (JString v) j)"

text \<open>The JSON object of a tag.\<close>

definition csv_tag_json ::
  "import_csv_options \<Rightarrow> string \<Rightarrow> string \<Rightarrow> string \<Rightarrow> string \<Rightarrow> int \<Rightarrow> bool \<Rightarrow> string \<Rightarrow> fp \<Rightarrow> fp \<Rightarrow> string \<Rightarrow>
     string \<Rightarrow> string \<Rightarrow> int option \<Rightarrow> json" where
  "csv_tag_json opts name area ty order address writable node_path scale offset un grp desc quantity =
     (let j = JObject [(''name'', JString name), (''area'', JString area), (''address'', JInt address),
                (''type'', JString ty), (''writable'', JBool writable)];
          j = set_member ''nodePath'' (JString (if node_path = [] then ''Plant/'' @ name else node_path)) j;
          j = optional_member ''byteOrder'' order j;
          j = set_member ''offset'' (JFloat offset) (set_member ''scale'' (JFloat scale) j);
          j = optional_member ''unit'' un j;
          j = optional_member ''group'' (if grp = [] then io_group opts else grp) j;
          j = optional_member ''description'' desc j
      in case quantity of None \<Rightarrow> j | Some q \<Rightarrow> set_member ''quantity'' (JInt q) j)"

definition tag_json_from_row ::
  "string list \<Rightarrow> (string, nat) umap \<Rightarrow> import_csv_options \<Rightarrow> string + json" where
  "tag_json_from_row row cols opts =
     bindE (csv_field row cols ''name'' True) (\<lambda>name. let name = trim name in
     if name = [] then Inl ''CSV: tag name is required'' else
     bindE (csv_field row cols ''area'' True) (\<lambda>area. let area = trim area in
     if area \<notin> set kAreas then Inl (quoted ''CSV: unknown area '' area (quoted '' for tag '' name [])) else
     bindE (csv_field row cols ''type'' True) (\<lambda>ty. let ty = trim ty in
     if ty \<notin> set kTypes then Inl (quoted ''CSV: unknown type '' ty (quoted '' for tag '' name [])) else
     bindE (csv_field row cols ''byteOrder'' True) (\<lambda>order. let order = trim order in
     if order \<notin> set kByteOrders then Inl (quoted ''CSV: invalid byteOrder '' order (quoted '' for tag '' name [])) else
     bindE (csv_field row cols ''address'' True) (\<lambda>address. bindE (parse_int address ''address'') (\<lambda>address.
     bindE (csv_field row cols ''writable'' True) (\<lambda>writable. bindE (parse_bool writable ''writable'') (\<lambda>writable.
     bindE (csv_field row cols ''nodePath'' False) (\<lambda>node_path. let node_path = trim node_path in
     bindE (csv_field row cols ''scale'' True) (\<lambda>scale.
     bindE (if trim scale = [] then Inr fp_one else parse_double scale ''scale'') (\<lambda>scale.
     bindE (csv_field row cols ''offset'' True) (\<lambda>offset. bindE (parse_double offset ''offset'') (\<lambda>offset.
     bindE (csv_field row cols ''unit'' True) (\<lambda>un. let un = trim un in
     bindE (csv_field row cols ''group'' False) (\<lambda>grp. let grp = trim grp in
     bindE (csv_field row cols ''description'' False) (\<lambda>desc. let desc = trim desc in
     bindE (csv_field row cols ''quantity'' False) (\<lambda>quantity. let quantity = trim quantity in
     bindE (if quantity = [] then Inr None
            else bindE (parse_int quantity ''quantity'') (\<lambda>q. Inr (Some q))) (\<lambda>quantity.
     Inr (csv_tag_json opts name area ty order address writable node_path scale offset un grp desc quantity)))))))))))))))))))"

section \<open>The import\<close>

text \<open>\<open>std::getline\<close> until the end of the text.\<close>

fun csv_lines :: "string \<Rightarrow> string \<Rightarrow> string list" where
  "csv_lines cur [] = (if cur = [] then [] else [cur])"
| "csv_lines cur (c # s) = (if c = CHR 0x0A then cur # csv_lines [] s else csv_lines (cur @ [c]) s)"

definition required_columns :: "string list" where
  "required_columns = [''name'', ''area'', ''address'', ''type'', ''byteOrder'', ''scale'', ''offset'', ''unit'', ''writable'']"

fun header_columns :: "nat \<Rightarrow> string list \<Rightarrow> (string, nat) umap \<Rightarrow> (string, nat) umap" where
  "header_columns i [] cols = cols"
| "header_columns i (f # fs) cols =
     header_columns (i + 1) fs (if trim f = [] then cols else AList.update (trim f) i cols)"

definition csv_header :: "string list \<Rightarrow> string + (string, nat) umap" where
  "csv_header row =
     (let cols = header_columns 0 row []
      in case find (\<lambda>c. map_of cols c = None) required_columns of
           Some c \<Rightarrow> Inl (quoted ''CSV: missing required header column '' c [])
         | None \<Rightarrow> Inr cols)"

text \<open>The names taken so far are those of the tags already made.\<close>

definition csv_row ::
  "nat \<Rightarrow> string list \<Rightarrow> (string, nat) umap \<Rightarrow> import_csv_options \<Rightarrow> (string \<times> json) list \<Rightarrow>
     string + (string \<times> json) list" where
  "csv_row row_no row cols opts tags =
     (case bindE (tag_json_from_row row cols opts) (\<lambda>j.
             let name = get_or (string_at j ''name'') [] in
             if name \<in> set (map fst tags) then Inl (quoted ''duplicate tag name '' name [])
             else Inr (tags @ [(name, j)])) of
        Inl what \<Rightarrow> Inl (''CSV row '' @ show_nat row_no @ '': '' @ what)
      | Inr tags \<Rightarrow> Inr tags)"

fun csv_rows ::
  "import_csv_options \<Rightarrow> nat \<Rightarrow> string list \<Rightarrow> (string, nat) umap option \<Rightarrow> (string \<times> json) list \<Rightarrow>
     string + (string, nat) umap option \<times> (string \<times> json) list" where
  "csv_rows opts n [] cols tags = Inr (cols, tags)"
| "csv_rows opts n (line # ls) cols tags =
     (let line = (if line \<noteq> [] \<and> last line = CHR 0x0D then butlast line else line);
          stripped = trim line
      in if stripped = [] \<or> hd stripped = CHR ''#'' then csv_rows opts (n + 1) ls cols tags
         else bindE (parse_csv_line line) (\<lambda>row. case cols of
           None \<Rightarrow> bindE (csv_header row) (\<lambda>cols. csv_rows opts (n + 1) ls (Some cols) tags)
         | Some cs \<Rightarrow> bindE (csv_row (n + 1) row cs opts tags) (\<lambda>tags. csv_rows opts (n + 1) ls cols tags)))"

definition csv_project :: "import_csv_options \<Rightarrow> (string \<times> json) list \<Rightarrow> json" where
  "csv_project opts tags = JObject [
     (''schemaVersion'', JInt 1), (''name'', JString (io_project_name opts)),
     (''description'', JString ''Imported from CSV register map. TODO: set endpoints host/port and poll periods.''),
     (''addressBase'', JInt 0),
     (''opcua'', JObject [(''endpointUrl'', JString ''opc.tcp://0.0.0.0:4840''),
        (''applicationName'', JString ''OPC_SERVER CSV Import''), (''securityPolicy'', JString ''None''),
        (''securityMode'', JString ''None''), (''namespaceUri'', JString ''urn:opc-server:csv-import'')]),
     (''endpoints'', JArray [JObject [(''id'', JString (io_endpoint_id opts)), (''host'', JString (io_host opts)),
        (''port'', JInt (uint (io_port opts))), (''transport'', JString ''tcp''), (''connectTimeoutMs'', JInt 3000),
        (''responseTimeoutMs'', JInt 1000), (''reconnectDelayMs'', JInt 2000)]]),
     (''deviceProfiles'', JArray []),
     (''devices'', JArray [JObject [(''id'', JString (io_device_id opts)), (''endpointId'', JString (io_endpoint_id opts)),
        (''unitId'', JInt (io_unit_id opts)), (''description'', JString ''Imported from CSV''),
        (''tags'', JArray (map snd tags))]]),
     (''pollGroups'', JArray [JObject [(''id'', JString (io_group opts)), (''periodMs'', JInt 1000),
        (''priority'', JString ''normal''), (''deviceId'', JString (io_device_id opts)),
        (''tagNames'', JArray (map (\<lambda>t. JString (fst t)) tags))]])]"

definition import_csv_text :: "string \<Rightarrow> import_csv_options \<Rightarrow> string + json" where
  "import_csv_text csv opts =
     (if io_unit_id opts < 0 \<or> io_unit_id opts > 255 then Inl ''import-csv: unit-id must be in [0, 255]''
      else if io_device_id opts = [] \<or> io_endpoint_id opts = []
      then Inl ''import-csv: device-id and endpoint-id must be non-empty''
      else bindE (csv_rows opts 0 (csv_lines [] (strip_utf8_bom csv)) None []) (\<lambda>(cols, tags).
        if cols = None then Inl ''CSV: missing header row''
        else if tags = [] then Inl ''CSV: no data rows''
        else Inr (csv_project opts tags)))"

section \<open>Quoted fields come back\<close>

text \<open>How a CSV writer quotes: every field in quotes, quotes inside doubled.\<close>

definition csv_quote :: "string \<Rightarrow> string" where
  "csv_quote f = quote # concat (map (\<lambda>c. if c = quote then [quote, quote] else [c]) f) @ [quote]"

fun csv_print :: "string list \<Rightarrow> string" where
  "csv_print [] = []"
| "csv_print [f] = csv_quote f"
| "csv_print (f # g # fs) = csv_quote f @ CHR '','' # csv_print (g # fs)"

lemma csv_scan_quoted:
  assumes "rest = [] \<or> hd rest \<noteq> quote"
  shows "csv_scan True cur (concat (map (\<lambda>c. if c = quote then [quote, quote] else [c]) f) @ quote # rest) =
    csv_scan False (cur @ f) rest"
  using assms by (induction f arbitrary: cur) (auto split: list.split)

lemma csv_scan_quote:
  "rest = [] \<or> hd rest \<noteq> quote \<Longrightarrow> csv_scan False [] (csv_quote f @ rest) = csv_scan False f rest"
  using csv_scan_quoted [of rest "[]" f] by (simp add: csv_quote_def)

text \<open>
  A line whose fields were all written in quotes, with quotes doubled, is split into exactly these
  fields, whatever they contain.
\<close>

theorem parse_csv_line_print: "parse_csv_line (csv_print (f # fs)) = Inr (f # fs)"
proof -
  have "csv_scan False [] (csv_print (f # fs)) = Inr (f # fs)"
  proof (induction fs arbitrary: f)
    case Nil
    then show ?case using csv_scan_quote [of "[]" f] by simp
  next
    case (Cons g fs)
    then show ?case using csv_scan_quote [of "CHR '','' # csv_print (g # fs)" f] by simp
  qed
  then show ?thesis by (simp add: parse_csv_line_def)
qed

section \<open>An imported map loads\<close>

lemma member_set_member [simp]: "is_object j \<Longrightarrow> member (set_member k v j) k' = (if k' = k then Some v else member j k')"
  by (cases j) (auto simp: set_member_def)

lemma is_object_set_member [simp]: "is_object (set_member k v j) = is_object j"
  by (cases j) (auto simp: set_member_def)

lemma optional_member_simps [simp]: "is_object (optional_member k v j) = is_object j"
  "is_object j \<Longrightarrow> member (optional_member k v j) k' = (if k' = k \<and> v \<noteq> [] then Some (JString v) else member j k')"
  by (auto simp: optional_member_def)

lemma kArea_keys: "a \<in> set kAreas \<Longrightarrow> \<exists>x. map_of kArea a = Some x"
  by (auto simp: kAreas_def kArea_def)

lemma kTagType_keys: "t \<in> set kTypes \<Longrightarrow> \<exists>x. map_of kTagType t = Some x"
  by (auto simp: kTypes_def kTagType_def)

lemma csv_tag_json_members:
  fixes opts name area ty order address writable node_path scale offset un grp desc quantity
  defines "j \<equiv> csv_tag_json opts name area ty order address writable node_path scale offset un grp desc quantity"
  shows "is_object j" "member j ''name'' = Some (JString name)" "member j ''area'' = Some (JString area)"
    "member j ''address'' = Some (JInt address)" "member j ''type'' = Some (JString ty)"
  by (simp_all add: j_def csv_tag_json_def Let_def split: option.split)

text \<open>A tag object that parses without a diagnostic to a tag of the given name.\<close>

definition clean_tag :: "string \<Rightarrow> json \<Rightarrow> bool" where
  "clean_tag name j \<longleftrightarrow> name \<noteq> [] \<and> string_at j ''name'' = Some name \<and>
     (\<forall>path. snd (parse_tag j path) = [] \<and> tag_name (fst (parse_tag j path)) = name)"

lemma csv_tag_json_clean:
  assumes "name \<noteq> []" "area \<in> set kAreas" "ty \<in> set kTypes"
  shows "clean_tag name (csv_tag_json opts name area ty order address writable node_path scale offset un grp desc quantity)"
  using kArea_keys [OF assms(2)] kTagType_keys [OF assms(3)] assms(1)
  by (auto simp: clean_tag_def parse_tag_def at_defs enum_field_def parse_enum_def required_def Let_def csv_tag_json_members)

lemma tag_json_from_row_clean:
  assumes "tag_json_from_row row cols opts = Inr j" shows "\<exists>name. clean_tag name j"
  using assms unfolding tag_json_from_row_def bindE_Inr Let_def
  by (auto simp: bindE_Inr split: if_splits intro!: exI csv_tag_json_clean)

lemma csv_row_clean:
  assumes "csv_row n row cols opts tags = Inr tags'" "list_all (\<lambda>(name, j). clean_tag name j) tags" "distinct (map fst tags)"
  shows "list_all (\<lambda>(name, j). clean_tag name j) tags' \<and> distinct (map fst tags')"
  using assms tag_json_from_row_clean [of row cols opts]
  by (auto simp: csv_row_def bindE_Inr Let_def clean_tag_def split: sum.splits if_splits)

lemma csv_rows_clean:
  assumes "csv_rows opts n ls cols tags = Inr (cols', tags')"
    and "list_all (\<lambda>(name, j). clean_tag name j) tags" "distinct (map fst tags)"
  shows "list_all (\<lambda>(name, j). clean_tag name j) tags' \<and> distinct (map fst tags')"
  using assms
proof (induction opts n ls cols tags rule: csv_rows.induct)
  case (2 opts n line ls cols tags)
  define l where "l = (if line \<noteq> [] \<and> last line = CHR 0x0D then butlast line else line)"
  show ?case
  proof (cases "trim l = [] \<or> hd (trim l) = CHR ''#''")
    case True
    then have "csv_rows opts (n + 1) ls cols tags = Inr (cols', tags')"
      using "2.prems"(1) by (simp only: csv_rows.simps l_def [symmetric] Let_def if_True)
    then show ?thesis using "2.IH"(1) [OF l_def refl True] "2.prems"(2,3) by blast
  next
    case False
    from "2.prems"(1) False obtain row where row: "parse_csv_line l = Inr row"
      and rest: "(case cols of None \<Rightarrow> bindE (csv_header row) (\<lambda>cols. csv_rows opts (n + 1) ls (Some cols) tags)
         | Some cs \<Rightarrow> bindE (csv_row (n + 1) row cs opts tags) (\<lambda>tags. csv_rows opts (n + 1) ls cols tags)) = Inr (cols', tags')"
      by (auto simp only: csv_rows.simps l_def [symmetric] Let_def if_False bindE_Inr)
    show ?thesis
    proof (cases cols)
      case None
      then obtain cs where "csv_rows opts (n + 1) ls (Some cs) tags = Inr (cols', tags')"
        using rest by (auto simp: bindE_Inr)
      then show ?thesis using "2.IH"(2) [OF l_def refl False None] "2.prems"(2,3) by blast
    next
      case (Some cs)
      then obtain ts where ts: "csv_row (n + 1) row cs opts tags = Inr ts" "csv_rows opts (n + 1) ls cols ts = Inr (cols', tags')"
        using rest by (auto simp: bindE_Inr)
      then show ?thesis using "2.IH"(3) [OF l_def refl False Some ts(2)] csv_row_clean [OF ts(1)] "2.prems"(2,3) by blast
    qed
  qed
qed simp

lemma import_csv_text_Inr:
  assumes "import_csv_text csv opts = Inr doc"
  obtains tags where "doc = csv_project opts tags" "tags \<noteq> []" "list_all (\<lambda>(name, j). clean_tag name j) tags"
    "distinct (map fst tags)" "0 \<le> io_unit_id opts" "io_unit_id opts \<le> 255" "io_device_id opts \<noteq> []" "io_endpoint_id opts \<noteq> []"
proof -
  obtain cols tags where t: "csv_rows opts 0 (csv_lines [] (strip_utf8_bom csv)) None [] = Inr (cols, tags)"
    "tags \<noteq> []" "doc = csv_project opts tags"
    and o: "0 \<le> io_unit_id opts" "io_unit_id opts \<le> 255" "io_device_id opts \<noteq> []" "io_endpoint_id opts \<noteq> []"
    using assms by (auto simp: import_csv_text_def bindE_Inr split: if_splits)
  show thesis using that [OF t(3,2) _ _ o] csv_rows_clean [OF t(1)] by simp
qed

definition csv_tags :: "(string \<times> json) list \<Rightarrow> tag list" where
  "csv_tags tags = map (\<lambda>(name, j). fst (parse_tag j [])) tags"

lemma parse_tag_any_path: "fst (parse_tag j path) = fst (parse_tag j [])"
  by (auto simp: parse_tag_def required_def enum_field_def parse_enum_def Let_def split: option.split)

lemma parse_csv_tags:
  assumes "list_all (\<lambda>(name, j). clean_tag name j) tags"
  shows "parse_items (single parse_tag) base i (map snd tags) = (csv_tags tags, [])" "map tag_name (csv_tags tags) = map fst tags"
    "[] \<notin> set (map fst tags)"
proof -
  show "parse_items (single parse_tag) base i (map snd tags) = (csv_tags tags, [])"
    using assms by (induction tags arbitrary: i)
      (auto simp: csv_tags_def single_def clean_tag_def, (rule parse_tag_any_path)?)
  show "map tag_name (csv_tags tags) = map fst tags" "[] \<notin> set (map fst tags)"
    using assms by (auto simp: csv_tags_def clean_tag_def list_all_iff)
qed

lemma parse_names_strings: "parse_tag_names path (map (\<lambda>t. JString (fst t)) tags) = (map fst tags, [])"
  by (induction tags) auto

lemma parse_csv_project:
  assumes "list_all (\<lambda>(name, j). clean_tag name j) tags" "0 \<le> io_unit_id opts" "io_unit_id opts \<le> 255"
    and "io_project_name opts \<noteq> []" "io_port opts \<noteq> 0"
  shows "snd (parse_project (csv_project opts tags)) = []"
    "prj_endpoints (fst (parse_project (csv_project opts tags))) =
       [default_endpoint\<lparr>ep_id := io_endpoint_id opts, ep_host := io_host opts, ep_port := io_port opts\<rparr>]"
    "prj_devices (fst (parse_project (csv_project opts tags))) =
       [\<lparr>dev_id = io_device_id opts, dev_endpoint_id = io_endpoint_id opts, dev_unit_id = io_unit_id opts,
         dev_profile_id = [], dev_description = ''Imported from CSV'', dev_tags = csv_tags tags\<rparr>]"
    "prj_poll_groups (fst (parse_project (csv_project opts tags))) =
       [\<lparr>grp_id = io_group opts, grp_period_ms = 1000, grp_priority = Normal, grp_device_id = io_device_id opts,
         grp_blocks = [], grp_tag_names = map fst tags\<rparr>]"
    "prj_schema_version (fst (parse_project (csv_project opts tags))) = 1"
proof -
  have p: "1 \<le> uint (io_port opts)" "uint (io_port opts) \<le> 65535"
  proof -
    have "uint (io_port opts) \<noteq> 0" "0 \<le> uint (io_port opts)" "uint (io_port opts) < 65536"
      using assms(5) uint_lt2p [of "io_port opts"] by (auto simp: uint_0_iff)
    then show "1 \<le> uint (io_port opts)" "uint (io_port opts) \<le> 65535" by linarith+
  qed
  note tags = parse_csv_tags(1) [OF assms(1)]
  note e = csv_project_def parse_project_def parse_opcua_def parse_endpoint_def parse_port_def parse_device_def parse_group_def
    parse_tags_def required_items_def single_def [of parse_endpoint] required_def enum_field_def optional_enum_def
    parse_enum_def kTransport_def kSecurityPolicy_def kSecurityMode_def kPriority_def at_defs Let_def tags parse_names_strings
    default_endpoint_def
  show "snd (parse_project (csv_project opts tags)) = []" using assms(2-4) p by (simp add: e split: list.split)
  show "prj_endpoints (fst (parse_project (csv_project opts tags))) =
       [default_endpoint\<lparr>ep_id := io_endpoint_id opts, ep_host := io_host opts, ep_port := io_port opts\<rparr>]"
    using assms(2-4) p by (simp add: e split: list.split)
  show "prj_devices (fst (parse_project (csv_project opts tags))) =
       [\<lparr>dev_id = io_device_id opts, dev_endpoint_id = io_endpoint_id opts, dev_unit_id = io_unit_id opts,
         dev_profile_id = [], dev_description = ''Imported from CSV'', dev_tags = csv_tags tags\<rparr>]"
    using assms(2-4) p by (simp add: e split: list.split)
  show "prj_poll_groups (fst (parse_project (csv_project opts tags))) =
       [\<lparr>grp_id = io_group opts, grp_period_ms = 1000, grp_priority = Normal, grp_device_id = io_device_id opts,
         grp_blocks = [], grp_tag_names = map fst tags\<rparr>]"
    using assms(2-4) p by (simp add: e split: list.split)
  show "prj_schema_version (fst (parse_project (csv_project opts tags))) = 1"
    using assms(2-4) p by (simp add: e split: list.split)
qed

text \<open>
  C37: What the CSV import produces is a project the loader accepts, up to the values of single tags:
  it parses without a diagnostic to one device with at least one tag, the tags have distinct
  non-empty names, the poll group polls exactly these, and the project is valid if and only if every
  tag is. The import itself does not check address, quantity, byte order against type, or whether an
  input can be writable.
\<close>

theorem import_csv_loads:
  assumes "import_csv_text csv opts = Inr doc" "io_project_name opts \<noteq> []" "io_port opts \<noteq> 0"
  shows "snd (parse_project doc) = [] \<and>
    (\<exists>d g. prj_devices (fst (parse_project doc)) = [d] \<and> dev_id d = io_device_id opts \<and> dev_tags d \<noteq> [] \<and>
       distinct (map tag_name (dev_tags d)) \<and> [] \<notin> set (map tag_name (dev_tags d)) \<and>
       prj_poll_groups (fst (parse_project doc)) = [g] \<and> grp_tag_names g = map tag_name (dev_tags d) \<and>
       (project_ok (fst (parse_project doc)) \<longleftrightarrow> list_all tag_ok (dev_tags d)))"
  using assms(1)
proof (cases rule: import_csv_text_Inr)
  case (1 tags)
  note p = parse_csv_project [OF 1(3,5,6) assms(2,3)] and t = parse_csv_tags(2,3) [OF 1(3)]
  have "csv_tags tags \<noteq> []" using 1(2) by (simp add: csv_tags_def)
  moreover have "nonempty (map tag_name (csv_tags tags)) = map tag_name (csv_tags tags)"
    using t(2) unfolding t(1) nonempty_def filter_id_conv by blast
  moreover have "[] \<notin> set (map tag_name (csv_tags tags))" using t by simp
  ultimately show ?thesis using 1 p t
    by (auto simp del: set_map simp: project_ok_def device_ok_def group_ok_def default_endpoint_def)
qed

definition demo_csv :: string where
  "demo_csv = ''name,area,address,type,byteOrder,scale,offset,unit,writable'' @ [CHR 0x0A] @
     [quote] @ ''T1'' @ [quote] @ '',holding,7,uint16,AB,,,m,true'' @ [CHR 0x0D, CHR 0x0A]"

definition demo_row :: json where
  "demo_row = csv_tag_json default_import_csv_options ''T1'' ''holding'' ''uint16'' ''AB'' 7 True [] fp_one fp_zero64 ''m'' [] [] None"

definition demo_cols :: "(string, nat) umap" where
  "demo_cols = [(''name'', 0), (''area'', 1), (''address'', 2), (''type'', 3), (''byteOrder'', 4), (''scale'', 5), (''offset'', 6),
     (''unit'', 7), (''writable'', 8)]"

lemma demo_header: "bindE (parse_csv_line ''name,area,address,type,byteOrder,scale,offset,unit,writable'') csv_header = Inr demo_cols"
  by code_simp

lemma demo_fields: "parse_csv_line ([quote] @ ''T1'' @ [quote] @ '',holding,7,uint16,AB,,,m,true'') =
    Inr [''T1'', ''holding'', ''7'', ''uint16'', ''AB'', [], [], ''m'', ''true'']"
  by code_simp

lemma demo_tag_json: "tag_json_from_row [''T1'', ''holding'', ''7'', ''uint16'', ''AB'', [], [], ''m'', ''true''] demo_cols
    default_import_csv_options = Inr demo_row"
proof -
  have t: "trim ''T1'' = ''T1''" "trim ''holding'' = ''holding''" "trim ''uint16'' = ''uint16''" "trim ''AB'' = ''AB''"
    "trim ''m'' = ''m''" "trim [] = []" by code_simp+
  have n: "parse_int ''7'' c = Inr 7" "parse_bool ''true'' c = Inr True" for c
    by (simp_all add: parse_int_def parse_bool_def Let_def read_int_def read_digits_def trim_def is_space_def is_digit_def
        digits_value_def digit_value_def)
  show ?thesis
    by (simp add: tag_json_from_row_def csv_field_def demo_cols_def Let_def t n kAreas_def kTypes_def kByteOrders_def
        parse_double_def demo_row_def)
qed

lemma import_demo: "import_csv_text demo_csv default_import_csv_options = Inr (csv_project default_import_csv_options [(''T1'', demo_row)])"
proof -
  have l: "csv_lines [] (strip_utf8_bom demo_csv) = [''name,area,address,type,byteOrder,scale,offset,unit,writable'',
      ([quote] @ ''T1'' @ [quote] @ '',holding,7,uint16,AB,,,m,true'') @ [CHR 0x0D]]"
    by (simp add: demo_csv_def strip_utf8_bom_def)
  have t: "hd (trim ''name,area,address,type,byteOrder,scale,offset,unit,writable'') = CHR ''n''"
    "trim ''name,area,address,type,byteOrder,scale,offset,unit,writable'' \<noteq> []"
    "hd (trim ([quote] @ ''T1'' @ [quote] @ '',holding,7,uint16,AB,,,m,true'')) = quote"
    "trim ([quote] @ ''T1'' @ [quote] @ '',holding,7,uint16,AB,,,m,true'') \<noteq> []" by code_simp+
  obtain hs where h: "parse_csv_line ''name,area,address,type,byteOrder,scale,offset,unit,writable'' = Inr hs" "csv_header hs = Inr demo_cols"
    using demo_header by (auto simp: bindE_Inr)
  have r: "csv_row n [''T1'', ''holding'', ''7'', ''uint16'', ''AB'', [], [], ''m'', ''true''] demo_cols default_import_csv_options [] =
      Inr [(''T1'', demo_row)]" for n
    by (simp add: csv_row_def demo_tag_json demo_row_def string_at_def csv_tag_json_members Let_def)
  have rows: "csv_rows default_import_csv_options 0 (csv_lines [] (strip_utf8_bom demo_csv)) None [] =
      Inr (Some demo_cols, [(''T1'', demo_row)])"
    unfolding l csv_rows.simps Let_def butlast_snoc last_snoc
    using t h r demo_fields by simp
  show ?thesis unfolding import_csv_text_def rows by (simp add: default_import_csv_options_def)
qed

theorem import_csv_loads_witness:
  "snd (parse_project (csv_project default_import_csv_options [(''T1'', demo_row)])) = []"
  using import_csv_loads [OF import_demo] by (simp add: default_import_csv_options_def)

end
