(* ===== verification/Migrate_Legacy.thy ===== *)
theory Migrate_Legacy
  imports Import_Csv
begin

text \<open>
  \<open>Src/project/migrate_legacy.cpp\<close>: a legacy configuration with a \<open>Nodes\<close> object becomes a draft
  project. Objects are walked in the order of their association list, which is the order in which
  the library iterates. Exceptions are \<open>Inl\<close> with their text. The sum of shift and offset is taken
  without overflow of \<open>int\<close>.
\<close>

section \<open>Fields of the legacy format\<close>

definition legacy_type_name :: "string \<Rightarrow> string" where
  "legacy_type_name t =
     (if t = ''float'' then ''float32'' else if t = ''word'' \<or> t = ''uint_16'' then ''uint16'' else t)"

definition map_legacy_type :: "json \<Rightarrow> string" where
  "map_legacy_type type_node = (case as_string type_node of
     Some t \<Rightarrow> legacy_type_name t
   | None \<Rightarrow> (case string_at type_node ''type'' of Some t \<Rightarrow> legacy_type_name t | None \<Rightarrow> ''uint16''))"

definition map_legacy_byte_order :: "json \<Rightarrow> string \<Rightarrow> string" where
  "map_legacy_byte_order type_node ty =
     (let raw = get_or (string_at type_node ''byteorder'') []; short = ty = ''uint16'' \<or> ty = ''int16''
      in if raw = ''01234567'' \<or> raw = ''0123'' then (if short then ''AB'' else ''ABCD'')
         else if raw = ''01325476'' \<or> raw = ''1032'' then (if short then ''BA'' else ''CDAB'')
         else if short then ''AB''
         else if ty = ''float32'' \<or> ty = ''uint32'' \<or> ty = ''int32'' then ''ABCD''
         else [])"

definition tag_name_from :: "json \<Rightarrow> string \<Rightarrow> int \<Rightarrow> string" where
  "tag_name_from type_node device_id offset =
     get_or (string_at type_node ''name'') (device_id @ ''.reg'' @ show_int offset)"

text \<open>\<open>node.value(key, default)\<close> for \<open>int\<close>: numbers and booleans convert, other values throw.\<close>

fun json_type_name :: "json \<Rightarrow> string" where
  "json_type_name JNull = ''null''"
| "json_type_name (JBool b) = ''boolean''"
| "json_type_name (JInt i) = ''number''"
| "json_type_name (JFloat x) = ''number''"
| "json_type_name (JString s) = ''string''"
| "json_type_name (JArray js) = ''array''"
| "json_type_name (JObject kvs) = ''object''"

definition value_int :: "json \<Rightarrow> string \<Rightarrow> int \<Rightarrow> string + int" where
  "value_int node k d =
     (if \<not> is_object node
      then Inl (''[json.exception.type_error.306] cannot use value() with '' @ json_type_name node)
      else case member node k of
        None \<Rightarrow> Inr d
      | Some (JInt i) \<Rightarrow> Inr (int_of_int64 i)
      | Some (JFloat x) \<Rightarrow> Inr (fp_to_int x)
      | Some (JBool b) \<Rightarrow> Inr (if b then 1 else 0)
      | Some j \<Rightarrow> Inl (''[json.exception.type_error.302] type must be number, but is '' @ json_type_name j))"

section \<open>Nodes\<close>

definition legacy_tag :: "string \<Rightarrow> int \<Rightarrow> string \<times> json \<Rightarrow> string + json" where
  "legacy_tag device_id shift api = (case api of (key, type_node) \<Rightarrow> case stoi key of
     None \<Rightarrow> Inl ''stoi''
   | Some offset \<Rightarrow>
       let ty = map_legacy_type type_node;
           name = tag_name_from type_node device_id offset;
           tag = JObject [(''name'', JString name), (''nodePath'', JString (''Plant/'' @ device_id @ ''/'' @ name)),
             (''area'', JString ''holding''), (''address'', JInt (shift + offset)), (''type'', JString ty),
             (''byteOrder'', JString (map_legacy_byte_order type_node ty)), (''writable'', JBool False),
             (''group'', JString (device_id @ ''-migrated''))]
       in Inr (case member type_node ''description'' of Some d \<Rightarrow> set_member ''description'' d tag | None \<Rightarrow> tag))"

fun legacy_tags :: "string \<Rightarrow> int \<Rightarrow> (string \<times> json) list \<Rightarrow> string + json list" where
  "legacy_tags device_id shift [] = Inr []"
| "legacy_tags device_id shift (api # apis) =
     bindE (legacy_tag device_id shift api) (\<lambda>t. bindE (legacy_tags device_id shift apis) (\<lambda>ts. Inr (t # ts)))"

definition legacy_api :: "json \<Rightarrow> (string \<times> json) list" where
  "legacy_api node = (case member node ''API'' of Some (JObject kvs) \<Rightarrow> kvs | _ \<Rightarrow> [])"

definition legacy_device :: "string \<Rightarrow> int \<Rightarrow> json list \<Rightarrow> json" where
  "legacy_device device_id unit_id tags = JObject [(''id'', JString device_id), (''endpointId'', JString ''legacy-endpoint-1''),
     (''unitId'', JInt unit_id), (''description'', JString ''Migrated legacy node''), (''tags'', JArray tags)]"

definition legacy_group :: "string \<Rightarrow> int \<Rightarrow> int \<Rightarrow> json" where
  "legacy_group device_id shift registers = JObject [(''id'', JString (device_id @ ''-migrated'')), (''periodMs'', JInt 500),
     (''priority'', JString ''normal''), (''deviceId'', JString device_id),
     (''blocks'', JArray [JObject [(''area'', JString ''holding''), (''start'', JInt shift),
        (''count'', JInt (if registers > 0 then registers else 1)),
        (''description'', JString ''Migrated block from legacy code/shift/registers'')]])]"

definition migrate_node :: "string \<times> json \<Rightarrow> string + json \<times> json" where
  "migrate_node entry = (case entry of (device_id, node) \<Rightarrow>
     bindE (value_int node ''id'' 1) (\<lambda>unit_id.
     bindE (value_int node ''shift'' 0) (\<lambda>shift.
     bindE (value_int node ''registers'' 0) (\<lambda>registers.
     bindE (legacy_tags device_id shift (legacy_api node)) (\<lambda>tags.
       Inr (legacy_device device_id unit_id tags, legacy_group device_id shift registers))))))"

fun migrate_nodes :: "(string \<times> json) list \<Rightarrow> string + (json \<times> json) list" where
  "migrate_nodes [] = Inr []"
| "migrate_nodes (entry # entries) =
     bindE (migrate_node entry) (\<lambda>x. bindE (migrate_nodes entries) (\<lambda>xs. Inr (x # xs)))"

definition legacy_project :: "(json \<times> json) list \<Rightarrow> json" where
  "legacy_project xs = JObject [
     (''schemaVersion'', JInt 1), (''name'', JString ''migrated-legacy''),
     (''description'', JString ''Migrated from legacy config.json Nodes format. TODO: set endpoints host/port.''),
     (''addressBase'', JInt 0),
     (''opcua'', JObject [(''endpointUrl'', JString ''opc.tcp://0.0.0.0:4840''),
        (''applicationName'', JString ''OPC_SERVER Migrated''), (''securityPolicy'', JString ''None''),
        (''securityMode'', JString ''None''), (''namespaceUri'', JString ''urn:opc-server:migrated'')]),
     (''endpoints'', JArray [JObject [(''id'', JString ''legacy-endpoint-1''), (''host'', JString ''127.0.0.1''),
        (''port'', JInt 502), (''transport'', JString ''tcp''), (''connectTimeoutMs'', JInt 3000),
        (''responseTimeoutMs'', JInt 1000), (''reconnectDelayMs'', JInt 2000)]]),
     (''devices'', JArray (map fst xs)), (''pollGroups'', JArray (map snd xs)), (''deviceProfiles'', JArray [])]"

definition migrate_legacy_nodes :: "json \<Rightarrow> string + json" where
  "migrate_legacy_nodes legacy = (case member legacy ''Nodes'' of
     Some (JObject nodes) \<Rightarrow> bindE (migrate_nodes nodes) (\<lambda>xs. Inr (legacy_project xs))
   | _ \<Rightarrow> Inl (quoted ''legacy config: missing object '' ''Nodes'' []))"

section \<open>A migrated project parses\<close>

text \<open>The tag types of a legacy node that the project format knows.\<close>

definition types_known :: "json \<Rightarrow> bool" where
  "types_known node \<longleftrightarrow> list_all (\<lambda>api. map_legacy_type (snd api) \<in> set kTypes) (legacy_api node)"

lemma legacy_tag_members:
  assumes "legacy_tag did shift api = Inr j"
  shows "is_object j \<and> member j ''type'' = Some (JString (map_legacy_type (snd api))) \<and> member j ''area'' = Some (JString ''holding'') \<and>
    member j ''byteOrder'' = Some (JString (map_legacy_byte_order (snd api) (map_legacy_type (snd api)))) \<and>
    (\<exists>n a. member j ''name'' = Some (JString n) \<and> member j ''address'' = Some (JInt a))"
proof -
  obtain key tn where api: "api = (key, tn)" by (cases api)
  with assms obtain off where off: "stoi key = Some off" by (cases "stoi key") (auto simp: legacy_tag_def)
  show ?thesis
    using assms unfolding legacy_tag_def api off Let_def prod.case option.case
    by (cases "member tn ''description''") auto
qed

lemma legacy_tag_parses:
  assumes "legacy_tag did shift api = Inr j" "map_legacy_type (snd api) \<in> set kTypes"
  shows "snd (parse_tag j path) = []"
proof -
  obtain ty where ty: "map_of kTagType (map_legacy_type (snd api)) = Some ty" using kTagType_keys [OF assms(2)] by blast
  have a: "map_of kArea ''holding'' = Some Holding" by (simp add: kArea_def)
  show ?thesis using legacy_tag_members [OF assms(1)] ty a
    by (auto simp: parse_tag_def at_defs enum_field_def parse_enum_def required_def Let_def)
qed

lemma legacy_tags_parse:
  assumes "legacy_tags did shift apis = Inr js" "list_all (\<lambda>api. map_legacy_type (snd api) \<in> set kTypes) apis"
  shows "snd (parse_items (single parse_tag) base i js) = []"
  using assms by (induction apis arbitrary: js i) (auto simp: bindE_Inr single_def legacy_tag_parses)

lemma parse_legacy_device:
  assumes "snd (parse_items (single parse_tag) (path @ ''.tags'') 0 tags) = []"
  shows "snd (parse_device (legacy_device did u tags) path) = []" "map dev_id (fst (parse_device (legacy_device did u tags) path)) = [did]"
  using assms by (simp_all add: parse_device_def legacy_device_def parse_tags_def at_defs required_def Let_def)

lemma parse_legacy_group:
  "snd (parse_group (legacy_group did s n) path) = []" "map grp_device_id (fst (parse_group (legacy_group did s n) path)) = [did]"
  by (simp_all add: parse_group_def legacy_group_def parse_block_def single_def enum_field_def parse_enum_def kPriority_def
      kArea_def at_defs required_def Let_def)

lemma migrate_nodes_parse:
  assumes "migrate_nodes nodes = Inr xs" "list_all (\<lambda>n. types_known (snd n)) nodes"
  shows "snd (parse_items parse_device base i (map fst xs)) = [] \<and> snd (parse_items parse_group base' i (map snd xs)) = [] \<and>
    map dev_id (fst (parse_items parse_device base i (map fst xs))) = map fst nodes \<and>
    map grp_device_id (fst (parse_items parse_group base' i (map snd xs))) = map fst nodes"
  using assms
proof (induction nodes arbitrary: xs i)
  case (Cons entry nodes)
  obtain did node where e: "entry = (did, node)" by (cases entry)
  from Cons.prems(1) obtain u s n tags ys where x: "legacy_tags did s (legacy_api node) = Inr tags"
    "migrate_nodes nodes = Inr ys" "xs = (legacy_device did u tags, legacy_group did s n) # ys"
    by (auto simp: bindE_Inr migrate_node_def e)
  have "snd (parse_items (single parse_tag) b 0 tags) = []" for b
    using legacy_tags_parse [OF x(1)] Cons.prems(2) by (simp add: types_known_def e)
  note d = parse_legacy_device [OF this]
  show ?case using Cons.IH [OF x(2), of "i + 1"] Cons.prems(2) d parse_legacy_group by (simp add: x(3) e)
qed simp

lemma parse_legacy_project:
  assumes "migrate_nodes nodes = Inr xs" "nodes \<noteq> []" "list_all (\<lambda>n. types_known (snd n)) nodes"
  shows "snd (parse_project (legacy_project xs)) = []" "map dev_id (prj_devices (fst (parse_project (legacy_project xs)))) = map fst nodes"
    "map grp_device_id (prj_poll_groups (fst (parse_project (legacy_project xs)))) = map fst nodes"
proof -
  note m = migrate_nodes_parse [OF assms(1,3)]
  obtain x ys where xs: "xs = x # ys" using assms(1,2) by (cases nodes) (auto simp: bindE_Inr)
  have f: "required_items f (legacy_project xs) k = parse_items f k 0 js"
    if "array_at (legacy_project xs) k = Some js" "js \<noteq> []" for f :: "json \<Rightarrow> string \<Rightarrow> 'a list \<times> diagnostic list" and k js
    using that by (cases js) (simp_all add: required_items_def)
  have e: "required_items (single parse_endpoint) (legacy_project xs) ''endpoints'' =
      ([default_endpoint\<lparr>ep_id := ''legacy-endpoint-1'', ep_host := ''127.0.0.1''\<rparr>], [])"
    by (simp add: required_items_def legacy_project_def single_def parse_endpoint_def parse_port_def enum_field_def parse_enum_def
        kTransport_def at_defs required_def default_endpoint_def Let_def)
  have "array_at (legacy_project xs) ''devices'' = Some (map fst xs)" "array_at (legacy_project xs) ''pollGroups'' = Some (map snd xs)"
    "map fst xs \<noteq> []" "map snd xs \<noteq> []"
    by (simp_all add: legacy_project_def array_at_def xs)
  note i = f [OF this(1,3), of parse_device] f [OF this(2,4), of parse_group]
  have o: "parse_opcua (legacy_project xs) = (fst (parse_opcua (legacy_project xs)), [])"
    by (simp add: parse_opcua_def legacy_project_def optional_enum_def parse_enum_def kSecurityPolicy_def kSecurityMode_def at_defs Let_def)
  have r: "is_object (legacy_project xs)" "int_at (legacy_project xs) ''schemaVersion'' = Some 1"
    "string_at (legacy_project xs) ''name'' = Some ''migrated-legacy''" "int_at (legacy_project xs) ''addressBase'' = Some 0"
    "array_at (legacy_project xs) ''deviceProfiles'' = Some []"
    by (simp_all add: legacy_project_def at_defs)
  show "snd (parse_project (legacy_project xs)) = []"
    using m by (simp add: parse_project_def r Let_def required_def e i, subst o, simp)
  show "map dev_id (prj_devices (fst (parse_project (legacy_project xs)))) = map fst nodes"
    "map grp_device_id (prj_poll_groups (fst (parse_project (legacy_project xs)))) = map fst nodes"
    using m by (simp_all add: parse_project_def r Let_def i)
qed

text \<open>
  C38: A legacy configuration whose tag types are known migrates to a project that parses without a
  diagnostic, with one device and one poll group per legacy node, in their order.
\<close>

theorem migrate_parses:
  assumes "migrate_legacy_nodes legacy = Inr doc" "member legacy ''Nodes'' = Some (JObject nodes)"
    and "nodes \<noteq> []" "list_all (\<lambda>n. types_known (snd n)) nodes"
  shows "snd (parse_project doc) = [] \<and> map dev_id (prj_devices (fst (parse_project doc))) = map fst nodes \<and>
    map grp_device_id (prj_poll_groups (fst (parse_project doc))) = map fst nodes"
  using assms parse_legacy_project by (auto simp: migrate_legacy_nodes_def bindE_Inr)

text \<open>
  The byte order given to a migrated tag fits its type, except that a 64-bit float without one of
  the four known legacy orders gets none, which the validation rejects.
\<close>

lemma migrated_byte_order_valid:
  assumes "map_of kTagType (map_legacy_type n) = Some ty"
  shows "valid_byte_order (map_legacy_byte_order n (map_legacy_type n)) ty \<longleftrightarrow>
    ty \<noteq> TFloat64 \<or> get_or (string_at n ''byteorder'') [] \<in> {''01234567'', ''0123'', ''01325476'', ''1032''}"
proof -
  define t where "t = map_legacy_type n"
  define raw where "raw = get_or (string_at n ''byteorder'') []"
  have "t = ''bool'' \<and> ty = TBool \<or> t = ''uint16'' \<and> ty = TUInt16 \<or> t = ''int16'' \<and> ty = TInt16 \<or> t = ''uint32'' \<and> ty = TUInt32 \<or>
      t = ''int32'' \<and> ty = TInt32 \<or> t = ''float32'' \<and> ty = TFloat32 \<or> t = ''float64'' \<and> ty = TFloat64"
    using map_of_SomeD [OF assms] by (simp add: t_def [symmetric] kTagType_def)
  moreover have v: "valid_byte_order ''AB'' ty \<longleftrightarrow> ty \<in> {TBool, TUInt16, TInt16}" "valid_byte_order ''BA'' ty \<longleftrightarrow> ty \<in> {TBool, TUInt16, TInt16}"
    "valid_byte_order ''ABCD'' ty \<longleftrightarrow> ty \<notin> {TUInt16, TInt16}" "valid_byte_order ''CDAB'' ty \<longleftrightarrow> ty \<notin> {TUInt16, TInt16}"
    "valid_byte_order [] ty \<longleftrightarrow> ty \<in> {TBool, TUInt16, TInt16}" for ty
    by (cases ty; simp add: valid_byte_order_def)+
  ultimately show ?thesis unfolding map_legacy_byte_order_def raw_def [symmetric] t_def [symmetric] Let_def
    by (elim disjE conjE; simp add: v)
qed

definition legacy_lab :: json where
  "legacy_lab = JObject [(''Nodes'', JObject [(''plc'', JObject [(''id'', JInt 3), (''API'', JObject [(''4'', JString ''float'')])])])]"

theorem migrate_parses_witness:
  "\<exists>doc. migrate_legacy_nodes legacy_lab = Inr doc \<and> map dev_id (prj_devices (fst (parse_project doc))) = [''plc'']"
proof -
  have s: "stoi ''4'' = Some 4" by (simp add: stoi_def read_int_def read_digits_def ltrim_def is_space_def is_digit_def digits_value_def digit_value_def)
  define t where "t = legacy_tag ''plc'' 0 (''4'', JString ''float'')"
  obtain j where j: "t = Inr j" by (simp add: t_def legacy_tag_def s Let_def)
  have m: "migrate_legacy_nodes legacy_lab = Inr (legacy_project [(legacy_device ''plc'' 3 [j], legacy_group ''plc'' 0 0)])"
    using j by (simp add: migrate_legacy_nodes_def legacy_lab_def migrate_node_def value_int_def legacy_api_def t_def)
  show ?thesis using m migrate_parses [OF m, of "[(''plc'', JObject [(''id'', JInt 3), (''API'', JObject [(''4'', JString ''float'')])])]"]
    by (simp add: legacy_lab_def types_known_def legacy_api_def map_legacy_type_def legacy_type_name_def kTypes_def)
qed

end
