(* ===== verification/Project_Doctor.thy ===== *)
theory Project_Doctor
  imports Validate
begin

text \<open>
  \<open>Src/project/doctor.cpp\<close>: the static checks beyond validation. Findings are collected in a report
  with its two counters. Register ranges are half-open intervals of \<open>int\<close>; their ends are sums of C++
  \<open>int\<close>s, which the model takes without overflow. \<open>std::sort\<close> is a stable sort by the start of the range.
\<close>

section \<open>Reports\<close>

record doctor_report =
  dr_findings :: "diagnostic list"
  dr_warning_count :: int
  dr_error_count :: int

definition empty_report :: doctor_report where
  "empty_report = \<lparr>dr_findings = [], dr_warning_count = 0, dr_error_count = 0\<rparr>"

definition add_finding :: "severity \<Rightarrow> string \<Rightarrow> string \<Rightarrow> doctor_report \<Rightarrow> doctor_report" where
  "add_finding sev path m r =
     (let r = (if sev = SevError then r\<lparr>dr_error_count := dr_error_count r + 1\<rparr>
               else r\<lparr>dr_warning_count := dr_warning_count r + 1\<rparr>)
      in r\<lparr>dr_findings := dr_findings r @ [\<lparr>diag_severity = sev, diag_path = path, diag_message = m\<rparr>]\<rparr>)"

section \<open>Register ranges\<close>

definition doctor_regs_for :: "tag \<Rightarrow> int" where
  "doctor_regs_for t = (case tag_quantity t of
     Some q \<Rightarrow> q
   | None \<Rightarrow> (case tag_ty t of
       TBool \<Rightarrow> 1 | TUInt16 \<Rightarrow> 1 | TInt16 \<Rightarrow> 1 | TUInt32 \<Rightarrow> 2 | TInt32 \<Rightarrow> 2 | TFloat32 \<Rightarrow> 2 | TFloat64 \<Rightarrow> 4))"

fun area_name :: "area \<Rightarrow> string" where
  "area_name Holding = ''holding''"
| "area_name Input = ''input''"
| "area_name Coil = ''coil''"
| "area_name Discrete = ''discrete''"

record reg_span =
  sp_start :: int
  sp_end :: int
  sp_label :: string

definition tag_span :: "tag \<Rightarrow> reg_span" where
  "tag_span t = \<lparr>sp_start = tag_address t, sp_end = tag_address t + max 1 (doctor_regs_for t), sp_label = tag_name t\<rparr>"

definition spans_overlap :: "reg_span \<Rightarrow> reg_span \<Rightarrow> bool" where
  "spans_overlap a b \<longleftrightarrow> sp_start a < sp_end b \<and> sp_start b < sp_end a"

definition overlap_message :: "reg_span \<Rightarrow> reg_span \<Rightarrow> string" where
  "overlap_message a b =
     ''overlap '' @ sp_label a @ '' ['' @ show_int (sp_start a) @ '','' @ show_int (sp_end a) @ '') with '' @
     sp_label b @ '' ['' @ show_int (sp_start b) @ '','' @ show_int (sp_end b) @ '')''"

fun check_overlaps :: "string \<Rightarrow> reg_span list \<Rightarrow> doctor_report \<Rightarrow> doctor_report" where
  "check_overlaps path [] r = r"
| "check_overlaps path (a # spans) r =
     check_overlaps path spans
       (fold (\<lambda>b r. if spans_overlap a b then add_finding SevWarning path (overlap_message a b) r else r) spans r)"

fun check_sorted_holes :: "string \<Rightarrow> reg_span list \<Rightarrow> doctor_report \<Rightarrow> doctor_report" where
  "check_sorted_holes path (a # b # spans) r =
     (let hole = sp_start b - sp_end a
      in check_sorted_holes path (b # spans)
           (if sp_start b > sp_end a \<and> hole > 0 \<and> hole \<le> 8
            then add_finding SevWarning path (''gap of '' @ show_int hole @ '' registers between '' @ sp_label a @
                   '' and '' @ sp_label b @ '' (consider coalescing the poll block)'') r
            else r))"
| "check_sorted_holes path spans r = r"

definition check_holes :: "string \<Rightarrow> reg_span list \<Rightarrow> doctor_report \<Rightarrow> doctor_report" where
  "check_holes path spans r = (if length spans < 2 then r else check_sorted_holes path (sort_key sp_start spans) r)"

section \<open>The doctor\<close>

definition polled_tags :: "project \<Rightarrow> string list" where
  "polled_tags p = concat (map (\<lambda>g. map (\<lambda>n. grp_device_id g @ ''/'' @ n) (grp_tag_names g)) (prj_poll_groups p))"

definition doctor_tag :: "string list \<Rightarrow> string \<Rightarrow> string \<Rightarrow> tag \<Rightarrow> doctor_report \<Rightarrow> doctor_report" where
  "doctor_tag polled did tpath t r =
     (let r = (if did @ ''/'' @ tag_name t \<notin> set polled \<and> tag_group t = []
               then add_finding SevWarning tpath (quoted ''tag '' (tag_name t) '' is not referenced by any poll group'') r
               else r)
      in if tag_writable t \<and> tag_area t \<noteq> Holding \<and> tag_area t \<noteq> Coil
         then add_finding SevWarning (tpath @ ''.writable'')
                (''writable tag on '' @ area_name (tag_area t) @ '' cannot be written with FC05/06/15/16'') r
         else r)"

fun doctor_tags :: "string list \<Rightarrow> string \<Rightarrow> string \<Rightarrow> nat \<Rightarrow> tag list \<Rightarrow> doctor_report \<Rightarrow> doctor_report" where
  "doctor_tags polled did dpath ti [] r = r"
| "doctor_tags polled did dpath ti (t # ts) r =
     doctor_tags polled did dpath (ti + 1) ts (doctor_tag polled did (indexed (dpath @ ''.tags'') ti) t r)"

definition area_spans :: "area \<Rightarrow> tag list \<Rightarrow> reg_span list" where
  "area_spans a ts = map tag_span (filter (\<lambda>t. tag_area t = a) ts)"

definition doctor_area :: "string \<Rightarrow> tag list \<Rightarrow> area \<Rightarrow> doctor_report \<Rightarrow> doctor_report" where
  "doctor_area dpath ts a r =
     (let spans = area_spans a ts; path = dpath @ ''.'' @ area_name a
      in if spans = [] then r else check_holes path spans (check_overlaps path spans r))"

fun doctor_devices :: "string list \<Rightarrow> nat \<Rightarrow> device list \<Rightarrow> doctor_report \<Rightarrow> doctor_report" where
  "doctor_devices polled di [] r = r"
| "doctor_devices polled di (d # ds) r =
     (let dpath = indexed ''devices'' di;
          r = doctor_tags polled (dev_id d) dpath 0 (dev_tags d) r
      in doctor_devices polled (di + 1) ds (fold (doctor_area dpath (dev_tags d)) [Holding, Input, Coil, Discrete] r))"

definition covered :: "register_block \<Rightarrow> tag list \<Rightarrow> int" where
  "covered b ts = sum_list (map (\<lambda>t.
     max 0 (min (sp_end (tag_span t)) (blk_start b + blk_count b) - max (tag_address t) (blk_start b)))
     (filter (\<lambda>t. tag_area t = blk_area b) ts))"

definition doctor_block :: "device option \<Rightarrow> string \<Rightarrow> register_block \<Rightarrow> doctor_report \<Rightarrow> doctor_report" where
  "doctor_block dev bpath b r =
     (let r = (if blk_count b > 64
               then add_finding SevWarning (bpath @ ''.count'')
                      (''large block ('' @ show_int (blk_count b) @ '' registers) may overrun Modbus RTT budget'') r
               else r)
      in case dev of
           None \<Rightarrow> r
         | Some d \<Rightarrow>
             if blk_count b < 1 then r
             else let c = covered b (dev_tags d)
                  in if blk_count b \<ge> 8 \<and> c * 2 < blk_count b
                     then add_finding SevWarning bpath (''sparse block: only '' @ show_int c @ '' of '' @
                            show_int (blk_count b) @ '' registers map to tags (holes)'') r
                     else r)"

fun doctor_blocks :: "device option \<Rightarrow> string \<Rightarrow> nat \<Rightarrow> register_block list \<Rightarrow> doctor_report \<Rightarrow> doctor_report" where
  "doctor_blocks dev gpath bi [] r = r"
| "doctor_blocks dev gpath bi (b # bs) r =
     doctor_blocks dev gpath (bi + 1) bs (doctor_block dev (indexed (gpath @ ''.blocks'') bi) b r)"

text \<open>\<open>devices_by_id.emplace\<close> keeps the first device of an id.\<close>

fun doctor_groups :: "device list \<Rightarrow> nat \<Rightarrow> poll_group list \<Rightarrow> doctor_report \<Rightarrow> doctor_report" where
  "doctor_groups devs gi [] r = r"
| "doctor_groups devs gi (g # gs) r =
     (let gpath = indexed ''pollGroups'' gi;
          r = (if grp_period_ms g < 50 \<and> grp_priority g \<noteq> Fast
               then add_finding SevWarning (gpath @ ''.periodMs'') ''periodMs < 50 but priority is not fast'' r
               else r)
      in doctor_groups devs (gi + 1) gs
           (doctor_blocks (find (\<lambda>d. dev_id d = grp_device_id g) devs) gpath 0 (grp_blocks g) r))"

definition doctor :: "project \<Rightarrow> doctor_report" where
  "doctor p = doctor_groups (prj_devices p) 0 (prj_poll_groups p)
     (doctor_devices (polled_tags p) 0 (prj_devices p) empty_report)"

section \<open>What a clean report means\<close>

text \<open>Every check only appends warnings: \<open>grows r r'\<close>.\<close>

definition grows :: "doctor_report \<Rightarrow> doctor_report \<Rightarrow> bool" where
  "grows r r' \<longleftrightarrow> (\<exists>ds. dr_findings r' = dr_findings r @ ds \<and> list_all (\<lambda>d. diag_severity d = SevWarning) ds \<and>
     dr_warning_count r' = dr_warning_count r + int (length ds) \<and> dr_error_count r' = dr_error_count r)"

lemma grows_refl [simp, intro]: "grows r r"
  by (simp add: grows_def)

lemma grows_trans [trans]: "grows r s \<Longrightarrow> grows s t \<Longrightarrow> grows r t"
  by (auto simp: grows_def)

lemma grows_add [intro]: "grows r (add_finding SevWarning p m r)"
  by (simp add: grows_def add_finding_def)

lemma grows_fold: "(\<And>x r. grows r (f x r)) \<Longrightarrow> grows r (fold f xs r)"
  by (induction xs arbitrary: r) (auto intro: grows_trans)

lemma grows_clean: "grows r r' \<Longrightarrow> dr_findings r' = [] \<Longrightarrow> dr_findings r = []"
  by (auto simp: grows_def)

lemma add_finding_dirty [simp]: "dr_findings (add_finding s p m r) \<noteq> []"
  by (simp add: add_finding_def Let_def)

lemma grows_check_overlaps [intro]: "grows r (check_overlaps path spans r)"
proof (induction spans arbitrary: r)
  case (Cons a spans)
  then show ?case by (auto intro!: grows_trans [OF grows_fold Cons.IH])
qed simp

lemma grows_check_holes [intro]: "grows r (check_holes path spans r)"
proof -
  have "grows r (check_sorted_holes path spans r)" for spans r
  proof (induction path spans r rule: check_sorted_holes.induct)
    case (1 path a b spans r)
    show ?case
      using 1 [OF refl] grows_add [of r] by (auto simp: Let_def intro: grows_trans)
  qed simp_all
  then show ?thesis by (simp add: check_holes_def)
qed

lemma grows_doctor_tag [intro]: "grows r (doctor_tag polled did tpath t r)"
  by (auto simp: doctor_tag_def Let_def intro: grows_trans)

lemma grows_doctor_tags [intro]: "grows r (doctor_tags polled did dpath ti ts r)"
proof (induction ts arbitrary: ti r)
  case (Cons t ts)
  then show ?case by (auto intro: grows_trans [OF grows_doctor_tag])
qed simp

lemma grows_doctor_area [intro]: "grows r (doctor_area dpath ts a r)"
  by (auto simp: doctor_area_def Let_def intro: grows_trans [OF grows_check_overlaps])

lemma grows_doctor_devices [intro]: "grows r (doctor_devices polled di ds r)"
proof (induction ds arbitrary: di r)
  case (Cons d ds)
  show ?case unfolding doctor_devices.simps Let_def
    by (rule grows_trans [OF grows_doctor_tags grows_trans [OF grows_fold Cons.IH]]) (rule grows_doctor_area)
qed simp

lemma grows_doctor_blocks [intro]: "grows r (doctor_blocks dev gpath bi bs r)"
proof (induction bs arbitrary: bi r)
  case (Cons b bs)
  have "grows r (doctor_block dev (indexed (gpath @ ''.blocks'') bi) b r)"
    by (auto simp: doctor_block_def Let_def intro: grows_trans split: option.split)
  then show ?case using Cons.IH by (auto intro: grows_trans)
qed simp

lemma grows_doctor_groups [intro]: "grows r (doctor_groups devs gi gs r)"
proof (induction gs arbitrary: gi r)
  case (Cons g gs)
  show ?case unfolding doctor_groups.simps Let_def
    by (rule grows_trans [OF _ grows_trans [OF grows_doctor_blocks Cons.IH]]) auto
qed simp

text \<open>
  The doctor reports warnings only, and counts each of them: its error count is always 0.
\<close>

theorem doctor_warns_only:
  "dr_error_count (doctor p) = 0 \<and> dr_warning_count (doctor p) = int (length (dr_findings (doctor p))) \<and>
   list_all (\<lambda>d. diag_severity d = SevWarning) (dr_findings (doctor p))"
proof -
  have "grows empty_report (doctor p)"
    unfolding doctor_def by (rule grows_trans [OF grows_doctor_devices grows_doctor_groups])
  then show ?thesis by (auto simp: grows_def empty_report_def)
qed

lemma fold_findings_empty:
  "dr_findings (fold (\<lambda>b r. if P b then add_finding s path (m b) r else r) bs r) = [] \<longleftrightarrow>
   dr_findings r = [] \<and> list_all (\<lambda>b. \<not> P b) bs"
  by (induction bs arbitrary: r) auto

lemma check_overlaps_empty:
  "dr_findings (check_overlaps path spans r) = [] \<longleftrightarrow>
   dr_findings r = [] \<and> sorted_wrt (\<lambda>a b. \<not> spans_overlap a b) spans"
  by (induction spans arbitrary: r) (auto simp: fold_findings_empty list_all_iff)

lemma doctor_area_empty:
  "dr_findings (doctor_area dpath ts a r) = [] \<Longrightarrow>
     dr_findings r = [] \<and> sorted_wrt (\<lambda>a b. \<not> spans_overlap a b) (area_spans a ts)"
  by (auto simp: doctor_area_def Let_def check_overlaps_empty dest!: grows_clean [OF grows_check_holes] split: if_splits)

lemma doctor_tags_empty:
  "dr_findings (doctor_tags polled did dpath ti ts r) = [] \<longleftrightarrow> dr_findings r = [] \<and>
     list_all (\<lambda>t. (did @ ''/'' @ tag_name t \<in> set polled \<or> tag_group t \<noteq> []) \<and>
       (tag_writable t \<longrightarrow> tag_area t = Holding \<or> tag_area t = Coil)) ts"
  by (induction ts arbitrary: ti r) (auto simp: doctor_tag_def Let_def)

text \<open>What a device without findings satisfies.\<close>

definition device_clean :: "string list \<Rightarrow> device \<Rightarrow> bool" where
  "device_clean polled d \<longleftrightarrow>
     list_all (\<lambda>a. sorted_wrt (\<lambda>s t. \<not> spans_overlap s t) (area_spans a (dev_tags d))) [Holding, Input, Coil, Discrete] \<and>
     list_all (\<lambda>t. (dev_id d @ ''/'' @ tag_name t \<in> set polled \<or> tag_group t \<noteq> []) \<and>
       (tag_writable t \<longrightarrow> tag_area t = Holding \<or> tag_area t = Coil)) (dev_tags d)"

lemma doctor_devices_empty:
  "dr_findings (doctor_devices polled di ds r) = [] \<Longrightarrow> list_all (device_clean polled) ds"
proof (induction ds arbitrary: di r)
  case (Cons d ds)
  define s where "s = doctor_tags polled (dev_id d) (indexed ''devices'' di) 0 (dev_tags d) r"
  have e: "dr_findings (fold (doctor_area (indexed ''devices'' di) (dev_tags d)) [Holding, Input, Coil, Discrete] s) = []"
    using Cons.prems grows_clean [OF grows_doctor_devices] unfolding doctor_devices.simps Let_def s_def by blast
  then have "device_clean polled d"
    using doctor_tags_empty unfolding device_clean_def s_def by (auto dest!: doctor_area_empty)
  then show ?case using Cons.IH Cons.prems unfolding doctor_devices.simps Let_def by auto
qed simp


definition doctor_lab :: project where
  "doctor_lab = default_project\<lparr>
     prj_devices := [\<lparr>dev_id = ''d'', dev_endpoint_id = ''e'', dev_unit_id = 1, dev_profile_id = [], dev_description = [],
       dev_tags = [default_tag\<lparr>tag_name := ''a'', tag_ty := TFloat32, tag_writable := True\<rparr>, default_tag\<lparr>tag_name := ''b'', tag_address := 2\<rparr>]\<rparr>],
     prj_poll_groups := [\<lparr>grp_id = ''g'', grp_period_ms = 100, grp_priority = Normal, grp_device_id = ''d'', grp_blocks = [],
       grp_tag_names = [''a'', ''b'']\<rparr>]\<rparr>"

lemma doctor_lab_clean: "dr_findings (doctor doctor_lab) = []"
  by (simp add: doctor_def doctor_lab_def default_project_def default_tag_def polled_tags_def doctor_tag_def doctor_area_def
      area_spans_def tag_span_def doctor_regs_for_def check_holes_def spans_overlap_def empty_report_def Let_def)


end
