(* ===== verification/Map_Tool.thy ===== *)
theory Map_Tool
  imports Migrate_Legacy Import_Csv Project_Doctor Gen_Nodeset
begin

text \<open>
  The command line tool for project maps, \<open>tools/opc-map/main.cpp\<close>, with the functions of
  \<open>Src/project/import_csv.cpp\<close> and \<open>Src/project/migrate_legacy.cpp\<close> that read a file and print the
  JSON of a document. Files, the JSON parser and printer and the schema validator are the record
  \<open>map_env\<close>. A command returns what it printed and wrote and its exit code, \<open>None\<close> when an exception
  escapes; texts of the usage are left out.
\<close>

section \<open>Environment\<close>

text \<open>\<open>me_dump\<close>: the printed document, or what the printer throws (text that is not UTF-8).\<close>

record map_env =
  me_load :: load_env
  me_content :: "string \<Rightarrow> string option"
  me_writable :: "string \<Rightarrow> bool"
  me_dump :: "json \<Rightarrow> string + string"

record tool_state =
  tl_out :: "string list"
  tl_err :: "string list"
  tl_files :: "(string \<times> string) list"
  tl_usage :: bool

definition new_tool :: tool_state where
  "new_tool = \<lparr>tl_out = [], tl_err = [], tl_files = [], tl_usage = False\<rparr>"

type_synonym tool_result = "tool_state \<times> nat option"

definition say :: "string \<Rightarrow> tool_state \<Rightarrow> tool_state" where
  "say m t = t\<lparr>tl_out := tl_out t @ [m]\<rparr>"

definition complain :: "string \<Rightarrow> tool_state \<Rightarrow> tool_state" where
  "complain m t = t\<lparr>tl_err := tl_err t @ [m]\<rparr>"

definition usage :: "nat \<Rightarrow> tool_state \<Rightarrow> tool_result" where
  "usage rc t = (t\<lparr>tl_usage := True\<rparr>, Some rc)"

definition diag_line :: "diagnostic \<Rightarrow> string" where
  "diag_line d = (if diag_severity d = SevError then ''error'' else ''warning'') @ '': '' @ diag_path d @ '': '' @ diag_message d"

definition report_diagnostics :: "diagnostic list \<Rightarrow> tool_state \<Rightarrow> tool_state" where
  "report_diagnostics ds t = t\<lparr>tl_err := tl_err t @ map diag_line ds\<rparr>"

definition write_text :: "map_env \<Rightarrow> string \<Rightarrow> string \<Rightarrow> tool_state \<Rightarrow> tool_state \<times> nat" where
  "write_text env path s t =
     (if \<not> me_writable env path then (complain (''cannot write: '' @ path) t, 2)
      else (say (''wrote '' @ path) (t\<lparr>tl_files := tl_files t @
              [(path, if s \<noteq> [] \<and> last s \<noteq> CHR 0x0A then s @ [CHR 0x0A] else s)]\<rparr>), 0))"

section \<open>Documents as text\<close>

definition migrate_legacy_file_to_string :: "map_env \<Rightarrow> string \<Rightarrow> string + string" where
  "migrate_legacy_file_to_string env path = (case me_content env path of
     None \<Rightarrow> Inl (''cannot open legacy file: '' @ path)
   | Some s \<Rightarrow> (case le_parse (me_load env) s of
       JsonValue legacy \<Rightarrow> bindE (migrate_legacy_nodes legacy) (me_dump env)
     | JsonParseError what \<Rightarrow> Inl what
     | JsonOtherError what \<Rightarrow> Inl what))"

definition import_csv_file_to_string :: "map_env \<Rightarrow> string \<Rightarrow> import_csv_options \<Rightarrow> string + string" where
  "import_csv_file_to_string env path opts = (case me_content env path of
     None \<Rightarrow> Inl (''cannot open CSV file: '' @ path)
   | Some s \<Rightarrow> bindE (import_csv_text s opts) (me_dump env))"

section \<open>Commands\<close>

definition cmd_validate :: "map_env \<Rightarrow> string \<Rightarrow> tool_result" where
  "cmd_validate env path = (case load_file (me_load env) (me_content env) path of
     Inl what \<Rightarrow> (new_tool, None)
   | Inr r \<Rightarrow>
       let t = report_diagnostics (lr_diagnostics r) new_tool
       in if \<not> lr_ok r then (complain (''validate failed: '' @ path) t, Some 1)
          else (say (''OK: '' @ path @ '' ('' @ show_nat (length (prj_devices (lr_project r))) @ '' devices, '' @
                  show_nat (length (prj_poll_groups (lr_project r))) @ '' poll groups)'') t, Some 0))"

definition cmd_doctor :: "map_env \<Rightarrow> string \<Rightarrow> tool_result" where
  "cmd_doctor env path = (case load_file (me_load env) (me_content env) path of
     Inl what \<Rightarrow> (new_tool, None)
   | Inr r \<Rightarrow>
       let t = report_diagnostics (lr_diagnostics r) new_tool
       in if \<not> lr_ok r then (complain (''doctor: project failed validation: '' @ path) t, Some 1)
          else let report = doctor (lr_project r);
                   t = t\<lparr>tl_out := tl_out t @ map diag_line (dr_findings report)\<rparr>
               in (say (''doctor: '' @ show_int (dr_error_count report) @ '' error(s), '' @
                     show_int (dr_warning_count report) @ '' warning(s)'') t,
                   Some (if dr_error_count report > 0 then 1 else 0)))"

text \<open>The common end of the commands that make a project: print or write it, then load it.\<close>

definition emit_and_load :: "map_env \<Rightarrow> string \<Rightarrow> string \<Rightarrow> string \<Rightarrow> string \<Rightarrow> tool_result" where
  "emit_and_load env what in_path out_path s =
     (case (if out_path = [] then (say s new_tool, 0) else write_text env out_path s new_tool) of
        (t, rc) \<Rightarrow>
          if rc \<noteq> 0 then (t, Some rc)
          else (case load_json_text (me_load env) s (if out_path = [] then in_path else out_path) of
                  Inl m \<Rightarrow> (complain (what @ '' failed: '' @ m) t, Some 2)
                | Inr r \<Rightarrow> (report_diagnostics (lr_diagnostics r) t, Some (if lr_ok r then 0 else 1))))"

definition cmd_migrate_legacy :: "map_env \<Rightarrow> string \<Rightarrow> string \<Rightarrow> tool_result" where
  "cmd_migrate_legacy env legacy_path out_path = (case migrate_legacy_file_to_string env legacy_path of
     Inl m \<Rightarrow> (complain (''migrate-legacy failed: '' @ m) new_tool, Some 2)
   | Inr s \<Rightarrow> emit_and_load env ''migrate-legacy'' legacy_path out_path s)"

definition cmd_import_csv :: "map_env \<Rightarrow> string \<Rightarrow> string \<Rightarrow> import_csv_options \<Rightarrow> tool_result" where
  "cmd_import_csv env csv_path out_path opts = (case import_csv_file_to_string env csv_path opts of
     Inl m \<Rightarrow> (complain (''import-csv failed: '' @ m) new_tool, Some 2)
   | Inr s \<Rightarrow> emit_and_load env ''import-csv'' csv_path out_path s)"

definition cmd_gen_nodeset :: "map_env \<Rightarrow> string \<Rightarrow> string \<Rightarrow> tool_result" where
  "cmd_gen_nodeset env project_path out_path = (case load_file (me_load env) (me_content env) project_path of
     Inl what \<Rightarrow> (new_tool, None)
   | Inr r \<Rightarrow>
       let t = report_diagnostics (lr_diagnostics r) new_tool
       in if \<not> lr_ok r then (complain (''gen-nodeset: project failed validation: '' @ project_path) t, Some 1)
          else let xml = generate_nodeset (lr_project r)
               in if out_path = [] then (say xml t, Some 0)
                  else (case write_text env out_path xml t of (t, rc) \<Rightarrow> (t, Some rc)))"

section \<open>Arguments\<close>

text \<open>The loop over the options of \<open>import-csv\<close>: the output path and the options, or the exit with 2.\<close>

fun import_args :: "string list \<Rightarrow> string \<Rightarrow> import_csv_options \<Rightarrow> tool_state + string \<times> import_csv_options" where
  "import_args [] out opts = Inr (out, opts)"
| "import_args [arg] out opts =
     Inl (if arg \<in> set [''-o'', ''--device-id'', ''--endpoint-id'', ''--group'', ''--unit-id'']
          then complain (arg @ '' requires a value'') new_tool
          else complain (''unknown argument: '' @ arg) (new_tool\<lparr>tl_usage := True\<rparr>))"
| "import_args (arg # v # args) out opts =
     (if arg = ''-o'' then import_args args v opts
      else if arg = ''--device-id'' then import_args args out (opts\<lparr>io_device_id := v\<rparr>)
      else if arg = ''--endpoint-id'' then import_args args out (opts\<lparr>io_endpoint_id := v\<rparr>)
      else if arg = ''--group'' then import_args args out (opts\<lparr>io_group := v\<rparr>)
      else if arg = ''--unit-id'' then
        (case stoi v of
           None \<Rightarrow> Inl (complain ''invalid --unit-id'' new_tool)
         | Some n \<Rightarrow> import_args args out (opts\<lparr>io_unit_id := n\<rparr>))
      else Inl (complain (''unknown argument: '' @ arg) (new_tool\<lparr>tl_usage := True\<rparr>)))"

text \<open>\<open>[-o out]\<close> of \<open>migrate-legacy\<close> and \<open>gen-nodeset\<close>; arguments after the output path are ignored.\<close>

definition out_option :: "string list \<Rightarrow> string option" where
  "out_option args = (case args of
     [] \<Rightarrow> Some []
   | o' # p # _ \<Rightarrow> if o' = ''-o'' then Some p else None
   | _ \<Rightarrow> None)"

definition main_map :: "map_env \<Rightarrow> string list \<Rightarrow> tool_result" where
  "main_map env args = (case args of
     [] \<Rightarrow> usage 2 new_tool
   | cmd # rest \<Rightarrow>
       if cmd \<in> set [''help'', ''-h'', ''--help''] then usage 0 new_tool
       else if cmd = ''validate'' then (case rest of [p] \<Rightarrow> cmd_validate env p | _ \<Rightarrow> usage 2 new_tool)
       else if cmd = ''doctor'' then (case rest of [p] \<Rightarrow> cmd_doctor env p | _ \<Rightarrow> usage 2 new_tool)
       else if cmd = ''migrate-legacy'' then
         (case rest of [] \<Rightarrow> usage 2 new_tool
          | p # opts \<Rightarrow> (case out_option opts of None \<Rightarrow> usage 2 new_tool | Some out \<Rightarrow> cmd_migrate_legacy env p out))
       else if cmd = ''import-csv'' then
         (case rest of [] \<Rightarrow> usage 2 new_tool
          | p # opts \<Rightarrow> (case import_args opts [] default_import_csv_options of
              Inl t \<Rightarrow> (t, Some 2)
            | Inr (out, opts) \<Rightarrow> cmd_import_csv env p out opts))
       else if cmd = ''gen-nodeset'' then
         (case rest of [] \<Rightarrow> usage 2 new_tool
          | p # opts \<Rightarrow> (case out_option opts of None \<Rightarrow> usage 2 new_tool | Some out \<Rightarrow> cmd_gen_nodeset env p out))
       else usage 2 (complain (''unknown command: '' @ cmd) new_tool))"

section \<open>Exit codes\<close>

lemma no_doctor_errors: "dr_error_count (doctor p) = 0"
proof -
  have "grows empty_report (doctor p)"
    unfolding doctor_def by (rule grows_trans [OF grows_doctor_devices grows_doctor_groups])
  then show ?thesis by (simp add: grows_def empty_report_def)
qed

lemma if_codes: "snd x \<in> C \<Longrightarrow> snd y \<in> C \<Longrightarrow> snd (if b then x else y) \<in> C"
  by simp

lemma usage_codes: "rc \<in> {0, 2} \<Longrightarrow> snd (usage rc t) \<in> {None, Some 0, Some 1, Some 2}"
  by (auto simp: usage_def)

lemma emit_and_load_codes: "snd (emit_and_load env what i out s) \<in> {Some 0, Some 1, Some 2}"
  by (auto simp: emit_and_load_def write_text_def split: sum.split)

text \<open>
  The exit codes of opc-map: only 0, 1 and 2 are used; \<open>validate\<close> and \<open>doctor\<close> both succeed exactly
  when the project loads and fail with 1 exactly when it does not, so no finding of the doctor ever
  changes the exit code.
\<close>

theorem map_exit_codes:
  "snd (main_map env args) \<in> {None, Some 0, Some 1, Some 2} \<and>
   snd (main_map env [''doctor'', p]) = snd (main_map env [''validate'', p]) \<and>
   (snd (main_map env [''validate'', p]) = Some 0 \<longleftrightarrow>
      (\<exists>r. load_file (me_load env) (me_content env) p = Inr r \<and> lr_ok r)) \<and>
   (snd (main_map env [''validate'', p]) = Some 1 \<longleftrightarrow>
      (\<exists>r. load_file (me_load env) (me_content env) p = Inr r \<and> \<not> lr_ok r))"
proof -
  have v: "snd (cmd_validate env p) \<in> {None, Some 0, Some 1, Some 2}" "snd (cmd_doctor env p) = snd (cmd_validate env p)" for p
    by (auto simp: cmd_validate_def cmd_doctor_def Let_def no_doctor_errors split: sum.split)
  have d: "snd (cmd_doctor env p) \<in> {None, Some 0, Some 1, Some 2}" for p
    using v by simp
  have g: "snd (cmd_gen_nodeset env p out) \<in> {None, Some 0, Some 1, Some 2}" for p out
    by (auto simp: cmd_gen_nodeset_def write_text_def Let_def split: sum.split)
  have m: "snd (cmd_migrate_legacy env p out) \<in> {None, Some 0, Some 1, Some 2}"
    "snd (cmd_import_csv env p out opts) \<in> {None, Some 0, Some 1, Some 2}" for p out opts
    using emit_and_load_codes by (auto simp: cmd_migrate_legacy_def cmd_import_csv_def split: sum.split)
  have "snd (main_map env args) \<in> {None, Some 0, Some 1, Some 2}"
  proof (cases args)
    case Nil
    then show ?thesis using usage_codes [of 2] by (simp add: main_map_def)
  next
    case (Cons cmd rest)
    have one: "snd (case rest of [p] \<Rightarrow> f p | _ \<Rightarrow> usage 2 new_tool) \<in> {None, Some 0, Some 1, Some 2}"
      if "\<And>p. snd (f p) \<in> {None, Some 0, Some 1, Some 2}" for f
      using that usage_codes [of 2 new_tool] by (simp split: list.split)
    have more: "snd (case rest of [] \<Rightarrow> usage 2 new_tool | p # opts \<Rightarrow> f p opts) \<in> {None, Some 0, Some 1, Some 2}"
      if "\<And>p opts. snd (f p opts) \<in> {None, Some 0, Some 1, Some 2}" for f
      using that usage_codes [of 2 new_tool] by (simp split: list.split)
    have out: "snd (case o' of None \<Rightarrow> usage 2 new_tool | Some out \<Rightarrow> f out) \<in> {None, Some 0, Some 1, Some 2}"
      if "\<And>out. snd (f out) \<in> {None, Some 0, Some 1, Some 2}" for f o'
      using that usage_codes [of 2 new_tool] by (simp split: option.split)
    have args: "snd (case a of Inl t \<Rightarrow> (t, Some 2) | Inr (out, opts) \<Rightarrow> cmd_import_csv env p out opts)
        \<in> {None, Some 0, Some 1, Some 2}" for a p
      using m(2) by (auto split: sum.split)
    show ?thesis
      unfolding main_map_def Cons list.case
      by (intro if_codes one more out args v(1) d g m usage_codes) simp_all
  qed
  moreover have "snd (cmd_validate env p) = Some 0 \<longleftrightarrow> (\<exists>r. load_file (me_load env) (me_content env) p = Inr r \<and> lr_ok r)"
    "snd (cmd_validate env p) = Some 1 \<longleftrightarrow> (\<exists>r. load_file (me_load env) (me_content env) p = Inr r \<and> \<not> lr_ok r)"
    by (auto simp: cmd_validate_def Let_def split: sum.split)
  ultimately show ?thesis using v(2) by (simp add: main_map_def)
qed

end
