(* ===== verification/Monitor_Client.thy ===== *)
theory Monitor_Client
  imports Migrate_Legacy Opc_Ua_Server
begin

text \<open>
  The OPC UA client of the tool opc-monitor, \<open>tools/opc-monitor/monitor_client.cpp\<close>: connecting with
  the security a command asks for, browsing, subscriptions that survive a reconnection, and the JSON
  events it emits. The client of open62541 is the state \<open>'c\<close> with the calls of \<open>client_lib\<close>; node ids of
  the library are \<open>'n\<close>. A service call may deliver data changes, which come with the context that was
  given for the monitored item, of which the callback uses the two fields that never change. An
  exception that leaves a command is the text in the second component of its result. Events go to a
  sink that does not throw.
\<close>

section \<open>Library\<close>

datatype client_status = CsGood | CsBadUnexpectedError | CsBadInvalidArgument | CsBadNotConnected
  | CsBadNodeIdInvalid | CsBadEntryExists | CsBadNotFound | CsBadNotSupported | CsBadNotImplemented
  | CsBadSecurityChecksFailed | CsOther u32

datatype node_class = NcObject | NcVariable | NcMethod | NcObjectType | NcVariableType | NcReferenceType
  | NcDataType | NcView | NcUnspecified

datatype client_variant = CvEmpty | CvBoolean bool | CvSByte u8 | CvByte u8 | CvInt16 u16 | CvUInt16 u16
  | CvInt32 u32 | CvUInt32 u32 | CvInt64 u64 | CvUInt64 u64 | CvFloat fp | CvDouble fp | CvString string | CvOther

record client_data =
  cd_value :: "client_variant option"
  cd_status :: "client_status option"
  cd_source_ts :: "int option"
  cd_server_ts :: "int option"

type_synonym notification = "(json \<times> string) \<times> client_data"

record 'n reference =
  rf_node :: 'n
  rf_server_index :: u32
  rf_namespace_uri :: string
  rf_browse_name :: string
  rf_namespace :: u16
  rf_display_name :: string
  rf_class :: node_class

record 'n browse_response =
  br_service :: client_status
  br_results :: "(client_status \<times> 'n reference list) list"

datatype client_mode = CmDefault | CmSign | CmSignAndEncrypt

record client_config =
  cc_timeout :: nat
  cc_connectivity_check :: nat
  cc_application_uri :: string
  cc_mode :: client_mode
  cc_policy_uri :: string
  cc_accept_all :: bool

text \<open>Byte strings of files and certificates; \<open>None\<close> is the null byte string.\<close>

record ('c, 'n) client_lib =
  cl_encryption :: bool
  cl_certificate_login :: bool
  cl_code :: "client_status \<Rightarrow> u32"
  cl_name :: "client_status \<Rightarrow> string"
  cl_parse_node :: "string \<Rightarrow> 'n option"
  cl_print_node :: "'n \<Rightarrow> string option"
  cl_file :: "string \<Rightarrow> string option"
  cl_new :: "'c \<Rightarrow> 'c option"
  cl_default_config :: client_config
  cl_create_certificate :: "'c \<Rightarrow> 'c \<times> (client_status + string \<times> string)"
  cl_set_encryption :: "'c \<Rightarrow> string option \<Rightarrow> string option \<Rightarrow> 'c \<times> client_status"
  cl_set_login :: "'c \<Rightarrow> string \<Rightarrow> string \<Rightarrow> 'c \<times> client_status"
  cl_connect :: "'c \<Rightarrow> client_config \<Rightarrow> string \<Rightarrow> (string \<times> string) option \<Rightarrow> 'c \<times> client_status"
  cl_disconnect :: "'c \<Rightarrow> 'c"
  cl_create_subscription :: "'c \<Rightarrow> 'c \<times> (client_status \<times> u32) \<times> notification list"
  cl_delete_subscription :: "'c \<Rightarrow> u32 \<Rightarrow> 'c \<times> client_status \<times> notification list"
  cl_create_item :: "'c \<Rightarrow> u32 \<Rightarrow> 'n \<Rightarrow> fp \<Rightarrow> json \<times> string \<Rightarrow> 'c \<times> (client_status \<times> u32) \<times> notification list"
  cl_delete_item :: "'c \<Rightarrow> u32 \<Rightarrow> u32 \<Rightarrow> 'c \<times> client_status \<times> notification list"
  cl_browse :: "'c \<Rightarrow> 'n \<Rightarrow> 'c \<times> 'n browse_response \<times> notification list"
  cl_iterate :: "'c \<Rightarrow> int \<Rightarrow> 'c \<times> (client_status \<times> bool \<times> client_status) \<times> notification list"

section \<open>Values as JSON\<close>

fun node_class_name :: "node_class \<Rightarrow> string" where
  "node_class_name NcObject = ''Object''"
| "node_class_name NcVariable = ''Variable''"
| "node_class_name NcMethod = ''Method''"
| "node_class_name NcObjectType = ''ObjectType''"
| "node_class_name NcVariableType = ''VariableType''"
| "node_class_name NcReferenceType = ''ReferenceType''"
| "node_class_name NcDataType = ''DataType''"
| "node_class_name NcView = ''View''"
| "node_class_name NcUnspecified = ''Unspecified''"

fun scalar_json :: "client_variant \<Rightarrow> json" where
  "scalar_json CvEmpty = JNull"
| "scalar_json (CvBoolean b) = JBool b"
| "scalar_json (CvSByte w) = JInt (sint w)"
| "scalar_json (CvByte w) = JInt (uint w)"
| "scalar_json (CvInt16 w) = JInt (sint w)"
| "scalar_json (CvUInt16 w) = JInt (uint w)"
| "scalar_json (CvInt32 w) = JInt (sint w)"
| "scalar_json (CvUInt32 w) = JInt (uint w)"
| "scalar_json (CvInt64 w) = JInt (sint w)"
| "scalar_json (CvUInt64 w) = JInt (uint w)"
| "scalar_json (CvFloat x) = JFloat (fp_cast binary64 x)"
| "scalar_json (CvDouble x) = JFloat x"
| "scalar_json (CvString s) = JString s"
| "scalar_json CvOther = JNull"

definition unix_ms :: "int \<Rightarrow> int" where
  "unix_ms t = (if t \<le> 116444736000000000 then 0 else (t - 116444736000000000) div 10000)"

text \<open>Non-negative integers of a parsed document are unsigned.\<close>

fun subscription_key :: "json \<Rightarrow> string + string" where
  "subscription_key (JString s) = Inr (''s:'' @ s)"
| "subscription_key (JInt i) = Inr (if i \<ge> 0 then ''u:'' @ show_nat (nat i) else ''i:'' @ show_int i)"
| "subscription_key j = Inl ''subscriptionId must be a string or integer''"

definition copy_request_id :: "json option \<Rightarrow> (string \<times> json) list \<Rightarrow> (string \<times> json) list" where
  "copy_request_id command event = (case command of
     None \<Rightarrow> event
   | Some j \<Rightarrow> (case member j ''requestId'' of Some v \<Rightarrow> event @ [(''requestId'', v)] | None \<Rightarrow> event))"

section \<open>State\<close>

record item =
  it_external_id :: json
  it_node_id :: string
  it_sampling :: fp
  it_monitored_id :: u32

record 'c monitor =
  mo_client :: 'c
  mo_has_client :: bool
  mo_config :: client_config
  mo_endpoint :: string
  mo_security_mode :: string
  mo_security_policy :: string
  mo_certificate :: string
  mo_private_key :: string
  mo_user_certificate :: string
  mo_user_private_key :: string
  mo_username :: string
  mo_password :: string
  mo_security_ok :: bool
  mo_connected :: bool
  mo_want_connected :: bool
  mo_subscription :: u32
  mo_items :: "(string, item) umap"
  mo_reconnect_at :: timestamp_ms
  mo_events :: "json list"

definition kReconnectDelay :: int where
  "kReconnectDelay = 2000"

definition emit :: "(string \<times> json) list \<Rightarrow> 'c monitor \<Rightarrow> 'c monitor" where
  "emit event m = m\<lparr>mo_events := mo_events m @ [JObject event]\<rparr>"

definition status_fields :: "('c, 'n) client_lib \<Rightarrow> client_status \<Rightarrow> (string \<times> json) list" where
  "status_fields lib st = [(''statusCode'', JInt (uint (cl_code lib st))), (''statusName'', JString (cl_name lib st))]"

definition emit_error :: "('c, 'n) client_lib \<Rightarrow> string \<Rightarrow> client_status \<Rightarrow> json option \<Rightarrow> 'c monitor \<Rightarrow> 'c monitor" where
  "emit_error lib message st command m =
     emit (copy_request_id command ([(''event'', JString ''error''), (''message'', JString message)] @ status_fields lib st)) m"

definition emit_connection :: "('c, 'n) client_lib \<Rightarrow> string \<Rightarrow> client_status \<Rightarrow> json option \<Rightarrow> 'c monitor \<Rightarrow> 'c monitor" where
  "emit_connection lib state st command m =
     emit (copy_request_id command ([(''event'', JString ''connection''), (''state'', JString state),
        (''endpoint'', JString (mo_endpoint m))] @ status_fields lib st)) m"

section \<open>Data changes\<close>

definition on_data_change :: "('c, 'n) client_lib \<Rightarrow> notification \<Rightarrow> 'c monitor \<Rightarrow> 'c monitor" where
  "on_data_change lib n m = (case n of ((external_id, node_id), v) \<Rightarrow>
     let st = (case cd_status v of Some st \<Rightarrow> st | None \<Rightarrow> CsGood)
     in emit ([(''event'', JString ''dataChange''), (''subscriptionId'', external_id), (''nodeId'', JString node_id),
           (''value'', case cd_value v of Some x \<Rightarrow> scalar_json x | None \<Rightarrow> JNull)] @ status_fields lib st @
          (case cd_source_ts v of Some t \<Rightarrow> [(''sourceTimestamp'', JInt (unix_ms t))] | None \<Rightarrow> []) @
          (case cd_server_ts v of Some t \<Rightarrow> [(''serverTimestamp'', JInt (unix_ms t))] | None \<Rightarrow> [])) m)"

text \<open>A service call of the client, with the data changes it delivers.\<close>

definition serve :: "('c, 'n) client_lib \<Rightarrow> ('c \<Rightarrow> 'c \<times> 'r \<times> notification list) \<Rightarrow> 'c monitor \<Rightarrow> 'c monitor \<times> 'r" where
  "serve lib f m = (case f (mo_client m) of (c, r, ns) \<Rightarrow> (fold (on_data_change lib) ns (m\<lparr>mo_client := c\<rparr>), r))"

section \<open>Security\<close>

definition set_client_security :: "string \<Rightarrow> string \<Rightarrow> client_config \<Rightarrow> client_config" where
  "set_client_security mode policy c =
     (let c = c\<lparr>cc_mode := (if mode = ''Sign'' then CmSign else CmSignAndEncrypt)\<rparr>;
          c = (if policy \<in> set [''Basic256Sha256'', ''None'', []]
               then c\<lparr>cc_policy_uri := ''http://opcfoundation.org/UA/SecurityPolicy#Basic256Sha256''\<rparr> else c)
      in c\<lparr>cc_accept_all := True\<rparr>)"

text \<open>The certificate and key of the client: read from the files of the command, or generated.\<close>

definition client_certificate ::
  "('c, 'n) client_lib \<Rightarrow> 'c monitor \<Rightarrow> 'c monitor \<times> (client_status + string option \<times> string option)" where
  "client_certificate lib m =
     (if mo_certificate m \<noteq> [] \<and> mo_private_key m \<noteq> []
      then (m, Inr (cl_file lib (mo_certificate m), cl_file lib (mo_private_key m)))
      else case cl_create_certificate lib (mo_client m) of
        (c, Inl st) \<Rightarrow> (m\<lparr>mo_client := c\<rparr>, Inl st)
      | (c, Inr (cert, key)) \<Rightarrow> (m\<lparr>mo_client := c\<rparr>, Inr (Some cert, Some key)))"

definition wants_security :: "'c monitor \<Rightarrow> bool" where
  "wants_security m \<longleftrightarrow> mo_security_mode m \<notin> set [''None'', []]"

definition apply_security :: "('c, 'n) client_lib \<Rightarrow> 'c monitor \<Rightarrow> 'c monitor" where
  "apply_security lib m =
     (if \<not> wants_security m then m
      else if \<not> cl_encryption lib
      then emit_error lib ''opc-monitor was built without UA encryption support'' CsBadUnexpectedError None (m\<lparr>mo_security_ok := False\<rparr>)
      else case client_certificate lib m of
        (m, Inl st) \<Rightarrow>
          emit_error lib (''failed to generate monitor certificate: '' @ cl_name lib st) st None (m\<lparr>mo_security_ok := False\<rparr>)
      | (m, Inr (cert, key)) \<Rightarrow>
          let m = m\<lparr>mo_config := (mo_config m)\<lparr>cc_application_uri := ''urn:opc-server:monitor''\<rparr>\<rparr>
          in case cl_set_encryption lib (mo_client m) cert key of (c, st) \<Rightarrow>
             let m = m\<lparr>mo_client := c\<rparr>
             in if st \<noteq> CsGood
                then emit_error lib (''failed to set client encryption: '' @ cl_name lib st) st None (m\<lparr>mo_security_ok := False\<rparr>)
                else m\<lparr>mo_config := set_client_security (mo_security_mode m) (mo_security_policy m) (mo_config m)\<rparr>)"

definition reset_client :: "('c, 'n) client_lib \<Rightarrow> 'c monitor \<Rightarrow> 'c monitor \<times> string option" where
  "reset_client lib m = (case cl_new lib (mo_client m) of
     None \<Rightarrow> (m\<lparr>mo_has_client := False\<rparr>, Some ''UA_Client_new failed'')
   | Some c \<Rightarrow>
       (apply_security lib (m\<lparr>mo_client := c, mo_has_client := True, mo_security_ok := True,
          mo_config := (cl_default_config lib)\<lparr>cc_timeout := 3000, cc_connectivity_check := 2000\<rparr>\<rparr>), None))"

definition new_monitor :: "('c, 'n) client_lib \<Rightarrow> 'c \<Rightarrow> 'c monitor \<times> string option" where
  "new_monitor lib c = reset_client lib
     \<lparr>mo_client = c, mo_has_client = False, mo_config = cl_default_config lib, mo_endpoint = [], mo_security_mode = ''None'',
      mo_security_policy = ''None'', mo_certificate = [], mo_private_key = [], mo_user_certificate = [], mo_user_private_key = [],
      mo_username = [], mo_password = [], mo_security_ok = True, mo_connected = False, mo_want_connected = False,
      mo_subscription = 0, mo_items = [], mo_reconnect_at = 0, mo_events = []\<rparr>"

section \<open>Connection\<close>

definition create_server_subscription :: "('c, 'n) client_lib \<Rightarrow> 'c monitor \<Rightarrow> 'c monitor \<times> bool" where
  "create_server_subscription lib m = (case serve lib (cl_create_subscription lib) m of
     (m, st, i) \<Rightarrow>
       if st \<noteq> CsGood then (emit_error lib ''create OPC UA subscription failed'' st None m, False)
       else (m\<lparr>mo_subscription := i\<rparr>, True))"

definition clamp_sampling :: "fp \<Rightarrow> fp" where
  "clamp_sampling x =
     (if fp_less x (fp_of_int binary64 10) then fp_of_int binary64 10
      else if fp_less (fp_of_int binary64 60000) x then fp_of_int binary64 60000 else x)"

text \<open>The id of the new monitored item, \<open>None\<close> when it could not be created.\<close>

definition create_monitored_item :: "('c, 'n) client_lib \<Rightarrow> item \<Rightarrow> 'c monitor \<Rightarrow> 'c monitor \<times> u32 option" where
  "create_monitored_item lib it m = (case cl_parse_node lib (it_node_id it) of
     None \<Rightarrow> (emit_error lib (''invalid nodeId: '' @ it_node_id it) CsBadNodeIdInvalid None m, None)
   | Some node \<Rightarrow>
       (case serve lib (\<lambda>c. cl_create_item lib c (mo_subscription m) node (clamp_sampling (it_sampling it))
                          (it_external_id it, it_node_id it)) m of
          (m, st, i) \<Rightarrow>
            if st \<noteq> CsGood then (emit_error lib (''create monitored item failed for '' @ it_node_id it) st None m, None)
            else (m, Some i)))"

text \<open>The loop of \<open>establish\<close> over the subscriptions: each item keeps its id when it is not created.\<close>

fun restore_items :: "('c, 'n) client_lib \<Rightarrow> string list \<Rightarrow> 'c monitor \<Rightarrow> 'c monitor" where
  "restore_items lib [] m = m"
| "restore_items lib (k # ks) m = (case map_of (mo_items m) k of
     None \<Rightarrow> restore_items lib ks m
   | Some it \<Rightarrow> (case create_monitored_item lib it m of
       (m, None) \<Rightarrow> restore_items lib ks m
     | (m, Some i) \<Rightarrow> restore_items lib ks (m\<lparr>mo_items := AList.update k (it\<lparr>it_monitored_id := i\<rparr>) (mo_items m)\<rparr>)))"

definition not_established ::
  "('c, 'n) client_lib \<Rightarrow> client_status \<Rightarrow> json option \<Rightarrow> 'c monitor \<Rightarrow> 'c monitor \<times> bool" where
  "not_established lib st command m = (emit_connection lib ''disconnected'' st command (m\<lparr>mo_connected := False\<rparr>), False)"

definition established :: "('c, 'n) client_lib \<Rightarrow> json option \<Rightarrow> 'c monitor \<Rightarrow> 'c monitor \<times> bool" where
  "established lib command m =
     (let m = emit_connection lib ''connected'' CsGood command (m\<lparr>mo_connected := True, mo_reconnect_at := 0\<rparr>)
      in if mo_items m = [] then (m, True)
         else case create_server_subscription lib m of
           (m, False) \<Rightarrow> (m, True)
         | (m, True) \<Rightarrow> (restore_items lib (map fst (mo_items m)) m, True))"

definition try_connect ::
  "('c, 'n) client_lib \<Rightarrow> (string \<times> string) option \<Rightarrow> json option \<Rightarrow> 'c monitor \<Rightarrow> 'c monitor \<times> bool" where
  "try_connect lib login command m = (case cl_connect lib (mo_client m) (mo_config m) (mo_endpoint m) login of
     (c, st) \<Rightarrow>
       if st \<noteq> CsGood then not_established lib st command (m\<lparr>mo_client := c\<rparr>)
       else established lib command (m\<lparr>mo_client := c\<rparr>))"

definition connect_with_certificate :: "('c, 'n) client_lib \<Rightarrow> json option \<Rightarrow> 'c monitor \<Rightarrow> 'c monitor \<times> bool" where
  "connect_with_certificate lib command m =
     (if \<not> cl_certificate_login lib
      then not_established lib CsBadNotImplemented command
        (emit_error lib ''opc-monitor was built without certificate authentication support'' CsBadNotImplemented command m)
      else if mo_user_certificate m = [] \<or> mo_user_private_key m = []
      then not_established lib CsBadInvalidArgument command
        (emit_error lib ''userCertificate and userPrivateKey are both required for X509IdentityToken'' CsBadInvalidArgument command m)
      else case (cl_file lib (mo_user_certificate m), cl_file lib (mo_user_private_key m)) of
        (Some cert, Some key) \<Rightarrow>
          (case cl_set_login lib (mo_client m) cert key of (c, st) \<Rightarrow>
             let m = m\<lparr>mo_client := c\<rparr>
             in if st \<noteq> CsGood
                then not_established lib st command (emit_error lib (''failed to set X509IdentityToken: '' @ cl_name lib st) st command m)
                else try_connect lib None command m)
      | _ \<Rightarrow> not_established lib CsBadInvalidArgument command
               (emit_error lib ''failed to read user identity certificate/key'' CsBadInvalidArgument command m))"

definition establish :: "('c, 'n) client_lib \<Rightarrow> json option \<Rightarrow> 'c monitor \<Rightarrow> 'c monitor \<times> bool" where
  "establish lib command m =
     (if \<not> mo_security_ok m then not_established lib CsBadSecurityChecksFailed command m
      else if mo_user_certificate m \<noteq> [] \<or> mo_user_private_key m \<noteq> [] then connect_with_certificate lib command m
      else if mo_username m \<noteq> [] then try_connect lib (Some (mo_username m, mo_password m)) command m
      else try_connect lib None command m)"

definition forget_ids :: "'c monitor \<Rightarrow> 'c monitor" where
  "forget_ids m = m\<lparr>mo_connected := False, mo_subscription := 0,
     mo_items := map (map_prod id (\<lambda>it. it\<lparr>it_monitored_id := 0\<rparr>)) (mo_items m)\<rparr>"

definition close :: "('c, 'n) client_lib \<Rightarrow> bool \<Rightarrow> json option \<Rightarrow> 'c monitor \<Rightarrow> 'c monitor" where
  "close lib notify command m =
     (let m = m\<lparr>mo_want_connected := False\<rparr>;
          m = (if mo_has_client m \<and> mo_connected m then m\<lparr>mo_client := cl_disconnect lib (mo_client m)\<rparr> else m);
          m = forget_ids m
      in if notify \<and> mo_endpoint m \<noteq> [] then emit_connection lib ''disconnected'' CsGood command m else m)"

text \<open>\<open>command.value(key, default)\<close> for a string default, on an object.\<close>

definition value_string :: "json \<Rightarrow> string \<Rightarrow> string \<Rightarrow> string + string" where
  "value_string j k d = (case member j k of
     None \<Rightarrow> Inr d
   | Some (JString s) \<Rightarrow> Inr s
   | Some x \<Rightarrow> Inl (''[json.exception.type_error.302] type must be string, but is '' @ json_type_name x))"

fun take_settings ::
  "json \<Rightarrow> (string \<times> string \<times> (string \<Rightarrow> 'c monitor \<Rightarrow> 'c monitor)) list \<Rightarrow> 'c monitor \<Rightarrow> 'c monitor \<times> string option" where
  "take_settings command [] m = (m, None)"
| "take_settings command ((k, d, upd) # rest) m = (case value_string command k d of
     Inl what \<Rightarrow> (m, Some what)
   | Inr s \<Rightarrow> take_settings command rest (upd s m))"

definition connect_settings :: "(string \<times> string \<times> (string \<Rightarrow> 'c monitor \<Rightarrow> 'c monitor)) list" where
  "connect_settings =
     [(''securityMode'', ''None'', \<lambda>s m. m\<lparr>mo_security_mode := s\<rparr>),
      (''securityPolicy'', ''None'', \<lambda>s m. m\<lparr>mo_security_policy := s\<rparr>),
      (''certificate'', [], \<lambda>s m. m\<lparr>mo_certificate := s\<rparr>),
      (''privateKey'', [], \<lambda>s m. m\<lparr>mo_private_key := s\<rparr>),
      (''userCertificate'', [], \<lambda>s m. m\<lparr>mo_user_certificate := s\<rparr>),
      (''userPrivateKey'', [], \<lambda>s m. m\<lparr>mo_user_private_key := s\<rparr>)]"

text \<open>\<open>later\<close> is the time of the clock at the end of the command.\<close>

definition connect_command :: "('c, 'n) client_lib \<Rightarrow> timestamp_ms \<Rightarrow> json \<Rightarrow> 'c monitor \<Rightarrow> 'c monitor \<times> string option" where
  "connect_command lib later command m = (case string_at command ''endpoint'' of
     None \<Rightarrow> (emit_error lib ''connect requires string endpoint'' CsBadInvalidArgument (Some command) m, None)
   | Some endpoint \<Rightarrow>
       (case take_settings command connect_settings ((close lib False None m)\<lparr>mo_endpoint := endpoint\<rparr>) of
          (m, Some what) \<Rightarrow> (m, Some what)
        | (m, None) \<Rightarrow>
            let m = m\<lparr>mo_username := get_or (string_at command ''username'') [], mo_password := get_or (string_at command ''password'') [],
                      mo_want_connected := True\<rparr>
            in (case reset_client lib m of
                  (m, Some what) \<Rightarrow> (m, Some what)
                | (m, None) \<Rightarrow>
                    (case establish lib (Some command) m of (m, _) \<Rightarrow>
                       (if mo_connected m then m else m\<lparr>mo_reconnect_at := later + kReconnectDelay\<rparr>, None)))))"

section \<open>Browsing\<close>

definition kMaxNodes :: nat where
  "kMaxNodes = 10000"

definition child_json :: "('c, 'n) client_lib \<Rightarrow> 'n reference \<Rightarrow> (string \<times> json) list" where
  "child_json lib r =
     [(''nodeId'', JString (get_or (cl_print_node lib (rf_node r)) [])), (''browseName'', JString (rf_browse_name r)),
      (''namespaceIndex'', JInt (uint (rf_namespace r))), (''displayName'', JString (rf_display_name r)),
      (''nodeClass'', JString (node_class_name (rf_class r)))]"

definition can_recurse :: "nat \<Rightarrow> 'n reference \<Rightarrow> bool" where
  "can_recurse depth r \<longleftrightarrow> depth > 1 \<and> rf_server_index r = 0 \<and> rf_namespace_uri r = [] \<and> rf_class r \<in> set [NcObject, NcView]"

definition browse_status :: "'n browse_response \<Rightarrow> client_status" where
  "browse_status r =
     (if br_service r \<noteq> CsGood then br_service r
      else case br_results r of [(st, _)] \<Rightarrow> st | _ \<Rightarrow> CsBadUnexpectedError)"

text \<open>
  \<open>browse_children\<close> returns the client, the number of nodes, the visited nodes, the status and the
  children; \<open>browse_refs\<close> is its loop over the references.
\<close>

function (sequential) browse_children ::
    "('c, 'n) client_lib \<Rightarrow> nat \<Rightarrow> 'n \<Rightarrow> nat \<Rightarrow> string list \<Rightarrow> 'c monitor \<Rightarrow> 'c monitor \<times> nat \<times> string list \<times> client_status \<times> json list"
and browse_refs ::
    "('c, 'n) client_lib \<Rightarrow> nat \<Rightarrow> 'n reference list \<Rightarrow> nat \<Rightarrow> string list \<Rightarrow> 'c monitor \<Rightarrow> 'c monitor \<times> nat \<times> string list \<times> json list" where
  "browse_children lib depth node count visited m =
     (case serve lib (\<lambda>c. cl_browse lib c node) m of (m, response) \<Rightarrow>
        if browse_status response \<noteq> CsGood then (m, count, visited, browse_status response, [])
        else (case browse_refs lib depth (snd (hd (br_results response))) count visited m of
                (m, count, visited, children) \<Rightarrow> (m, count, visited, CsGood, children)))"
| "browse_refs lib depth [] count visited m = (m, count, visited, [])"
| "browse_refs lib depth (r # rs) count visited m =
     (if count \<ge> kMaxNodes then (m, count, visited, [])
      else let i = get_or (cl_print_node lib (rf_node r)) []
           in if can_recurse depth r \<and> i \<notin> set visited
              then (case browse_children lib (depth - 1) (rf_node r) (count + 1) (i # visited) m of
                      (m, count, visited, _, below) \<Rightarrow>
                        (case browse_refs lib depth rs count visited m of
                           (m, count, visited, children) \<Rightarrow>
                             (m, count, visited, JObject (child_json lib r @ [(''children'', JArray below)]) # children)))
              else (case browse_refs lib depth rs (count + 1) visited m of
                      (m, count, visited, children) \<Rightarrow> (m, count, visited, JObject (child_json lib r) # children)))"
  by pat_completeness auto

termination
  by (relation "measures [\<lambda>x. case x of Inl (lib, depth, _) \<Rightarrow> depth | Inr (lib, depth, _) \<Rightarrow> depth,
        \<lambda>x. case x of Inl _ \<Rightarrow> 1 | Inr _ \<Rightarrow> 0,
        \<lambda>x. case x of Inl _ \<Rightarrow> 0 | Inr (lib, depth, rs, _) \<Rightarrow> length rs]")
     (auto simp: can_recurse_def)

definition clamp_depth :: "int \<Rightarrow> nat" where
  "clamp_depth d = nat (if d < 1 then 1 else if d > 16 then 16 else d)"

definition browse_command :: "('c, 'n) client_lib \<Rightarrow> json \<Rightarrow> 'c monitor \<Rightarrow> 'c monitor" where
  "browse_command lib command m =
     (if \<not> mo_connected m then emit_error lib ''browse requires an active connection'' CsBadNotConnected (Some command) m
      else case string_at command ''nodeId'' of
        None \<Rightarrow> emit_error lib ''browse requires string nodeId'' CsBadInvalidArgument (Some command) m
      | Some input \<Rightarrow> (case cl_parse_node lib input of
          None \<Rightarrow> emit_error lib (''invalid nodeId: '' @ input) CsBadNodeIdInvalid (Some command) m
        | Some node \<Rightarrow>
            (case browse_children lib (clamp_depth (get_or (int_at command ''maxDepth'') 1)) node 0 [input] m of
               (m, count, visited, st, children) \<Rightarrow>
                 if st \<noteq> CsGood then emit_error lib (''browse failed for '' @ input) st (Some command) m
                 else emit (copy_request_id (Some command)
                   [(''event'', JString ''browseResult''), (''nodeId'', JString input), (''children'', JArray children)]) m)))"

section \<open>Subscriptions\<close>

definition subscribe_command :: "('c, 'n) client_lib \<Rightarrow> json \<Rightarrow> 'c monitor \<Rightarrow> 'c monitor" where
  "subscribe_command lib command m =
     (if \<not> mo_connected m then emit_error lib ''subscribe requires an active connection'' CsBadNotConnected (Some command) m
      else case (string_at command ''nodeId'', member command ''subscriptionId'') of
        (Some node_id, Some external_id) \<Rightarrow>
          (case subscription_key external_id of
             Inl what \<Rightarrow> emit_error lib what CsBadInvalidArgument (Some command) m
           | Inr key \<Rightarrow>
               if map_of (mo_items m) key \<noteq> None
               then emit_error lib ''subscriptionId already exists'' CsBadEntryExists (Some command) m
               else (case (if mo_subscription m = 0 then create_server_subscription lib m else (m, True)) of
                       (m, False) \<Rightarrow> m
                     | (m, True) \<Rightarrow>
                         let it = \<lparr>it_external_id = external_id, it_node_id = node_id,
                              it_sampling = get_or (double_at command ''samplingIntervalMs'') (fp_of_int binary64 250), it_monitored_id = 0\<rparr>
                         in (case create_monitored_item lib it m of
                               (m, None) \<Rightarrow> m
                             | (m, Some i) \<Rightarrow> m\<lparr>mo_items := emplace key (it\<lparr>it_monitored_id := i\<rparr>) (mo_items m)\<rparr>)))
      | _ \<Rightarrow> emit_error lib ''subscribe requires nodeId and subscriptionId'' CsBadInvalidArgument (Some command) m)"

text \<open>The end of \<open>unsubscribe\<close>: the item is erased, and with the last one the subscription.\<close>

definition erase_item :: "('c, 'n) client_lib \<Rightarrow> string \<Rightarrow> 'c monitor \<Rightarrow> 'c monitor" where
  "erase_item lib key m =
     (let m = m\<lparr>mo_items := AList.delete key (mo_items m)\<rparr>
      in if mo_items m = [] \<and> mo_connected m \<and> mo_subscription m \<noteq> 0
         then (fst (serve lib (\<lambda>c. cl_delete_subscription lib c (mo_subscription m)) m))\<lparr>mo_subscription := 0\<rparr>
         else m)"

definition unsubscribe_command :: "('c, 'n) client_lib \<Rightarrow> json \<Rightarrow> 'c monitor \<Rightarrow> 'c monitor" where
  "unsubscribe_command lib command m = (case member command ''subscriptionId'' of
     None \<Rightarrow> emit_error lib ''unsubscribe requires subscriptionId'' CsBadInvalidArgument (Some command) m
   | Some external_id \<Rightarrow> (case subscription_key external_id of
       Inl what \<Rightarrow> emit_error lib what CsBadInvalidArgument (Some command) m
     | Inr key \<Rightarrow> (case map_of (mo_items m) key of
         None \<Rightarrow> emit_error lib ''subscriptionId not found'' CsBadNotFound (Some command) m
       | Some it \<Rightarrow>
           if mo_connected m \<and> it_monitored_id it \<noteq> 0
           then (case serve lib (\<lambda>c. cl_delete_item lib c (mo_subscription m) (it_monitored_id it)) m of
                   (m, st) \<Rightarrow>
                     if st \<noteq> CsGood then emit_error lib ''unsubscribe failed'' st (Some command) m
                     else erase_item lib key m)
           else erase_item lib key m)))"

section \<open>Commands and ticks\<close>

definition handle_command :: "('c, 'n) client_lib \<Rightarrow> timestamp_ms \<Rightarrow> json \<Rightarrow> 'c monitor \<Rightarrow> 'c monitor \<times> string option" where
  "handle_command lib later command m = (case string_at command ''command'' of
     None \<Rightarrow> (emit_error lib ''JSON object with string command is required'' CsBadInvalidArgument (Some command) m, None)
   | Some name \<Rightarrow>
       if name = ''connect'' then connect_command lib later command m
       else if name = ''browse'' then (browse_command lib command m, None)
       else if name = ''subscribe'' then (subscribe_command lib command m, None)
       else if name = ''unsubscribe'' then (unsubscribe_command lib command m, None)
       else if name = ''disconnect'' \<or> name = ''shutdown'' then (close lib True (Some command) m, None)
       else (emit_error lib (''unknown command: '' @ name) CsBadNotSupported (Some command) m, None))"

text \<open>\<open>now\<close> and \<open>later\<close>: the clock at the start and at the end of the tick.\<close>

definition tick_client ::
  "('c, 'n) client_lib \<Rightarrow> int \<Rightarrow> timestamp_ms \<Rightarrow> timestamp_ms \<Rightarrow> 'c monitor \<Rightarrow> 'c monitor \<times> string option" where
  "tick_client lib timeout now later m =
     (if \<not> mo_has_client m then (m, None)
      else if mo_connected m
      then (case serve lib (\<lambda>c. cl_iterate lib c (max 0 timeout)) m of
              (m, st, activated, connection_status) \<Rightarrow>
                if st \<noteq> CsGood \<or> \<not> activated
                then ((emit_connection lib ''disconnected'' (if st \<noteq> CsGood then st else connection_status) None (forget_ids m))
                        \<lparr>mo_reconnect_at := later + kReconnectDelay\<rparr>, None)
                else (m, None))
      else if mo_want_connected m \<and> now \<ge> mo_reconnect_at m
      then (case reset_client lib (emit_connection lib ''reconnecting'' CsGood None m) of
              (m, Some what) \<Rightarrow> (m, Some what)
            | (m, None) \<Rightarrow> (case establish lib None m of
                (m, ok) \<Rightarrow> (if ok then m else m\<lparr>mo_reconnect_at := later + kReconnectDelay\<rparr>, None)))
      else (m, None))"

definition shutdown_client :: "('c, 'n) client_lib \<Rightarrow> 'c monitor \<Rightarrow> 'c monitor" where
  "shutdown_client lib m = close lib False None m"

end
