(* ===== verification/Monitor_Laws.thy ===== *)
theory Monitor_Laws
  imports Monitor_Client
begin

text \<open>
  Laws of the client of opc-monitor: what each operation leaves alone, the invariant of its states and
  its preservation by every command and tick, the bounds of a browse, and the reconnection.
\<close>

section \<open>What an operation leaves alone\<close>

text \<open>\<open>quiet\<close>: only the client of the library and the events differ.\<close>

definition quiet :: "'c monitor \<Rightarrow> 'c monitor \<Rightarrow> bool" where
  "quiet m m' \<longleftrightarrow> m' = m\<lparr>mo_client := mo_client m', mo_events := mo_events m'\<rparr>"

lemma quiet_refl [simp]: "quiet m m"
  by (simp add: quiet_def)

lemma quiet_trans [trans]: "quiet m m' \<Longrightarrow> quiet m' m'' \<Longrightarrow> quiet m m''"
  unfolding quiet_def by (cases m; cases m'; cases m'') simp

lemma quiet_client [simp]: "quiet m (m\<lparr>mo_client := c\<rparr>)"
  by (simp add: quiet_def)

lemma quiet_emit [simp]: "quiet m (emit e m)" "quiet m (emit_error lib s st cmd m)" "quiet m (emit_connection lib s st cmd m)"
  by (simp_all add: quiet_def emit_def emit_error_def emit_connection_def)

lemma quiet_fields:
  assumes "quiet m m'"
  shows "mo_has_client m' = mo_has_client m" "mo_config m' = mo_config m" "mo_endpoint m' = mo_endpoint m"
    "mo_security_mode m' = mo_security_mode m" "mo_security_ok m' = mo_security_ok m" "mo_connected m' = mo_connected m"
    "mo_want_connected m' = mo_want_connected m" "mo_subscription m' = mo_subscription m" "mo_items m' = mo_items m"
    "mo_reconnect_at m' = mo_reconnect_at m" "wants_security m' = wants_security m"
proof -
  obtain c e where "m' = m\<lparr>mo_client := c, mo_events := e\<rparr>" using assms unfolding quiet_def by blast
  then show "mo_has_client m' = mo_has_client m" "mo_config m' = mo_config m" "mo_endpoint m' = mo_endpoint m"
    "mo_security_mode m' = mo_security_mode m" "mo_security_ok m' = mo_security_ok m" "mo_connected m' = mo_connected m"
    "mo_want_connected m' = mo_want_connected m" "mo_subscription m' = mo_subscription m" "mo_items m' = mo_items m"
    "mo_reconnect_at m' = mo_reconnect_at m" "wants_security m' = wants_security m"
    by (simp_all add: wants_security_def)
qed

lemma quiet_changes: "quiet m (fold (on_data_change lib) ns m)"
proof (induction ns arbitrary: m)
  case (Cons n ns)
  have "quiet m (on_data_change lib n m)"
    by (simp add: on_data_change_def Let_def split: prod.split)
  then show ?case using Cons.IH quiet_trans by simp blast
qed simp

lemma quiet_serve: "quiet m (fst (serve lib f m))"
  unfolding serve_def by (cases "f (mo_client m)") (auto intro: quiet_trans [OF quiet_client quiet_changes])

lemma quiet_serveD: "serve lib f m = (m', r) \<Longrightarrow> quiet m m'"
  using quiet_serve [of m lib f] by simp

section \<open>Invariant\<close>

definition items_ok :: "(string, item) umap \<Rightarrow> bool" where
  "items_ok its \<longleftrightarrow> distinct (map fst its) \<and>
     (\<forall>k it. map_of its k = Some it \<longrightarrow> subscription_key (it_external_id it) = Inr k)"

definition no_ids :: "'c monitor \<Rightarrow> bool" where
  "no_ids m \<longleftrightarrow> mo_subscription m = 0 \<and> list_all (\<lambda>(k, it). it_monitored_id it = 0) (mo_items m)"

definition secured :: "'c monitor \<Rightarrow> bool" where
  "secured m \<longleftrightarrow> mo_security_ok m \<and>
     (\<not> wants_security m \<or> cc_mode (mo_config m) = (if mo_security_mode m = ''Sign'' then CmSign else CmSignAndEncrypt))"

definition monitor_inv :: "'c monitor \<Rightarrow> bool" where
  "monitor_inv m \<longleftrightarrow> items_ok (mo_items m) \<and>
     (if mo_connected m then mo_has_client m \<and> mo_want_connected m \<and> secured m else no_ids m)"

lemma secured_quiet: "quiet m m' \<Longrightarrow> secured m' = secured m"
  by (simp add: secured_def quiet_fields)

lemma monitor_inv_quiet: "quiet m m' \<Longrightarrow> monitor_inv m' = monitor_inv m"
  by (simp add: monitor_inv_def no_ids_def secured_quiet quiet_fields)

lemma monitor_inv_emit [simp]:
  "monitor_inv (emit e m) = monitor_inv m" "monitor_inv (emit_error lib s st cmd m) = monitor_inv m"
  "monitor_inv (emit_connection lib s st cmd m) = monitor_inv m"
  by (rule monitor_inv_quiet, simp)+

lemma items_ok_update:
  "items_ok its \<Longrightarrow> map_of its k = Some it \<Longrightarrow> items_ok (AList.update k (it\<lparr>it_monitored_id := i\<rparr>) its)"
  by (auto simp: items_ok_def)

lemma items_ok_emplace:
  "items_ok its \<Longrightarrow> subscription_key (it_external_id it) = Inr k \<Longrightarrow> items_ok (emplace k it its)"
  by (auto simp: items_ok_def)

lemma items_ok_delete: "items_ok its \<Longrightarrow> items_ok (AList.delete k its)"
  by (auto simp: items_ok_def distinct_delete)

lemma map_of_map_prod: "map_of (map (map_prod id f) al) k = map_option f (map_of al k)"
  by (induction al) auto

lemma items_ok_map: "items_ok its \<Longrightarrow> items_ok (map (map_prod id (\<lambda>it. it\<lparr>it_monitored_id := i\<rparr>)) its)"
  by (auto simp: items_ok_def map_of_map_prod)

section \<open>Operations and the invariant\<close>

lemma create_server_subscription_frame:
  "create_server_subscription lib m = (m', b) \<Longrightarrow> \<exists>m1 i. quiet m m1 \<and> m' = m1\<lparr>mo_subscription := i\<rparr>"
proof -
  assume a: "create_server_subscription lib m = (m', b)"
  obtain m1 st i where s: "serve lib (cl_create_subscription lib) m = (m1, st, i)" by (metis prod_cases3)
  show ?thesis
  proof (cases "st = CsGood")
    case True
    then show ?thesis using a s quiet_serveD [OF s] by (auto simp: create_server_subscription_def)
  next
    case False
    then have "m' = emit_error lib ''create OPC UA subscription failed'' st None m1"
      using a s by (simp add: create_server_subscription_def)
    then have "quiet m m'" using quiet_trans [OF quiet_serveD [OF s]] by simp
    then show ?thesis by (intro exI [of _ m'] exI [of _ "mo_subscription m'"]) simp
  qed
qed

lemma create_monitored_item_quiet: "create_monitored_item lib it m = (m', r) \<Longrightarrow> quiet m m'"
  by (auto simp: create_monitored_item_def split: option.splits prod.splits if_splits
      intro: quiet_trans [OF quiet_serveD] dest: quiet_serveD)

lemma restore_items_frame:
  "\<exists>m1 its. quiet m m1 \<and> restore_items lib ks m = m1\<lparr>mo_items := its\<rparr> \<and> (items_ok (mo_items m) \<longrightarrow> items_ok its)"
proof (induction ks arbitrary: m)
  case Nil
  show ?case by (intro exI [of _ m] exI [of _ "mo_items m"]) simp
next
  case (Cons k ks)
  show ?case
  proof (cases "map_of (mo_items m) k")
    case None
    then show ?thesis using Cons.IH by simp
  next
    case (Some it)
    obtain m2 r where c: "create_monitored_item lib it m = (m2, r)" by (metis surj_pair)
    note q = create_monitored_item_quiet [OF c]
    show ?thesis
    proof (cases r)
      case None
      obtain m1 its where "quiet m2 m1" "restore_items lib ks m2 = m1\<lparr>mo_items := its\<rparr>" "items_ok (mo_items m2) \<longrightarrow> items_ok its"
        using Cons.IH by blast
      then show ?thesis using Some c None quiet_trans [OF q] quiet_fields(9) [OF q] by auto
    next
      case (Some i)
      let ?m = "m2\<lparr>mo_items := AList.update k (it\<lparr>it_monitored_id := i\<rparr>) (mo_items m2)\<rparr>"
      obtain m1 its where m1: "quiet ?m m1" "restore_items lib ks ?m = m1\<lparr>mo_items := its\<rparr>" "items_ok (mo_items ?m) \<longrightarrow> items_ok its"
        using Cons.IH by blast
      have "quiet m2 (m1\<lparr>mo_items := mo_items m2\<rparr>)"
        using m1(1) unfolding quiet_def by (cases m1; cases m2) simp
      moreover have "items_ok (mo_items m) \<longrightarrow> items_ok its"
        using m1(3) \<open>map_of (mo_items m) k = Some it\<close> quiet_fields(9) [OF q] by (simp add: items_ok_update)
      ultimately show ?thesis
        using Some c \<open>map_of (mo_items m) k = Some it\<close> m1(2) quiet_trans [OF q]
        by (intro exI [of _ "m1\<lparr>mo_items := mo_items m2\<rparr>"] exI [of _ its]) simp
    qed
  qed
qed

lemma emit_update:
  "emit_error lib s st cmd m = m\<lparr>mo_events := mo_events (emit_error lib s st cmd m)\<rparr>"
  "emit_connection lib s st cmd m = m\<lparr>mo_events := mo_events (emit_connection lib s st cmd m)\<rparr>"
  by (simp_all add: emit_error_def emit_connection_def emit_def)

lemma apply_security_frame:
  assumes "mo_security_ok m"
  shows "\<exists>c cfg ok ev. apply_security lib m = m\<lparr>mo_client := c, mo_config := cfg, mo_security_ok := ok, mo_events := ev\<rparr> \<and>
    (ok \<longrightarrow> secured (apply_security lib m))"
proof -
  have off: "\<exists>c cfg ok ev. x = m\<lparr>mo_client := c, mo_config := cfg, mo_security_ok := ok, mo_events := ev\<rparr> \<and> (ok \<longrightarrow> secured x)"
    if "x = emit_error lib s st None (m\<lparr>mo_config := cfg, mo_client := c, mo_security_ok := False\<rparr>)" for x s st c cfg
    using that by (intro exI [of _ c] exI [of _ cfg] exI [of _ False] exI [of _ "mo_events x"]) (simp add: emit_error_def emit_def)
  consider (plain) "\<not> wants_security m" | (unsupported) "wants_security m" "\<not> cl_encryption lib"
    | (secure) "wants_security m" "cl_encryption lib" by blast
  then show ?thesis
  proof cases
    case plain
    then show ?thesis using assms
      by (intro exI [of _ "mo_client m"] exI [of _ "mo_config m"] exI [of _ True] exI [of _ "mo_events m"])
        (simp add: apply_security_def secured_def)
  next
    case unsupported
    then show ?thesis
      by (intro off [where c = "mo_client m" and cfg = "mo_config m"]) (simp add: apply_security_def)
  next
    case secure
    obtain c r where cert: "client_certificate lib m = (m\<lparr>mo_client := c\<rparr>, r)"
    proof (cases "mo_certificate m \<noteq> [] \<and> mo_private_key m \<noteq> []")
      case True
      then show ?thesis by (intro that [of "mo_client m"]) (simp add: client_certificate_def)
    next
      case False
      obtain c r where "cl_create_certificate lib (mo_client m) = (c, r)" by (metis surj_pair)
      then show ?thesis using False by (cases r) (auto simp: client_certificate_def intro!: that [of c] split: prod.split)
    qed
    show ?thesis
    proof (cases r)
      case (Inl st)
      then show ?thesis using secure cert
        by (intro off [where c = c and cfg = "mo_config m"]) (simp add: apply_security_def)
    next
      case (Inr ck)
      obtain cert_bytes key where ck: "ck = (cert_bytes, key)" by (cases ck)
      obtain c' st where e: "cl_set_encryption lib c cert_bytes key = (c', st)" by (metis surj_pair)
      let ?cfg = "(mo_config m)\<lparr>cc_application_uri := ''urn:opc-server:monitor''\<rparr>"
      show ?thesis
      proof (cases "st = CsGood")
        case True
        have "apply_security lib m = m\<lparr>mo_client := c', mo_config := set_client_security (mo_security_mode m) (mo_security_policy m) ?cfg\<rparr>"
          using secure cert Inr ck e True by (simp add: apply_security_def Let_def)
        then show ?thesis using assms
          by (intro exI [of _ c'] exI [of _ "set_client_security (mo_security_mode m) (mo_security_policy m) ?cfg"] exI [of _ True]
              exI [of _ "mo_events m"]) (simp add: secured_def set_client_security_def Let_def)
      next
        case False
        then show ?thesis using secure cert Inr ck e
          by (intro off [where c = c' and cfg = ?cfg]) (simp add: apply_security_def Let_def)
      qed
    qed
  qed
qed

lemma reset_client_frame:
  assumes "reset_client lib m = (m', e)"
  shows "\<exists>c h cfg ok ev. m' = m\<lparr>mo_client := c, mo_has_client := h, mo_config := cfg, mo_security_ok := ok, mo_events := ev\<rparr> \<and>
    (e = None \<longrightarrow> h \<and> (ok \<longrightarrow> secured m'))"
proof (cases "cl_new lib (mo_client m)")
  case None
  then show ?thesis using assms
    by (intro exI [of _ "mo_client m"] exI [of _ False] exI [of _ "mo_config m"] exI [of _ "mo_security_ok m"] exI [of _ "mo_events m"])
      (auto simp: reset_client_def)
next
  case (Some c)
  let ?m = "m\<lparr>mo_client := c, mo_has_client := True, mo_security_ok := True,
          mo_config := (cl_default_config lib)\<lparr>cc_timeout := 3000, cc_connectivity_check := 2000\<rparr>\<rparr>"
  have r: "m' = apply_security lib ?m" "e = None" using assms Some by (simp_all add: reset_client_def)
  have sok: "mo_security_ok ?m" by simp
  obtain c cfg ok ev where a: "apply_security lib ?m = ?m\<lparr>mo_client := c, mo_config := cfg, mo_security_ok := ok, mo_events := ev\<rparr>"
    "ok \<longrightarrow> secured (apply_security lib ?m)"
    using apply_security_frame [OF sok, of lib] by blast
  show ?thesis
    by (intro exI [of _ c] exI [of _ True] exI [of _ cfg] exI [of _ ok] exI [of _ ev] conjI impI)
      (use r a in simp_all)
qed

section \<open>Establishing a connection\<close>

text \<open>The state in which \<open>establish\<close> is called: a fresh client, no ids, and security settled.\<close>

definition ready :: "'c monitor \<Rightarrow> bool" where
  "ready m \<longleftrightarrow> items_ok (mo_items m) \<and> mo_has_client m \<and> mo_want_connected m \<and> \<not> mo_connected m \<and> no_ids m \<and>
     (mo_security_ok m \<longrightarrow> secured m)"

lemma ready_quiet: "quiet m m' \<Longrightarrow> ready m' = ready m"
  by (simp add: ready_def no_ids_def secured_quiet quiet_fields)

lemma ready_client [simp]: "ready (m\<lparr>mo_client := c\<rparr>) = ready m"
  by (rule ready_quiet) simp

lemma ready_inv: "ready m \<Longrightarrow> monitor_inv m"
  by (simp add: ready_def monitor_inv_def)

lemma not_established_inv:
  assumes "ready m" "not_established lib st cmd m = (m', b)"
  shows "monitor_inv m' \<and> \<not> b \<and> \<not> mo_connected m'"
proof -
  have "m\<lparr>mo_connected := False\<rparr> = m" using assms(1) by (simp add: ready_def)
  then have m': "m' = emit_connection lib ''disconnected'' st cmd m" "\<not> b"
    using assms(2) by (auto simp: not_established_def)
  then have "mo_connected m' = mo_connected m"
    using quiet_fields(6) [OF quiet_emit(3)] by simp
  then show ?thesis using m' assms(1) by (simp add: ready_inv) (simp add: ready_def)
qed

lemma established_inv:
  assumes "ready m" "mo_security_ok m" "established lib cmd m = (m', b)"
  shows "monitor_inv m' \<and> b \<and> mo_connected m'"
proof -
  let ?m = "m\<lparr>mo_connected := True, mo_reconnect_at := 0\<rparr>"
  let ?e = "emit_connection lib ''connected'' CsGood cmd ?m"
  have "monitor_inv ?m"
    using assms(1,2) by (simp add: ready_def monitor_inv_def secured_def wants_security_def)
  then have inv: "monitor_inv ?e" "mo_connected ?e"
    by (simp_all add: quiet_fields(6) [OF quiet_emit(3)])
  show ?thesis
  proof (cases "mo_items ?e = []")
    case True
    then show ?thesis using assms(3) inv by (auto simp: established_def Let_def)
  next
    case False
    obtain m2 ok where c: "create_server_subscription lib ?e = (m2, ok)" by (metis surj_pair)
    obtain m1 i where m2: "quiet ?e m1" "m2 = m1\<lparr>mo_subscription := i\<rparr>" using create_server_subscription_frame [OF c] by blast
    have "monitor_inv m1" "mo_connected m1" using inv m2(1) by (simp_all add: monitor_inv_quiet quiet_fields)
    then have i2: "monitor_inv m2" "mo_connected m2" using m2(2) by (simp_all add: monitor_inv_def secured_def wants_security_def)
    show ?thesis
    proof (cases ok)
      case False
      then show ?thesis using assms(3) c \<open>mo_items ?e \<noteq> []\<close> i2 by (simp add: established_def Let_def)
    next
      case True
      obtain m3 its where m3: "quiet m2 m3" "restore_items lib (map fst (mo_items m2)) m2 = m3\<lparr>mo_items := its\<rparr>"
        "items_ok (mo_items m2) \<longrightarrow> items_ok its" using restore_items_frame by blast
      have "monitor_inv m3" "mo_connected m3" using i2 m3(1) by (simp_all add: monitor_inv_quiet quiet_fields)
      then have "monitor_inv (m3\<lparr>mo_items := its\<rparr>)" using m3(3) i2
        by (simp add: monitor_inv_def secured_def wants_security_def)
      moreover have "m' = m3\<lparr>mo_items := its\<rparr>" b
        using assms(3) c \<open>mo_items ?e \<noteq> []\<close> True m3(2) by (simp_all add: established_def Let_def)
      ultimately show ?thesis using \<open>mo_connected m3\<close> by simp
    qed
  qed
qed

lemma try_connect_inv:
  assumes "ready m" "mo_security_ok m" "try_connect lib login cmd m = (m', b)"
  shows "monitor_inv m' \<and> (b \<longleftrightarrow> mo_connected m')"
proof -
  obtain c st where c: "cl_connect lib (mo_client m) (mo_config m) (mo_endpoint m) login = (c, st)" by (metis surj_pair)
  have r: "ready (m\<lparr>mo_client := c\<rparr>)" "mo_security_ok (m\<lparr>mo_client := c\<rparr>)"
    using assms(1,2) by simp_all
  show ?thesis
  proof (cases "st = CsGood")
    case True
    then have "established lib cmd (m\<lparr>mo_client := c\<rparr>) = (m', b)" using assms(3) c by (simp add: try_connect_def)
    from established_inv [OF r this] show ?thesis by simp
  next
    case False
    then have "not_established lib st cmd (m\<lparr>mo_client := c\<rparr>) = (m', b)" using assms(3) c by (simp add: try_connect_def)
    from not_established_inv [OF r(1) this] show ?thesis by simp
  qed
qed

lemma connect_with_certificate_inv:
  assumes "ready m" "mo_security_ok m" "connect_with_certificate lib cmd m = (m', b)"
  shows "monitor_inv m' \<and> (b \<longleftrightarrow> mo_connected m')"
proof -
  have refused: "monitor_inv m' \<and> (b \<longleftrightarrow> mo_connected m')"
    if "not_established lib st cmd (emit_error lib s st' cmd x) = (m', b)" "quiet m x" for st st' s x
  proof -
    have "ready (emit_error lib s st' cmd x)"
      using assms(1) ready_quiet [OF quiet_trans [OF that(2) quiet_emit(2)]] by simp
    from not_established_inv [OF this that(1)] show ?thesis by simp
  qed
  consider (off) "\<not> cl_certificate_login lib"
    | (half) "cl_certificate_login lib" "mo_user_certificate m = [] \<or> mo_user_private_key m = []"
    | (unread) "cl_certificate_login lib" "\<not> (mo_user_certificate m = [] \<or> mo_user_private_key m = [])"
        "cl_file lib (mo_user_certificate m) = None \<or> cl_file lib (mo_user_private_key m) = None"
    | (read) cert key where "cl_certificate_login lib" "\<not> (mo_user_certificate m = [] \<or> mo_user_private_key m = [])"
        "cl_file lib (mo_user_certificate m) = Some cert" "cl_file lib (mo_user_private_key m) = Some key"
    by (metis not_None_eq)
  then show ?thesis
  proof cases
    case read
    obtain c st where c: "cl_set_login lib (mo_client m) cert key = (c, st)" by (metis surj_pair)
    have r: "ready (m\<lparr>mo_client := c\<rparr>)" "mo_security_ok (m\<lparr>mo_client := c\<rparr>)"
      using assms(1,2) by simp_all
    show ?thesis
    proof (cases "st = CsGood")
      case True
      then have "try_connect lib None cmd (m\<lparr>mo_client := c\<rparr>) = (m', b)"
        using assms(3) read c by (simp add: connect_with_certificate_def)
      then show ?thesis by (rule try_connect_inv [OF r])
    next
      case False
      then show ?thesis using assms(3) read c
        by (intro refused [where x = "m\<lparr>mo_client := c\<rparr>"]) (simp_all add: connect_with_certificate_def)
    qed
  next
    case unread
    then show ?thesis using assms(3)
      by (intro refused [where x = m]) (auto simp: connect_with_certificate_def split: option.splits)
  qed (use assms(3) in \<open>auto simp: connect_with_certificate_def intro!: refused [where x = m]\<close>)
qed

lemma establish_inv:
  assumes "ready m" "establish lib cmd m = (m', b)"
  shows "monitor_inv m' \<and> (b \<longleftrightarrow> mo_connected m')"
proof (cases "mo_security_ok m")
  case False
  then have "not_established lib CsBadSecurityChecksFailed cmd m = (m', b)" using assms(2) by (simp add: establish_def)
  from not_established_inv [OF assms(1) this] show ?thesis by simp
next
  case True
  then show ?thesis
    using assms try_connect_inv [OF assms(1) True] connect_with_certificate_inv [OF assms(1) True]
    by (simp add: establish_def split: if_splits)
qed

section \<open>Commands\<close>

lemma monitor_inv_forget: "items_ok (mo_items m) \<Longrightarrow> monitor_inv (forget_ids m)"
  by (simp add: monitor_inv_def forget_ids_def items_ok_map no_ids_def list_all_iff split_beta)

lemma monitor_inv_items: "monitor_inv m \<Longrightarrow> items_ok (mo_items m)"
  by (simp add: monitor_inv_def)

lemma connected_forget [simp]: "\<not> mo_connected (forget_ids m)"
  by (simp add: forget_ids_def)

lemma close_inv: "monitor_inv m \<Longrightarrow> monitor_inv (close lib notify cmd m) \<and> \<not> mo_connected (close lib notify cmd m)"
  by (simp add: close_def Let_def monitor_inv_forget monitor_inv_items quiet_fields(6) [OF quiet_emit(3)])

lemma take_settings_frame:
  assumes "\<forall>(k, d, upd) \<in> set fs. \<forall>x s. P x \<longrightarrow> P (upd s x)" "P m"
  shows "P (fst (take_settings cmd fs m))"
  using assms
proof (induction fs arbitrary: m)
  case (Cons f fs)
  obtain k d upd where "f = (k, d, upd)" by (cases f)
  moreover have "P (fst (take_settings cmd fs (upd s m)))" for s
    using Cons.prems \<open>f = (k, d, upd)\<close> by (intro Cons.IH) auto
  ultimately show ?case using Cons.prems(2) by (cases "value_string cmd k d") auto
qed simp

lemma reset_ready:
  assumes "reset_client lib m = (m', None)" "monitor_inv m" "\<not> mo_connected m" "mo_want_connected m"
  shows "ready m'"
proof -
  obtain c h cfg ok ev where m': "m' = m\<lparr>mo_client := c, mo_has_client := h, mo_config := cfg, mo_security_ok := ok, mo_events := ev\<rparr>"
    "h" "ok \<longrightarrow> secured m'"
    using reset_client_frame [OF assms(1)] by blast
  then show ?thesis using assms(2-4) by (simp add: ready_def monitor_inv_def no_ids_def)
qed

lemma reset_inv:
  assumes "reset_client lib m = (m', e)" "monitor_inv m" "\<not> mo_connected m"
  shows "monitor_inv m' \<and> \<not> mo_connected m'"
  using reset_client_frame [OF assms(1)] assms(2,3) by (auto simp: monitor_inv_def no_ids_def)

lemma monitor_inv_reconnect [simp]: "monitor_inv (m\<lparr>mo_reconnect_at := t\<rparr>) = monitor_inv m"
  by (simp add: monitor_inv_def secured_def wants_security_def no_ids_def)

definition idle :: "'c monitor \<Rightarrow> bool" where
  "idle m \<longleftrightarrow> items_ok (mo_items m) \<and> no_ids m \<and> \<not> mo_connected m"

lemma idle_iff: "idle m \<longleftrightarrow> monitor_inv m \<and> \<not> mo_connected m"
  by (auto simp: idle_def monitor_inv_def)

lemma idle_settings: "\<forall>(k, d, upd) \<in> set connect_settings. \<forall>x s. idle x \<longrightarrow> idle (upd s x)"
  by (simp add: connect_settings_def idle_def no_ids_def)

lemma connect_command_inv:
  assumes "monitor_inv m" shows "monitor_inv (fst (connect_command lib later cmd m))"
proof (cases "string_at cmd ''endpoint''")
  case None
  then show ?thesis using assms by (simp add: connect_command_def)
next
  case (Some endpoint)
  let ?c = "(close lib False None m)\<lparr>mo_endpoint := endpoint\<rparr>"
  obtain m1 e where t: "take_settings cmd connect_settings ?c = (m1, e)" by (metis surj_pair)
  have "monitor_inv ?c \<and> \<not> mo_connected ?c"
    using close_inv [OF assms, of lib False None] by (auto simp: monitor_inv_def no_ids_def)
  then have m1: "monitor_inv m1 \<and> \<not> mo_connected m1"
    using take_settings_frame [OF idle_settings, of ?c cmd] t by (simp add: idle_iff)
  show ?thesis
  proof (cases e)
    case (Some what)
    then show ?thesis using t m1 \<open>string_at cmd ''endpoint'' = Some endpoint\<close> by (simp add: connect_command_def)
  next
    case None
    let ?m = "m1\<lparr>mo_username := get_or (string_at cmd ''username'') [], mo_password := get_or (string_at cmd ''password'') [],
                      mo_want_connected := True\<rparr>"
    have m: "monitor_inv ?m" "\<not> mo_connected ?m" "mo_want_connected ?m"
      using m1 by (auto simp: monitor_inv_def no_ids_def)
    obtain m2 e2 where r: "reset_client lib ?m = (m2, e2)" by (metis surj_pair)
    show ?thesis
    proof (cases e2)
      case (Some what)
      then show ?thesis using t None r reset_inv [OF r m(1,2)] \<open>string_at cmd ''endpoint'' = Some endpoint\<close>
        by (simp add: connect_command_def)
    next
      assume "e2 = None"
      obtain m3 b where s: "establish lib (Some cmd) m2 = (m3, b)" by (metis surj_pair)
      have "monitor_inv m3" using establish_inv [OF reset_ready s] r m \<open>e2 = None\<close> by blast
      then show ?thesis using t None r s \<open>e2 = None\<close> \<open>string_at cmd ''endpoint'' = Some endpoint\<close>
        by (simp add: connect_command_def)
    qed
  qed
qed

section \<open>Browsing is bounded\<close>

text \<open>The objects of a JSON value, and how deep they are nested: the nodes of a browse result.\<close>

fun json_objects :: "json \<Rightarrow> nat" where
  "json_objects (JObject kvs) = Suc (sum_list (map (\<lambda>(k, j). json_objects j) kvs))"
| "json_objects (JArray js) = sum_list (map json_objects js)"
| "json_objects j = 0"

fun json_levels :: "json \<Rightarrow> nat" where
  "json_levels (JObject kvs) = Suc (foldr (\<lambda>(k, j). max (json_levels j)) kvs 0)"
| "json_levels (JArray js) = foldr (\<lambda>j. max (json_levels j)) js 0"
| "json_levels j = 0"

lemma child_json_objects:
  "json_objects (JObject (child_json lib r @ kvs)) = json_objects (JObject kvs)"
  "json_levels (JObject (child_json lib r @ kvs)) = json_levels (JObject kvs)"
  "json_objects (JObject (child_json lib r)) = 1" "json_levels (JObject (child_json lib r)) = 1"
  by (simp_all add: child_json_def)

lemma foldr_max_le: "foldr (\<lambda>j. max (f j)) js (0 :: nat) \<le> n \<longleftrightarrow> list_all (\<lambda>j. f j \<le> n) js"
  by (induction js) auto

definition browsed :: "nat \<Rightarrow> nat \<Rightarrow> string list \<Rightarrow> 'c monitor \<Rightarrow> 'c monitor \<Rightarrow> nat \<Rightarrow> string list \<Rightarrow> json list \<Rightarrow> bool" where
  "browsed depth n vs m m' n' vs' js \<longleftrightarrow> quiet m m' \<and> n' = n + sum_list (map json_objects js) \<and>
     (n \<le> kMaxNodes \<longrightarrow> n' \<le> kMaxNodes) \<and> list_all (\<lambda>j. json_levels j \<le> depth) js \<and> (distinct vs \<longrightarrow> distinct vs')"

lemma browse_bounds:
  "1 \<le> depth \<Longrightarrow> browse_children lib depth node n vs m = (m', n', vs', st, js) \<Longrightarrow> browsed depth n vs m m' n' vs' js"
  "1 \<le> depth \<Longrightarrow> browse_refs lib depth rs n vs m = (m', n', vs', js) \<Longrightarrow> browsed depth n vs m m' n' vs' js"
proof (induction lib depth node n vs m and lib depth rs n vs m arbitrary: m' n' vs' st js and m' n' vs' js
    rule: browse_children_browse_refs.induct)
  case (1 lib depth node n vs m)
  obtain m1 resp where s: "serve lib (\<lambda>c. cl_browse lib c node) m = (m1, resp)" by (metis surj_pair)
  show ?case
  proof (cases "browse_status resp = CsGood")
    case True
    obtain m2 n2 vs2 js2 where r: "browse_refs lib depth (snd (hd (br_results resp))) n vs m1 = (m2, n2, vs2, js2)"
      by (metis prod_cases4)
    have "browsed depth n vs m1 m2 n2 vs2 js2"
      using "1.IH" [OF s [symmetric] _ _ r] True "1.prems"(1) by simp
    then show ?thesis using s r True "1.prems"(2) quiet_trans [OF quiet_serveD [OF s]]
      by (auto simp: browsed_def)
  next
    case False
    then show ?thesis using s "1.prems"(2) quiet_serveD [OF s] by (auto simp: browsed_def)
  qed
next
  case (2 lib depth n vs m)
  then show ?case by (simp add: browsed_def)
next
  case (3 lib depth r rs n vs m)
  let ?i = "get_or (cl_print_node lib (rf_node r)) []"
  consider (full) "n \<ge> kMaxNodes" | (deep) "n < kMaxNodes" "can_recurse depth r" "?i \<notin> set vs"
    | (flat) "n < kMaxNodes" "\<not> (can_recurse depth r \<and> ?i \<notin> set vs)" by linarith
  then show ?case
  proof cases
    case full
    then show ?thesis using "3.prems" by (auto simp: browsed_def)
  next
    case deep
    obtain m1 n1 vs1 st1 js1 where c: "browse_children lib (depth - 1) (rf_node r) (n + 1) (?i # vs) m = (m1, n1, vs1, st1, js1)"
      by (metis prod_cases5)
    obtain m2 n2 vs2 js2 where t: "browse_refs lib depth rs n1 vs1 m1 = (m2, n2, vs2, js2)" by (metis prod_cases4)
    have 1: "browsed (depth - 1) (n + 1) (?i # vs) m m1 n1 vs1 js1"
      using deep c by (intro "3.IH"(1) [OF _ refl _ _ c]) (auto simp: can_recurse_def)
    have 2: "browsed depth n1 vs1 m1 m2 n2 vs2 js2"
      using deep t "3.prems"(1) by (intro "3.IH"(2) [OF _ refl _ c [symmetric] refl refl refl _ t]) auto
    define j where "j = JObject (child_json lib r @ [(''children'', JArray js1)])"
    have r: "n' = n2" "vs' = vs2" "m' = m2" "js = j # js2"
      using deep c t "3.prems"(2) by (simp_all add: j_def)
    have "foldr (\<lambda>j. max (json_levels j)) js1 0 \<le> depth - 1" using 1 unfolding browsed_def foldr_max_le by blast
    then have j: "json_objects j = Suc (sum_list (map json_objects js1))" "json_levels j \<le> depth"
      using deep(2) unfolding j_def child_json_objects can_recurse_def by (simp, simp, linarith)
    have "quiet m m2" using 1 2 quiet_trans by (auto simp: browsed_def)
    then show ?thesis using 1 2 deep r j by (auto simp: browsed_def)
  next
    case flat
    obtain m2 n2 vs2 js2 where t: "browse_refs lib depth rs (n + 1) vs m = (m2, n2, vs2, js2)" by (metis prod_cases4)
    have 2: "browsed depth (n + 1) vs m m2 n2 vs2 js2"
      using flat t "3.prems"(1) by (intro "3.IH"(3) [OF _ refl _ _ t]) auto
    define j where "j = JObject (child_json lib r)"
    have r: "n' = n2" "vs' = vs2" "m' = m2" "js = j # js2"
      using flat t "3.prems"(2) by (auto simp: Let_def j_def split: if_splits)
    have "json_objects j = 1" "json_levels j = 1" unfolding j_def by (simp_all only: child_json_objects)
    then show ?thesis using 2 flat "3.prems"(1) r by (auto simp: browsed_def)
  qed
qed

lemma clamp_depth_range: "1 \<le> clamp_depth d" "clamp_depth d \<le> 16"
  by (auto simp: clamp_depth_def)

lemma browse_command_inv: "monitor_inv (browse_command lib cmd m) = monitor_inv m"
proof -
  have "monitor_inv m' = monitor_inv m" if "browse_children lib (clamp_depth d) node 0 vs m = (m', n, vs', st, js)" for m' d node vs n vs' st js
    using browse_bounds(1) [OF clamp_depth_range(1) that] by (simp add: browsed_def monitor_inv_quiet)
  then show ?thesis
    by (simp add: browse_command_def split: option.split prod.split)
qed

section \<open>Subscriptions\<close>

lemma subscription_inv:
  assumes "monitor_inv m" "mo_connected m" "create_server_subscription lib m = (m', b)"
  shows "monitor_inv m' \<and> mo_connected m' \<and> mo_items m' = mo_items m"
proof -
  obtain m1 i where q: "quiet m m1" "m' = m1\<lparr>mo_subscription := i\<rparr>"
    using create_server_subscription_frame [OF assms(3)] by blast
  have "monitor_inv m1" "mo_connected m1" "mo_items m1 = mo_items m"
    using assms(1,2) q(1) by (simp_all add: monitor_inv_quiet quiet_fields)
  then show ?thesis using q(2) by (simp add: monitor_inv_def secured_def wants_security_def)
qed

lemma monitor_inv_items_update:
  "monitor_inv m \<Longrightarrow> mo_connected m \<Longrightarrow> items_ok its \<Longrightarrow> monitor_inv (m\<lparr>mo_items := its\<rparr>)"
  by (simp add: monitor_inv_def secured_def wants_security_def)

lemma subscribe_command_inv:
  assumes "monitor_inv m" shows "monitor_inv (subscribe_command lib cmd m)"
proof -
  consider (refused) "\<not> (mo_connected m \<and> (\<exists>node_id ext key. string_at cmd ''nodeId'' = Some node_id \<and>
        member cmd ''subscriptionId'' = Some ext \<and> subscription_key ext = Inr key \<and> map_of (mo_items m) key = None))"
    | (go) node_id ext key where "mo_connected m" "string_at cmd ''nodeId'' = Some node_id" "member cmd ''subscriptionId'' = Some ext"
        "subscription_key ext = Inr key" "map_of (mo_items m) key = None"
    by blast
  then show ?thesis
  proof cases
    case refused
    then show ?thesis using assms
      by (cases "string_at cmd ''nodeId''"; cases "member cmd ''subscriptionId''")
        (auto simp: subscribe_command_def split: sum.split)
  next
    case go
    obtain m1 b where s: "(if mo_subscription m = 0 then create_server_subscription lib m else (m, True)) = (m1, b)" by (metis surj_pair)
    have m1: "monitor_inv m1" "mo_connected m1" "mo_items m1 = mo_items m"
      using s go(1) assms subscription_inv [OF assms go(1)] by (auto split: if_splits)
    let ?it = "\<lparr>it_external_id = ext, it_node_id = node_id,
        it_sampling = get_or (double_at cmd ''samplingIntervalMs'') (fp_of_int binary64 250), it_monitored_id = 0\<rparr>"
    obtain m2 r where c: "create_monitored_item lib ?it m1 = (m2, r)" by (metis surj_pair)
    have q: "quiet m1 m2" by (rule create_monitored_item_quiet [OF c])
    have m2: "monitor_inv m2" "mo_connected m2" "mo_items m2 = mo_items m"
      using m1 q by (simp_all add: monitor_inv_quiet quiet_fields)
    show ?thesis
    proof (cases "b \<and> r \<noteq> None")
      case True
      then obtain i where "subscribe_command lib cmd m = m2\<lparr>mo_items := emplace key (?it\<lparr>it_monitored_id := i\<rparr>) (mo_items m2)\<rparr>"
        using go s c by (auto simp: subscribe_command_def Let_def)
      moreover have "items_ok (emplace key (?it\<lparr>it_monitored_id := i\<rparr>) (mo_items m2))"
        using go(4) monitor_inv_items [OF m2(1)] by (intro items_ok_emplace) simp_all
      ultimately show ?thesis using monitor_inv_items_update [OF m2(1,2)] by simp
    next
      case False
      then have "subscribe_command lib cmd m = m1 \<or> subscribe_command lib cmd m = m2"
        using go s c by (cases b) (auto simp: subscribe_command_def Let_def)
      then show ?thesis using m1 m2 by auto
    qed
  qed
qed

lemma erase_item_inv:
  assumes "monitor_inv m" shows "monitor_inv (erase_item lib key m)"
proof -
  let ?m = "m\<lparr>mo_items := AList.delete key (mo_items m)\<rparr>"
  have i: "monitor_inv ?m"
  proof (cases "mo_connected m")
    case True
    then show ?thesis
      using assms by (intro monitor_inv_items_update items_ok_delete monitor_inv_items)
  next
    case False
    then show ?thesis using assms items_ok_delete [of "mo_items m" key]
      by (auto simp: monitor_inv_def no_ids_def list_all_iff AList.delete_eq)
  qed
  moreover have "monitor_inv ((fst (serve lib f ?m))\<lparr>mo_subscription := 0\<rparr>)" if "mo_connected m" for f
  proof -
    have "monitor_inv (fst (serve lib f ?m))" "mo_connected (fst (serve lib f ?m))"
      using i that quiet_serve [of ?m lib f] by (simp_all add: monitor_inv_quiet quiet_fields)
    then show ?thesis by (simp add: monitor_inv_def secured_def wants_security_def)
  qed
  ultimately show ?thesis by (auto simp: erase_item_def Let_def)
qed

lemma unsubscribe_command_inv:
  assumes "monitor_inv m" shows "monitor_inv (unsubscribe_command lib cmd m)"
proof -
  have "monitor_inv m'" if "serve lib f m = (m', st)" for f m' and st :: client_status
    using monitor_inv_quiet [OF quiet_serveD [OF that]] assms by simp
  then show ?thesis using assms
    by (auto simp: unsubscribe_command_def erase_item_inv split: option.split sum.split prod.split)
qed

section \<open>Ticks\<close>

lemma tick_client_inv:
  assumes "monitor_inv m" shows "monitor_inv (fst (tick_client lib timeout now later m))"
proof -
  consider (nothing) "\<not> mo_has_client m \<or> \<not> mo_connected m \<and> \<not> (mo_want_connected m \<and> now \<ge> mo_reconnect_at m)"
    | (online) "mo_has_client m" "mo_connected m"
    | (again) "mo_has_client m" "\<not> mo_connected m" "mo_want_connected m" "now \<ge> mo_reconnect_at m"
    by blast
  then show ?thesis
  proof cases
    case nothing
    then show ?thesis using assms by (auto simp: tick_client_def)
  next
    case online
    obtain m1 st act cs where s: "serve lib (\<lambda>c. cl_iterate lib c (max 0 timeout)) m = (m1, st, act, cs)" by (metis prod_cases4)
    have "monitor_inv m1" using assms monitor_inv_quiet [OF quiet_serveD [OF s]] by simp
    then show ?thesis using online s by (simp add: tick_client_def monitor_inv_forget monitor_inv_items)
  next
    case again
    let ?e = "emit_connection lib ''reconnecting'' CsGood None m"
    have e: "monitor_inv ?e" "\<not> mo_connected ?e" "mo_want_connected ?e"
      using assms again by (simp_all add: quiet_fields [OF quiet_emit(3)])
    obtain m1 x where r: "reset_client lib ?e = (m1, x)" by (metis surj_pair)
    obtain m2 ok where s: "establish lib None m1 = (m2, ok)" by (metis surj_pair)
    show ?thesis
    proof (cases x)
      case None
      have "monitor_inv m2" using establish_inv [OF reset_ready s] r e None by blast
      then show ?thesis using again r s None by (simp add: tick_client_def)
    next
      case (Some what)
      then show ?thesis using again r s reset_inv [OF r e(1,2)] by (simp add: tick_client_def)
    qed
  qed
qed

section \<open>Reachable states\<close>

inductive monitor_step :: "('c, 'n) client_lib \<Rightarrow> 'c monitor \<Rightarrow> 'c monitor \<Rightarrow> bool" for lib where
  step_command: "monitor_step lib m (fst (handle_command lib later command m))"
| step_tick: "monitor_step lib m (fst (tick_client lib timeout now later m))"
| step_shutdown: "monitor_step lib m (shutdown_client lib m)"

lemma handle_command_inv: "monitor_inv m \<Longrightarrow> monitor_inv (fst (handle_command lib later cmd m))"
  by (simp add: handle_command_def connect_command_inv browse_command_inv subscribe_command_inv unsubscribe_command_inv close_inv
      split: option.split)

lemma monitor_step_inv: "monitor_step lib m m' \<Longrightarrow> monitor_inv m \<Longrightarrow> monitor_inv m'"
  by (induction rule: monitor_step.induct) (simp_all add: handle_command_inv tick_client_inv shutdown_client_def close_inv)

lemma new_monitor_inv: "monitor_inv (fst (new_monitor lib c))"
proof -
  let ?m = "\<lparr>mo_client = c, mo_has_client = False, mo_config = cl_default_config lib, mo_endpoint = [], mo_security_mode = ''None'',
      mo_security_policy = ''None'', mo_certificate = [], mo_private_key = [], mo_user_certificate = [], mo_user_private_key = [],
      mo_username = [], mo_password = [], mo_security_ok = True, mo_connected = False, mo_want_connected = False,
      mo_subscription = 0, mo_items = [], mo_reconnect_at = 0, mo_events = []\<rparr>"
  have "monitor_inv ?m" "\<not> mo_connected ?m" by (simp_all add: monitor_inv_def items_ok_def no_ids_def)
  moreover obtain m' e where r: "reset_client lib ?m = (m', e)" by (metis surj_pair)
  ultimately have "monitor_inv m'" using reset_inv by blast
  then show ?thesis using r by (simp add: new_monitor_def)
qed

lemma monitor_reachable_inv:
  assumes "(monitor_step lib)\<^sup>*\<^sup>* (fst (new_monitor lib c)) m" shows "monitor_inv m"
  using assms by (induction rule: rtranclp_induct) (simp_all add: new_monitor_inv monitor_step_inv)

text \<open>
  C23: In every state the monitor reaches by commands, ticks and shutdowns, whatever the library
  answers: a connected client exists, is wanted, and has the message security that the last connect
  command asked for; without a connection no subscription or monitored item id of a former session
  is kept; and the subscriptions have distinct keys, the keys of their ids.
\<close>

theorem monitor_session_safe:
  assumes "(monitor_step lib)\<^sup>*\<^sup>* (fst (new_monitor lib c)) m"
  shows "(mo_connected m \<longrightarrow> mo_has_client m \<and> mo_want_connected m \<and>
      (mo_security_mode m \<in> {''None'', []} \<or>
       cc_mode (mo_config m) = (if mo_security_mode m = ''Sign'' then CmSign else CmSignAndEncrypt))) \<and>
    (\<not> mo_connected m \<longrightarrow> mo_subscription m = 0 \<and> (\<forall>(k, it) \<in> set (mo_items m). it_monitored_id it = 0)) \<and>
    distinct (map fst (mo_items m)) \<and>
    (\<forall>k it. map_of (mo_items m) k = Some it \<longrightarrow> subscription_key (it_external_id it) = Inr k)"
  using monitor_reachable_inv [OF assms]
  by (auto simp: monitor_inv_def items_ok_def no_ids_def secured_def wants_security_def list_all_iff split: if_splits)


section \<open>Reconnection\<close>

text \<open>A library and server that grant everything the monitor of state \<open>m\<close> needs to reconnect.\<close>

definition accepts_client :: "('c, 'n) client_lib \<Rightarrow> bool" where
  "accepts_client lib \<longleftrightarrow> cl_encryption lib \<and> cl_certificate_login lib \<and> (\<forall>c. cl_new lib c \<noteq> None) \<and>
     (\<forall>c. \<exists>c' k. cl_create_certificate lib c = (c', Inr k)) \<and> (\<forall>c x y. snd (cl_set_encryption lib c x y) = CsGood) \<and>
     (\<forall>c x y. snd (cl_set_login lib c x y) = CsGood) \<and> (\<forall>c cfg e l. snd (cl_connect lib c cfg e l) = CsGood)"

definition accepts_items :: "('c, 'n) client_lib \<Rightarrow> bool" where
  "accepts_items lib \<longleftrightarrow> (\<forall>c. fst (fst (snd (cl_create_subscription lib c))) = CsGood) \<and>
     (\<forall>c s n x ctx. fst (fst (snd (cl_create_item lib c s n x ctx))) = CsGood \<and> snd (fst (snd (cl_create_item lib c s n x ctx))) \<noteq> 0)"

definition login_complete :: "('c, 'n) client_lib \<Rightarrow> 'c monitor \<Rightarrow> bool" where
  "login_complete lib m \<longleftrightarrow> mo_user_certificate m = [] \<and> mo_user_private_key m = [] \<or>
     mo_user_certificate m \<noteq> [] \<and> mo_user_private_key m \<noteq> [] \<and>
     cl_file lib (mo_user_certificate m) \<noteq> None \<and> cl_file lib (mo_user_private_key m) \<noteq> None"

lemma serve_result: "snd (serve lib f m) = fst (snd (f (mo_client m)))"
  by (simp add: serve_def split: prod.split)

lemma create_item_accepted:
  assumes "accepts_items lib" "cl_parse_node lib (it_node_id it) \<noteq> None"
  obtains m' i where "create_monitored_item lib it m = (m', Some i)" "i \<noteq> 0"
proof -
  obtain node where n: "cl_parse_node lib (it_node_id it) = Some node" using assms(2) by blast
  define f where "f = (\<lambda>c. cl_create_item lib c (mo_subscription m) node (clamp_sampling (it_sampling it)) (it_external_id it, it_node_id it))"
  obtain m' st i where s: "serve lib f m = (m', st, i)" by (metis prod_cases3)
  have "(st, i) = fst (snd (f (mo_client m)))" using serve_result [of lib f m] s by simp
  then have "st = CsGood" "i \<noteq> 0" using assms(1) unfolding accepts_items_def f_def by (metis fst_conv, metis snd_conv)
  then show thesis using n s that by (simp add: create_monitored_item_def f_def)
qed

lemma restore_items_accepted:
  assumes "accepts_items lib" "\<forall>k it. map_of (mo_items m) k = Some it \<longrightarrow> cl_parse_node lib (it_node_id it) \<noteq> None"
    "map_of (mo_items m) k = Some it"
  shows "\<exists>i. map_of (mo_items (restore_items lib ks m)) k = Some (it\<lparr>it_monitored_id := i\<rparr>) \<and>
    (k \<in> set ks \<or> it_monitored_id it \<noteq> 0 \<longrightarrow> i \<noteq> 0)"
  using assms(2,3)
proof (induction ks arbitrary: m it)
  case Nil
  then show ?case by (auto intro: exI [of _ "it_monitored_id it"])
next
  case (Cons k' ks)
  show ?case
  proof (cases "map_of (mo_items m) k'")
    case None
    then show ?thesis using Cons.IH [OF Cons.prems] Cons.prems(2) by auto
  next
    case (Some it')
    obtain m1 i where c: "create_monitored_item lib it' m = (m1, Some i)" "i \<noteq> 0"
      using create_item_accepted [OF assms(1)] Cons.prems(1) Some by metis
    have q: "mo_items m1 = mo_items m" using create_monitored_item_quiet [OF c(1)] by (rule quiet_fields)
    let ?m = "m1\<lparr>mo_items := AList.update k' (it'\<lparr>it_monitored_id := i\<rparr>) (mo_items m1)\<rparr>"
    have p: "\<forall>k it. map_of (mo_items ?m) k = Some it \<longrightarrow> cl_parse_node lib (it_node_id it) \<noteq> None"
      using Cons.prems(1) Some q by auto
    show ?thesis
    proof (cases "k = k'")
      case True
      then have "map_of (mo_items ?m) k = Some (it\<lparr>it_monitored_id := i\<rparr>)" using Some Cons.prems(2) by simp
      from Cons.IH [OF p this] show ?thesis using Some c True by auto
    next
      case False
      then have "map_of (mo_items ?m) k = Some it" using q Cons.prems(2) by simp
      from Cons.IH [OF p this] show ?thesis using Some c False by auto
    qed
  qed
qed

lemma apply_security_accepted:
  assumes "accepts_client lib" "mo_security_ok m" shows "mo_security_ok (apply_security lib m)"
proof -
  obtain c cert key where "client_certificate lib m = (m\<lparr>mo_client := c\<rparr>, Inr (cert, key))"
  proof (cases "mo_certificate m \<noteq> [] \<and> mo_private_key m \<noteq> []")
    case True
    then show ?thesis by (intro that [of "mo_client m"]) (simp add: client_certificate_def)
  next
    case False
    obtain c k where "cl_create_certificate lib (mo_client m) = (c, Inr k)" using assms(1) unfolding accepts_client_def by metis
    then show ?thesis using False by (cases k) (auto simp: client_certificate_def intro!: that [of c])
  qed
  moreover have "snd (cl_set_encryption lib c' x y) = CsGood" for c' x y using assms(1) by (simp add: accepts_client_def)
  ultimately show ?thesis using assms by (auto simp: apply_security_def accepts_client_def Let_def case_prod_unfold)
qed

lemma established_accepted:
  assumes "accepts_items lib" "\<forall>k it. map_of (mo_items m) k = Some it \<longrightarrow> cl_parse_node lib (it_node_id it) \<noteq> None"
    "established lib cmd m = (m', b)" "map_of (mo_items m) k = Some it"
  shows "mo_connected m' \<and> (\<exists>i. i \<noteq> 0 \<and> map_of (mo_items m') k = Some (it\<lparr>it_monitored_id := i\<rparr>))"
proof -
  let ?e = "emit_connection lib ''connected'' CsGood cmd (m\<lparr>mo_connected := True, mo_reconnect_at := 0\<rparr>)"
  obtain m1 st i where s: "serve lib (cl_create_subscription lib) ?e = (m1, st, i)" by (metis prod_cases3)
  have "st = CsGood" using serve_result [of lib "cl_create_subscription lib" ?e] s assms(1)
    unfolding accepts_items_def by (metis fst_conv snd_conv)
  then have c: "create_server_subscription lib ?e = (m1\<lparr>mo_subscription := i\<rparr>, True)"
    using s by (simp add: create_server_subscription_def)
  let ?m = "m1\<lparr>mo_subscription := i\<rparr>"
  have q: "mo_items ?m = mo_items m" "mo_items ?e = mo_items m" "mo_connected ?m"
    by (simp_all add: quiet_fields [OF quiet_serveD [OF s]] quiet_fields [OF quiet_emit(3)])
  have "mo_items ?e \<noteq> []" using assms(4) q by auto
  then have m': "m' = restore_items lib (map fst (mo_items ?m)) ?m" using assms(3) c by (simp add: established_def Let_def)
  have "k \<in> set (map fst (mo_items ?m))" using assms(4) q(1) by (metis map_of_eq_None_iff option.distinct(1) set_map)
  moreover obtain i where "map_of (mo_items m') k = Some (it\<lparr>it_monitored_id := i\<rparr>)" "k \<in> set (map fst (mo_items ?m)) \<longrightarrow> i \<noteq> 0"
    using restore_items_accepted [OF assms(1), of ?m k it "map fst (mo_items ?m)"] assms(2,4) unfolding q(1) m' by auto
  moreover obtain m3 its where "quiet ?m m3" "m' = m3\<lparr>mo_items := its\<rparr>" using restore_items_frame m' by blast
  ultimately show ?thesis using q(3) quiet_fields(6) [of ?m m3] by auto
qed

lemma establish_accepted:
  assumes "accepts_client lib" "login_complete lib m" "mo_security_ok m"
  shows "\<exists>c. establish lib cmd m = established lib cmd (m\<lparr>mo_client := c\<rparr>)"
proof -
  have t: "\<exists>c. try_connect lib login cmd x = established lib cmd (x\<lparr>mo_client := c\<rparr>)" for login x
    using assms(1) by (auto simp: try_connect_def accepts_client_def case_prod_unfold)
  consider (plain) "mo_user_certificate m = []" "mo_user_private_key m = []"
    | (cert) x y where "mo_user_certificate m \<noteq> []" "mo_user_private_key m \<noteq> []"
        "cl_file lib (mo_user_certificate m) = Some x" "cl_file lib (mo_user_private_key m) = Some y"
    using assms(2) unfolding login_complete_def by blast
  then show ?thesis
  proof cases
    case plain
    then show ?thesis using assms(3) t [of _ m] by (simp add: establish_def)
  next
    case cert
    let ?m = "m\<lparr>mo_client := fst (cl_set_login lib (mo_client m) x y)\<rparr>"
    have "establish lib cmd m = try_connect lib None cmd ?m"
      using cert assms(1,3) by (simp add: establish_def connect_with_certificate_def accepts_client_def Let_def case_prod_unfold)
    then show ?thesis using t [of None ?m] by simp
  qed
qed

text \<open>
  C24: A monitor that lost its connection, or could not connect, gets it back: at the first tick after
  the reconnect delay, with a server that accepts it, the monitor is connected again and every
  subscription of its user is monitored again, under its own id and with its node and interval.
\<close>

theorem monitor_reconnects:
  assumes "(monitor_step lib)\<^sup>*\<^sup>* (fst (new_monitor lib c)) m" "mo_has_client m" "mo_want_connected m" "\<not> mo_connected m"
    "mo_reconnect_at m \<le> now" "accepts_client lib" "accepts_items lib" "login_complete lib m"
    "\<forall>k it. map_of (mo_items m) k = Some it \<longrightarrow> cl_parse_node lib (it_node_id it) \<noteq> None"
  shows "\<exists>m'. tick_client lib timeout now later m = (m', None) \<and> mo_connected m' \<and>
    (\<forall>k it. map_of (mo_items m) k = Some it \<longrightarrow>
       (\<exists>i. i \<noteq> 0 \<and> map_of (mo_items m') k = Some (it\<lparr>it_monitored_id := i\<rparr>)))"
proof -
  let ?e = "emit_connection lib ''reconnecting'' CsGood None m"
  have e: "monitor_inv ?e" "\<not> mo_connected ?e" "mo_want_connected ?e" "mo_items ?e = mo_items m"
    using monitor_reachable_inv [OF assms(1)] assms(3,4) by (simp_all add: quiet_fields [OF quiet_emit(3)])
  obtain c' where n: "cl_new lib (mo_client ?e) = Some c'" using assms(6) unfolding accepts_client_def by blast
  then obtain m1 where r: "reset_client lib ?e = (m1, None)" by (simp add: reset_client_def)
  have ok: "mo_security_ok m1"
    using r n apply_security_accepted [OF assms(6)] by (auto simp: reset_client_def)
  have m1: "mo_items m1 = mo_items m" "login_complete lib m1"
    using reset_client_frame [OF r] e(4) assms(8) by (auto simp: login_complete_def emit_connection_def emit_def)
  obtain c2 where est: "establish lib None m1 = established lib None (m1\<lparr>mo_client := c2\<rparr>)"
    using establish_accepted [OF assms(6) m1(2) ok] by blast
  obtain m2 b where m2: "established lib None (m1\<lparr>mo_client := c2\<rparr>) = (m2, b)" by (metis surj_pair)
  have ready: "ready (m1\<lparr>mo_client := c2\<rparr>)" using reset_ready [OF r e(1-3)] by simp
  have "b" "mo_connected m2" using established_inv [OF ready _ m2] ok by simp_all
  moreover have "\<exists>i. i \<noteq> 0 \<and> map_of (mo_items m2) k = Some (it\<lparr>it_monitored_id := i\<rparr>)" if "map_of (mo_items m) k = Some it" for k it
    using established_accepted [OF assms(7) _ m2, of k it] assms(9) m1(1) that by simp
  moreover have "tick_client lib timeout now later m = (m2, None)"
    using assms(2-5) r est m2 \<open>b\<close> by (simp add: tick_client_def)
  ultimately show ?thesis by blast
qed

section \<open>A small library\<close>

definition lab_client :: "(nat, string) client_lib" where
  "lab_client = \<lparr>cl_encryption = True, cl_certificate_login = True, cl_code = (\<lambda>_. 0), cl_name = (\<lambda>_. []),
     cl_parse_node = Some, cl_print_node = Some, cl_file = (\<lambda>_. None), cl_new = (\<lambda>c. Some (c + 1)),
     cl_default_config = \<lparr>cc_timeout = 5000, cc_connectivity_check = 0, cc_application_uri = [], cc_mode = CmDefault,
       cc_policy_uri = [], cc_accept_all = False\<rparr>,
     cl_create_certificate = (\<lambda>c. (c, Inr (''cert'', ''key''))), cl_set_encryption = (\<lambda>c x y. (c, CsGood)),
     cl_set_login = (\<lambda>c x y. (c, CsGood)), cl_connect = (\<lambda>c cfg e l. (c, CsGood)), cl_disconnect = id,
     cl_create_subscription = (\<lambda>c. (c, (CsGood, 7), [])), cl_delete_subscription = (\<lambda>c i. (c, CsGood, [])),
     cl_create_item = (\<lambda>c s n x ctx. (c, (CsGood, 3), [])), cl_delete_item = (\<lambda>c s i. (c, CsGood, [])),
     cl_browse = (\<lambda>c n. (c, \<lparr>br_service = CsGood, br_results = [(CsGood, [])]\<rparr>, [])),
     cl_iterate = (\<lambda>c t. (c, (CsGood, False, CsBadNotConnected), []))\<rparr>"

definition lab_connect :: json where
  "lab_connect = JObject [(''command'', JString ''connect''), (''endpoint'', JString ''opc.tcp://plc''), (''securityMode'', JString ''Sign'')]"

definition lab_subscribe :: json where
  "lab_subscribe = JObject [(''command'', JString ''subscribe''), (''nodeId'', JString ''i=85''), (''subscriptionId'', JString ''a'')]"

definition lab_online :: "nat monitor" where
  "lab_online = fst (handle_command lab_client 0 lab_connect (fst (new_monitor lab_client 0)))"

definition lab_lost :: "nat monitor" where
  "lab_lost = fst (tick_client lab_client 0 50 100 (fst (handle_command lab_client 0 lab_subscribe lab_online)))"

lemmas lab_monitor_defs = lab_client_def lab_connect_def lab_subscribe_def handle_command_def new_monitor_def reset_client_def
  apply_security_def wants_security_def string_at_def connect_command_def close_def forget_ids_def take_settings.simps
  connect_settings_def value_string_def client_certificate_def set_client_security_def establish_def try_connect_def
  established_def emit_connection_def emit_def copy_request_id_def status_fields_def subscribe_command_def
  create_server_subscription_def create_monitored_item_def serve_def tick_client_def

lemma lab_online_eval: "mo_connected lab_online" "mo_security_mode lab_online = ''Sign''" "mo_has_client lab_online"
  by (simp_all add: lab_online_def lab_monitor_defs Let_def)

lemma lab_online_reachable: "(monitor_step lab_client)\<^sup>*\<^sup>* (fst (new_monitor lab_client 0)) lab_online"
  unfolding lab_online_def by (rule r_into_rtranclp, rule step_command)

theorem monitor_session_safe_witness: "cc_mode (mo_config lab_online) = CmSign \<and> mo_want_connected lab_online"
  using monitor_session_safe [OF lab_online_reachable] lab_online_eval by simp

lemma lab_lost_reachable: "(monitor_step lab_client)\<^sup>*\<^sup>* (fst (new_monitor lab_client 0)) lab_lost"
  unfolding lab_lost_def
  by (rule rtranclp.rtrancl_into_rtrancl [OF rtranclp.rtrancl_into_rtrancl [OF lab_online_reachable step_command] step_tick])

lemma lab_lost_eval: "mo_has_client lab_lost" "mo_want_connected lab_lost" "\<not> mo_connected lab_lost" "mo_reconnect_at lab_lost = 2100"
  "map_of (mo_items lab_lost) ''s:a'' \<noteq> None" "login_complete lab_client lab_lost"
  by (simp_all add: lab_lost_def lab_online_def lab_monitor_defs Let_def kReconnectDelay_def login_complete_def emplace_def)

theorem monitor_reconnects_witness:
  "\<exists>m' it. tick_client lab_client 0 2100 2200 lab_lost = (m', None) \<and> mo_connected m' \<and>
     map_of (mo_items m') ''s:a'' = Some it \<and> it_monitored_id it \<noteq> 0"
proof -
  have a: "accepts_client lab_client" "accepts_items lab_client"
    by (simp_all add: accepts_client_def accepts_items_def lab_client_def)
  have "\<forall>k it. map_of (mo_items lab_lost) k = Some it \<longrightarrow> cl_parse_node lab_client (it_node_id it) \<noteq> None"
    by (simp add: lab_client_def)
  from monitor_reconnects [OF lab_lost_reachable lab_lost_eval(1,2,3) _ a lab_lost_eval(6) this, of 2100 0 2200]
  obtain m' where m': "tick_client lab_client 0 2100 2200 lab_lost = (m', None)" "mo_connected m'"
    "\<forall>k it. map_of (mo_items lab_lost) k = Some it \<longrightarrow>
       (\<exists>i. i \<noteq> 0 \<and> map_of (mo_items m') k = Some (it\<lparr>it_monitored_id := i\<rparr>))"
    using lab_lost_eval(4) by auto
  obtain it where "map_of (mo_items lab_lost) ''s:a'' = Some it" using lab_lost_eval(5) by blast
  then obtain i where "i \<noteq> 0" "map_of (mo_items m') ''s:a'' = Some (it\<lparr>it_monitored_id := i\<rparr>)" using m'(3) by blast
  then show ?thesis using m'(1,2) by auto
qed

end
