(* ===== verification/Monitor_Main.thy ===== *)
theory Monitor_Main
  imports Monitor_Laws
begin

text \<open>
  The program opc-monitor, \<open>tools/opc-monitor/main.cpp\<close>: a reader of command lines and a worker that
  handles the commands and ticks the client, and the way of a tag value from the gateway to an event
  of the monitor. The reader and the worker share the queue of commands under a mutex; their steps
  interleave. The JSON parser is a parameter; \<open>std::getline\<close> gives the lines.
\<close>

section \<open>Input\<close>

definition kMaxLineBytes :: nat where
  "kMaxLineBytes = 1024 * 1024"

datatype line_outcome = SkippedLine | RejectedLine string | AcceptedLine json bool

definition strip_cr :: "string \<Rightarrow> string" where
  "strip_cr line = (if line \<noteq> [] \<and> last line = CHR 0x0D then butlast line else line)"

text \<open>An accepted line comes with the test whether it is the shutdown command.\<close>

definition read_line :: "(string \<Rightarrow> json_outcome) \<Rightarrow> string \<Rightarrow> line_outcome" where
  "read_line parse line0 =
     (let line = strip_cr line0
      in if line = [] then SkippedLine
         else if length line > kMaxLineBytes then RejectedLine ''input line exceeds 1 MiB''
         else case parse line of
           JsonParseError what \<Rightarrow> RejectedLine (''invalid JSON: '' @ what)
         | JsonOtherError what \<Rightarrow> RejectedLine (''invalid JSON: '' @ what)
         | JsonValue j \<Rightarrow>
             if \<not> is_object j then AcceptedLine j False
             else case value_string j ''command'' [] of
               Inl what \<Rightarrow> RejectedLine (''invalid JSON: '' @ what)
             | Inr s \<Rightarrow> AcceptedLine j (s = ''shutdown''))"

definition is_shutdown :: "json \<Rightarrow> bool" where
  "is_shutdown j \<longleftrightarrow> is_object j \<and> value_string j ''command'' [] = Inr ''shutdown''"

section \<open>Reader and worker\<close>

text \<open>
  A worker waits for commands, handles the pending ones, or has ended; an exception that leaves the
  client ends the process. \<open>mn_accepted\<close> and \<open>mn_handled\<close> only record what was read and handled.
\<close>

datatype worker_phase = Waiting | Handling | Ended | Terminated string

record 'c main_state =
  mn_monitor :: "'c monitor"
  mn_commands :: "json list"
  mn_pending :: "json list"
  mn_reading :: bool
  mn_closed :: bool
  mn_phase :: worker_phase
  mn_input_errors :: "string list"
  mn_accepted :: "json list"
  mn_handled :: "json list"

definition main_start :: "'c monitor \<Rightarrow> 'c main_state" where
  "main_start m = \<lparr>mn_monitor = m, mn_commands = [], mn_pending = [], mn_reading = True, mn_closed = False, mn_phase = Waiting,
     mn_input_errors = [], mn_accepted = [], mn_handled = []\<rparr>"

definition take_line :: "(string \<Rightarrow> json_outcome) \<Rightarrow> string \<Rightarrow> 'c main_state \<Rightarrow> 'c main_state" where
  "take_line parse line s = (case read_line parse line of
     SkippedLine \<Rightarrow> s
   | RejectedLine e \<Rightarrow> s\<lparr>mn_input_errors := mn_input_errors s @ [e]\<rparr>
   | AcceptedLine j shutdown \<Rightarrow>
       s\<lparr>mn_commands := mn_commands s @ [j], mn_accepted := mn_accepted s @ [j], mn_reading := \<not> shutdown\<rparr>)"

text \<open>The worker takes the queue; with the input closed and nothing left it shuts the client down.\<close>

definition take_commands :: "('c, 'n) client_lib \<Rightarrow> 'c main_state \<Rightarrow> 'c main_state" where
  "take_commands lib s =
     (if mn_closed s \<and> mn_commands s = []
      then s\<lparr>mn_pending := [], mn_monitor := shutdown_client lib (mn_monitor s), mn_phase := Ended\<rparr>
      else s\<lparr>mn_pending := mn_commands s, mn_commands := [], mn_phase := Handling\<rparr>)"

definition handle_pending :: "('c, 'n) client_lib \<Rightarrow> timestamp_ms \<Rightarrow> json \<Rightarrow> json list \<Rightarrow> 'c main_state \<Rightarrow> 'c main_state" where
  "handle_pending lib later command rest s = (case handle_command lib later command (mn_monitor s) of
     (m, Some what) \<Rightarrow> s\<lparr>mn_monitor := m, mn_phase := Terminated what\<rparr>
   | (m, None) \<Rightarrow>
       let s = s\<lparr>mn_monitor := m, mn_pending := rest, mn_handled := mn_handled s @ [command]\<rparr>
       in if is_shutdown command then s\<lparr>mn_monitor := shutdown_client lib m, mn_phase := Ended\<rparr> else s)"

definition worker_tick :: "('c, 'n) client_lib \<Rightarrow> timestamp_ms \<Rightarrow> timestamp_ms \<Rightarrow> 'c main_state \<Rightarrow> 'c main_state" where
  "worker_tick lib now later s = (case tick_client lib 0 now later (mn_monitor s) of
     (m, Some what) \<Rightarrow> s\<lparr>mn_monitor := m, mn_phase := Terminated what\<rparr>
   | (m, None) \<Rightarrow> s\<lparr>mn_monitor := m, mn_phase := Waiting\<rparr>)"

inductive worker_step :: "('c, 'n) client_lib \<Rightarrow> 'c main_state \<Rightarrow> 'c main_state \<Rightarrow> bool" for lib where
  work_take: "mn_phase s = Waiting \<Longrightarrow> worker_step lib s (take_commands lib s)"
| work_handle: "mn_phase s = Handling \<Longrightarrow> mn_pending s = c # cs \<Longrightarrow> worker_step lib s (handle_pending lib later c cs s)"
| work_tick: "mn_phase s = Handling \<Longrightarrow> mn_pending s = [] \<Longrightarrow> worker_step lib s (worker_tick lib now later s)"

inductive reader_step :: "(string \<Rightarrow> json_outcome) \<Rightarrow> 'c main_state \<Rightarrow> 'c main_state \<Rightarrow> bool" for parse where
  read_next: "mn_reading s \<Longrightarrow> reader_step parse s (take_line parse line s)"
| read_eof: "mn_reading s \<Longrightarrow> reader_step parse s (s\<lparr>mn_reading := False\<rparr>)"
| read_close: "\<not> mn_reading s \<Longrightarrow> reader_step parse s (s\<lparr>mn_closed := True\<rparr>)"

inductive_cases worker_stepE: "worker_step lib s s'"
inductive_cases reader_stepE: "reader_step parse s s'"

definition main_step :: "(string \<Rightarrow> json_outcome) \<Rightarrow> ('c, 'n) client_lib \<Rightarrow> 'c main_state \<Rightarrow> 'c main_state \<Rightarrow> bool" where
  "main_step parse lib s s' \<longleftrightarrow> reader_step parse s s' \<or> worker_step lib s s'"

section \<open>Commands are handled in their order\<close>

definition main_inv :: "'c main_state \<Rightarrow> bool" where
  "main_inv s \<longleftrightarrow> monitor_inv (mn_monitor s) \<and> (mn_closed s \<longrightarrow> \<not> mn_reading s) \<and>
     (case mn_phase s of
        Waiting \<Rightarrow> mn_pending s = [] \<and> mn_accepted s = mn_handled s @ mn_commands s
      | Handling \<Rightarrow> mn_accepted s = mn_handled s @ mn_pending s @ mn_commands s
      | Ended \<Rightarrow> mn_accepted s = mn_handled s @ mn_pending s @ mn_commands s \<and>
          (mn_closed s \<and> mn_pending s = [] \<and> mn_commands s = [] \<or> (mn_handled s \<noteq> [] \<and> is_shutdown (last (mn_handled s))))
      | Terminated what \<Rightarrow> mn_accepted s = mn_handled s @ mn_pending s @ mn_commands s)"

lemma take_line_inv: "main_inv s \<Longrightarrow> mn_reading s \<Longrightarrow> main_inv (take_line parse line s)"
  by (auto simp: take_line_def main_inv_def split: line_outcome.split worker_phase.splits)

lemma reader_step_inv: "reader_step parse s s' \<Longrightarrow> main_inv s \<Longrightarrow> main_inv s'"
  by (induction rule: reader_step.induct) (simp_all add: take_line_inv, auto simp: main_inv_def split: worker_phase.splits)

lemma take_commands_inv: "mn_phase s = Waiting \<Longrightarrow> main_inv s \<Longrightarrow> main_inv (take_commands lib s)"
  by (simp add: take_commands_def main_inv_def shutdown_client_def close_inv)

lemma handle_pending_inv:
  assumes "mn_phase s = Handling" "mn_pending s = c # cs" "main_inv s"
  shows "main_inv (handle_pending lib later c cs s)"
proof -
  obtain m x where h: "handle_command lib later c (mn_monitor s) = (m, x)" by (metis surj_pair)
  have "monitor_inv m" using handle_command_inv [of "mn_monitor s" lib later c] assms(1,3) h by (simp add: main_inv_def)
  then show ?thesis using assms h
    by (cases x) (auto simp: handle_pending_def main_inv_def Let_def shutdown_client_def close_inv)
qed

lemma worker_tick_inv:
  assumes "mn_phase s = Handling" "mn_pending s = []" "main_inv s"
  shows "main_inv (worker_tick lib now later s)"
proof -
  obtain m x where h: "tick_client lib 0 now later (mn_monitor s) = (m, x)" by (metis surj_pair)
  have "monitor_inv m" using tick_client_inv [of "mn_monitor s" lib 0 now later] assms(1,3) h by (simp add: main_inv_def)
  then show ?thesis using assms h by (cases x) (simp_all add: worker_tick_def main_inv_def)
qed

lemma main_step_inv: "main_step parse lib s s' \<Longrightarrow> main_inv s \<Longrightarrow> main_inv s'"
  unfolding main_step_def
  by (auto elim!: worker_stepE simp: reader_step_inv take_commands_inv handle_pending_inv worker_tick_inv)

lemma main_start_inv: "main_inv (main_start (fst (new_monitor lib c)))"
  by (simp add: main_start_def main_inv_def new_monitor_inv)

lemma main_reachable_inv:
  assumes "(main_step parse lib)\<^sup>*\<^sup>* (main_start (fst (new_monitor lib c))) s" shows "main_inv s"
  using assms by (induction rule: rtranclp_induct) (simp_all add: main_step_inv main_start_inv)

text \<open>
  C25: However the reader and the worker interleave, the commands are handled in the order of the
  input, each at most once and none is skipped; while the worker runs nothing that was accepted is
  lost; and it ends only after a shutdown command, or with everything handled at the end of the
  input.
\<close>

theorem monitor_commands_in_order:
  assumes "(main_step parse lib)\<^sup>*\<^sup>* (main_start (fst (new_monitor lib c))) s"
  shows "mn_accepted s = mn_handled s @ mn_pending s @ mn_commands s \<and>
    (mn_phase s = Ended \<longrightarrow>
       mn_closed s \<and> mn_handled s = mn_accepted s \<or> mn_handled s \<noteq> [] \<and> is_shutdown (last (mn_handled s)))"
  using main_reachable_inv [OF assms] by (auto simp: main_inv_def split: worker_phase.splits)

section \<open>The worker ends\<close>

definition work_left :: "'c main_state \<Rightarrow> nat" where
  "work_left s = (case mn_phase s of
     Waiting \<Rightarrow> (if mn_commands s = [] then 1 else length (mn_commands s) + 3)
   | Handling \<Rightarrow> length (mn_pending s) + 2 + (if mn_commands s = [] then 0 else length (mn_commands s) + 2)
   | _ \<Rightarrow> 0)"

lemma worker_step_decreases:
  assumes "worker_step lib s s'" "mn_closed s" shows "work_left s' < work_left s \<and> mn_closed s'"
  using assms(1)
proof (cases rule: worker_step.cases)
  case work_take
  then show ?thesis using assms(2) by (auto simp: take_commands_def work_left_def)
next
  case (work_handle c cs later)
  then show ?thesis using assms(2)
    by (auto simp: handle_pending_def work_left_def Let_def split: prod.split option.split)
next
  case (work_tick now later)
  then show ?thesis using assms(2)
    by (auto simp: worker_tick_def work_left_def split: prod.split option.split)
qed

lemma worker_can_step: "mn_phase s \<in> {Waiting, Handling} \<Longrightarrow> \<exists>s'. worker_step lib s s'"
  by (cases "mn_pending s") (auto intro: worker_step.intros)

text \<open>
  Once the input is closed the worker ends, whatever the library answers: its runs have at most
  \<open>work_left\<close> steps, a bound by the commands left, and it stops only when it has ended or an exception
  ended the process.
\<close>

theorem monitor_worker_ends:
  assumes "mn_closed s" "(worker_step lib ^^ n) s s'"
  shows "n + work_left s' \<le> work_left s \<and> ((\<nexists>s''. worker_step lib s' s'') \<longleftrightarrow> mn_phase s' \<notin> {Waiting, Handling})"
proof -
  have "mn_closed s' \<and> n + work_left s' \<le> work_left s" using assms(2)
  proof (induction n arbitrary: s')
    case (Suc n)
    then obtain t where t: "(worker_step lib ^^ n) s t" "worker_step lib t s'" by auto
    then show ?case using Suc.IH [OF t(1)] worker_step_decreases [OF t(2)] by simp
  qed (use assms(1) in simp)
  moreover have "\<not> worker_step lib s' s''" if "mn_phase s' \<notin> {Waiting, Handling}" for s''
    using that by (auto elim: worker_stepE)
  ultimately show ?thesis using worker_can_step by blast
qed

section \<open>Exceptions\<close>

definition bad_setting :: "json \<Rightarrow> string \<Rightarrow> bool" where
  "bad_setting command k \<longleftrightarrow> (case member command k of None \<Rightarrow> False | Some j \<Rightarrow> as_string j = None)"

lemma value_string_bad: "(\<exists>what. value_string j k d = Inl what) \<longleftrightarrow> bad_setting j k"
  by (auto simp: value_string_def bad_setting_def split: option.split json.split)

lemma take_settings_bad: "snd (take_settings command fs m) \<noteq> None \<longleftrightarrow> (\<exists>f \<in> set fs. bad_setting command (fst f))"
proof (induction fs arbitrary: m)
  case (Cons f fs)
  obtain k d upd where f: "f = (k, d, upd)" by (cases f)
  show ?case
  proof (cases "value_string command k d")
    case (Inl what)
    then show ?thesis using f value_string_bad [of command k d] by auto
  next
    case (Inr v)
    then show ?thesis using f Cons.IH value_string_bad [of command k d] by simp
  qed
qed simp

text \<open>
  As long as the library gives a client, a command lets an exception escape, which ends the
  process, exactly when it is a connect command with an end point in which one of six settings is
  not a string.
\<close>

theorem monitor_command_exceptions:
  assumes "\<forall>c. cl_new lib c \<noteq> None"
  shows "snd (handle_command lib later command m) \<noteq> None \<longleftrightarrow>
    string_at command ''command'' = Some ''connect'' \<and> string_at command ''endpoint'' \<noteq> None \<and>
    list_ex (bad_setting command)
      [''securityMode'', ''securityPolicy'', ''certificate'', ''privateKey'', ''userCertificate'', ''userPrivateKey'']"
proof -
  have r: "reset_client lib x \<noteq> (y, Some what)" for x y what
  proof -
    obtain c where "cl_new lib (mo_client x) = Some c" using assms by blast
    then show ?thesis by (simp add: reset_client_def)
  qed
  have c: "snd (connect_command lib later command m) \<noteq> None \<longleftrightarrow>
      string_at command ''endpoint'' \<noteq> None \<and> (\<exists>k \<in> set (map fst (connect_settings :: (_ \<times> _ \<times> (_ \<Rightarrow> 'a monitor \<Rightarrow> _)) list)). bad_setting command k)"
  proof (cases "string_at command ''endpoint''")
    case (Some e)
    let ?c = "(close lib False None m)\<lparr>mo_endpoint := e\<rparr>"
    obtain m1 x where t: "take_settings command connect_settings ?c = (m1, x)" by (metis surj_pair)
    have b: "x \<noteq> None \<longleftrightarrow> (\<exists>k \<in> set (map fst (connect_settings :: (_ \<times> _ \<times> (_ \<Rightarrow> 'a monitor \<Rightarrow> _)) list)). bad_setting command k)"
      using take_settings_bad [of command connect_settings ?c] t by simp
    have "snd (connect_command lib later command m) = x"
      using Some t r by (cases x) (auto simp: connect_command_def Let_def split: prod.split option.split)
    then show ?thesis using Some b by simp
  qed (simp add: connect_command_def)
  have "snd (handle_command lib later command m) \<noteq> None \<longleftrightarrow>
      string_at command ''command'' = Some ''connect'' \<and> snd (connect_command lib later command m) \<noteq> None"
    by (simp add: handle_command_def split: option.split)
  then show ?thesis unfolding c by (simp add: connect_settings_def)
qed

section \<open>From the gateway to the monitor\<close>

text \<open>The data value the server reads, as the client receives it; status codes are translated by \<open>f\<close>.\<close>

fun on_wire :: "ua_variant \<Rightarrow> client_variant" where
  "on_wire VEmpty = CvEmpty"
| "on_wire (VBool b) = CvBoolean b"
| "on_wire (VUInt16 w) = CvUInt16 w"
| "on_wire (VInt16 w) = CvInt16 w"
| "on_wire (VUInt32 w) = CvUInt32 w"
| "on_wire (VInt32 w) = CvInt32 w"
| "on_wire (VFloat x) = CvFloat x"
| "on_wire (VDouble x) = CvDouble x"
| "on_wire (VUInt64 w) = CvUInt64 w"
| "on_wire (VString s) = CvString s"

definition received :: "(ua_status \<Rightarrow> client_status) \<Rightarrow> ua_data_value \<Rightarrow> client_data" where
  "received f v = \<lparr>cd_value = map_option on_wire (dv_value v), cd_status = Some (f (dv_status v)),
     cd_source_ts = dv_source_timestamp v, cd_server_ts = dv_server_timestamp v\<rparr>"

fun scalar_as_json :: "scalar_value \<Rightarrow> json" where
  "scalar_as_json SMono = JNull"
| "scalar_as_json (SBool b) = JBool b"
| "scalar_as_json (SU16 w) = JInt (uint w)"
| "scalar_as_json (SI16 w) = JInt (sint w)"
| "scalar_as_json (SU32 w) = JInt (uint w)"
| "scalar_as_json (SI32 w) = JInt (sint w)"
| "scalar_as_json (SF32 x) = JFloat (fp_cast binary64 x)"
| "scalar_as_json (SF64 x) = JFloat x"

lemma scalar_json_fill: "fill_variant ty v = Some x \<Longrightarrow> scalar_json (on_wire x) = scalar_as_json v"
  by (cases ty; cases v) auto

lemma unix_ms_roundtrip [simp]: "0 < t \<Longrightarrow> unix_ms (ms_to_ua_datetime t) = t"
  by (simp add: unix_ms_def ms_to_ua_datetime_def)

text \<open>
  A tag value of the store reaches the user of the monitor unchanged: the event for the data value
  that the server reads for the tag has its value as JSON, the status of its quality, and the two time
  stamps in the milliseconds in which the gateway keeps them.
\<close>

lemma monitor_sees_tag:
  assumes "us_has_store s" "get st (ctx_tag_id ctx) = Some tv" "fill_variant (ctx_type ctx) (tv_value tv) \<noteq> None"
    "0 < tv_source_ts tv" "0 < tv_server_ts tv"
  shows "on_data_change lib ((external_id, node), received f (data_source_read s st ctx True)) m =
    emit ([(''event'', JString ''dataChange''), (''subscriptionId'', external_id), (''nodeId'', JString node),
        (''value'', scalar_as_json (tv_value tv))] @ status_fields lib (f (dv_status (data_source_read s st ctx True))) @
      [(''sourceTimestamp'', JInt (tv_source_ts tv)), (''serverTimestamp'', JInt (tv_server_ts tv))]) m"
proof -
  obtain x where x: "fill_variant (ctx_type ctx) (tv_value tv) = Some x" using assms(3) by blast
  then have "tv_value tv \<noteq> SMono" by (cases "ctx_type ctx"; cases "tv_value tv") auto
  then show ?thesis using assms x scalar_json_fill [OF x]
    by (simp add: on_data_change_def received_def data_source_read_def Let_def)
qed

section \<open>Examples\<close>

definition lab_main :: "nat main_state" where
  "lab_main = take_commands lab_client (take_line (\<lambda>_. JsonValue lab_connect) ''{}'' (main_start (fst (new_monitor lab_client 0))))"

lemma lab_main_reachable:
  "(main_step (\<lambda>_. JsonValue lab_connect) lab_client)\<^sup>*\<^sup>* (main_start (fst (new_monitor lab_client 0))) lab_main"
proof -
  let ?s = "main_start (fst (new_monitor lab_client 0))" and ?p = "\<lambda>_ :: string. JsonValue lab_connect"
  have "main_step ?p lab_client ?s (take_line ?p ''{}'' ?s)"
    unfolding main_step_def by (intro disjI1 read_next) (simp add: main_start_def)
  moreover have "main_step ?p lab_client (take_line ?p ''{}'' ?s) lab_main"
    unfolding main_step_def lab_main_def
    by (intro disjI2 work_take) (simp add: main_start_def take_line_def split: line_outcome.split)
  ultimately show ?thesis by (meson r_into_rtranclp rtranclp.rtrancl_into_rtrancl)
qed

theorem monitor_commands_in_order_witness:
  "mn_pending lab_main = [lab_connect] \<and> mn_accepted lab_main = mn_handled lab_main @ mn_pending lab_main @ mn_commands lab_main"
  using monitor_commands_in_order [OF lab_main_reachable]
  by (simp add: lab_main_def main_start_def take_line_def take_commands_def read_line_def strip_cr_def kMaxLineBytes_def
      lab_connect_def value_string_def)

definition lab_closed :: "nat main_state" where
  "lab_closed = (main_start (fst (new_monitor lab_client 0)))\<lparr>mn_reading := False, mn_closed := True\<rparr>"

theorem monitor_worker_ends_witness:
  "work_left (take_commands lab_client lab_closed) = 0 \<and> mn_phase (take_commands lab_client lab_closed) = Ended"
proof -
  have "(worker_step lab_client ^^ 1) lab_closed (take_commands lab_client lab_closed)"
    by (simp only: relpowp_1) (rule work_take, simp add: lab_closed_def main_start_def)
  from monitor_worker_ends [OF _ this] show ?thesis
    by (simp add: lab_closed_def main_start_def work_left_def take_commands_def)
qed

theorem monitor_command_exceptions_witness:
  "snd (handle_command lab_client 0 (JObject [(''command'', JString ''connect''), (''endpoint'', JString ''e''), (''securityMode'', JInt 1)])
     (fst (new_monitor lab_client 0))) \<noteq> None"
proof -
  have "\<forall>c. cl_new lab_client c \<noteq> None" by (simp add: lab_client_def)
  from monitor_command_exceptions [OF this] show ?thesis by (simp add: string_at_def bad_setting_def)
qed

definition lab_seen :: tag_value where
  "lab_seen = \<lparr>tv_value = SU16 42, tv_quality = Good, tv_reason = QR_None, tv_source_ts = 1000, tv_server_ts = 1001, tv_epoch = 1\<rparr>"

definition lab_context :: node_context where
  "lab_context = \<lparr>ctx_tag_id = 1, ctx_type = TUInt16, ctx_writable = False\<rparr>"

definition lab_read :: ua_data_value where
  "lab_read = data_source_read (lab_server\<lparr>us_has_store := True\<rparr>) ((empty_tag_store :: unit tag_store)\<lparr>ts_values := [(1, lab_seen)]\<rparr>) lab_context True"

theorem monitor_sees_tag_witness:
  "mo_events (on_data_change lab_client ((JString ''a'', ''ns=1;i=7''), received (\<lambda>_. CsGood) lab_read) lab_online) =
   mo_events lab_online @ [JObject [(''event'', JString ''dataChange''), (''subscriptionId'', JString ''a''),
     (''nodeId'', JString ''ns=1;i=7''), (''value'', JInt 42), (''statusCode'', JInt 0), (''statusName'', JString []),
     (''sourceTimestamp'', JInt 1000), (''serverTimestamp'', JInt 1001)]]"
proof -
  have 1: "us_has_store (lab_server\<lparr>us_has_store := True\<rparr>)" by simp
  have 2: "get ((empty_tag_store :: unit tag_store)\<lparr>ts_values := [(1, lab_seen)]\<rparr>) (ctx_tag_id lab_context) = Some lab_seen"
    by (simp add: get_def lab_context_def)
  have 3: "fill_variant (ctx_type lab_context) (tv_value lab_seen) \<noteq> None" "0 < tv_source_ts lab_seen" "0 < tv_server_ts lab_seen"
    by (simp_all add: lab_context_def lab_seen_def)
  show ?thesis
    unfolding lab_read_def monitor_sees_tag [OF 1 2 3] by (simp add: emit_def status_fields_def lab_client_def lab_seen_def)
qed

end
