(* ===== verification/Spec2Isabelle.thy ===== *)
theory Spec2Isabelle
  imports Application Runtime_Reactor Map_Tool Monitor_Main
begin

text \<open>
  Verification of the OPC server gateway: a C++ program that polls Modbus devices, keeps the last value
  of every tag, publishes the tags over OPC UA and carries writes of OPC UA clients back to the devices.
  Beside the gateway the repository has two command line tools, opc-map for project documents and
  opc-monitor, an OPC UA client. Paths below are relative to \<open>src/\<close>.

  \<^bold>\<open>The program.\<close> A project document (JSON) names endpoints, the devices on them, the tags of the devices
  and poll groups. \<open>Application::init\<close> parses the command line, loads and validates the document and
  builds a \<open>ServerRuntime\<close>, which owns a Modbus transport per endpoint, the dispatcher with the tag
  store, a historian and the OPC UA server. A reactor ticks every endpoint on its own strand. A tick
  polls the due groups of the endpoint through the dispatcher; the dispatcher reads registers from the
  transport, decodes them, and publishes value and quality in the tag store; subscribers of the store
  (historian, OPC UA server) are called with each change. A client write is queued by the
  dispatcher and flushed to the transport in a posted handler or at the next tick.

  \<^bold>\<open>Theories, sources and what is shown.\<close>

  \<^item> \<open>Gateway_Prelude\<close>: names of the machine types, collections of simplification rules, lemmas on
    association lists (the model of \<open>std::map\<close> and \<open>std::unordered_map\<close>) and on bytes of words.
    \<open>Text_Util\<close>: the stream and string functions of the C++ library the text formats use.
  \<^item> \<open>Floating\<close>: executable IEEE 754 binary32 and binary64 with one rounding per operation, and when an
    operation is exact. \<open>Domain\<close> (\<open>Src/domain/\<close>): scalar values, qualities, errors and the
    result type; its third value \<open>Undef\<close> stands for undefined behaviour, so that its absence is memory
    safety. \<open>Project_Types\<close> (\<open>Src/project/types.hpp\<close>): the configuration records.
  \<^item> \<open>Translator\<close> (\<open>Src/core/translator.cpp\<close>): \<open>decode\<close> and \<open>encode\<close>. Round trip, no wrap-around of
    integers, the type of decoded values, when a call is undefined.
  \<^item> \<open>Tag_Store\<close>, \<open>Runtime_Index\<close> (\<open>Src/core/\<close>): the last values with their handlers, contract
    \<open>tag_store_port\<close>, and the index of tags. Lookups after publications; unique ids.
  \<^item> \<open>Modbus_Protocol\<close> (\<open>Src/adapters/modbus_protocol.cpp\<close>): framing and decoders. Round trips, and
    that no response of a device makes a decoder read outside its buffer.
  \<^item> \<open>Transport_Port\<close> (\<open>Src/ports/i_modbus_transport.hpp\<close>): the operations of a transport with the contracts
    \<open>register_port\<close> and \<open>bit_port\<close>. They are interpreted on \<open>Fake_Transport\<close> (the slave of the tests),
    \<open>Frame_Log\<close> (journal and replay), \<open>Udp_Transport\<close>, \<open>Tcp_Transport\<close> and, in \<open>Server_Runtime\<close>, on the
    choice of the default factory. For TCP the completion handlers form the step relation \<open>tcp_step\<close>:
    a completion is delivered exactly once in every order, and blocking and asynchronous calls agree.
    For UDP it is shown when a transaction gets its own answer and how one late answer breaks all later ones.
  \<^item> \<open>Dispatcher\<close>, \<open>Dispatcher_Laws\<close> (\<open>Src/core/dispatcher.cpp\<close>): polling, write queues, flushes, failures
    of endpoints. What a poll publishes, that the asynchronous poll agrees with the synchronous one, the
    rate limit of groups, the fate of every queued write on success and failure, the bound of the queues
    over all sequences of operations (\<open>dispatcher_step\<close>).
  \<^item> \<open>Historian\<close> (\<open>Src/adapters/ring_historian.cpp\<close>, \<open>sqlite_historian.cpp\<close>, \<open>historian_replay.hpp\<close>): contract
    \<open>historian_port\<close>, interpreted on the ring, the SQLite and the null historian. The ring refines the
    list of the last samples; a flush loses no sample it does not count.
  \<^item> \<open>Diagnostics\<close> (\<open>Src/core/runtime_doctor.cpp\<close>, \<open>Src/adapters/memory_metrics.cpp\<close>): runtime doctor and metrics in
    memory. \<open>Telemetry\<close> (\<open>Src/adapters/otel_metrics.cpp\<close>, \<open>otel_tracer.cpp\<close>, \<open>stderr_log.hpp\<close>, the recording tracer and
    the settable clock): contract \<open>metrics_port\<close>, interpreted on the metrics in memory and on OpenTelemetry,
    whose exported sums are those of the former; the tracer of the tests shows the spans that are exported.
  \<^item> \<open>Server_Runtime\<close> (\<open>Src/app/server_runtime.cpp\<close>): start, stop, ticks, write handler. At most one poll of
    an endpoint is in flight (\<open>reactor_step\<close>), the reconnect delay is kept, ownership of transports.
    \<open>Asio_Reactor\<close> (\<open>Src/adapters/asio_reactor.cpp\<close>): strands, timers, start and stop as step relations
    over the documented contract of Asio; serialisation, and termination after a stop request.
    \<open>Runtime_Reactor\<close> composes the two: all work of an endpoint runs on the strand of that endpoint.
  \<^item> \<open>Json\<close>, \<open>Validate\<close>, \<open>Load\<close>, \<open>Import_Csv\<close>, \<open>Migrate_Legacy\<close>, \<open>Project_Doctor\<close>, \<open>Gen_Nodeset\<close> (\<open>Src/project/\<close>):
    the project documents. Validation is exact for \<open>project_ok\<close>, a loaded project satisfies it,
    imported and migrated drafts are parsed again, every node of a generated NodeSet has its parent.
    \<open>Map_Tool\<close> (\<open>tools/opc-map/main.cpp\<close>): commands and exit codes over these.
  \<^item> \<open>Ua_Security\<close>, \<open>Opc_Ua_Server\<close> (\<open>Src/adapters/ua_pki.cpp\<close>, \<open>opc_ua_server.cpp\<close>): end points, certificates
    and access control, address space, data sources, diagnostics. What a server that starts admits, the
    outcome of a client write, exact quality counters, publication of all tags.
  \<^item> \<open>Cli_Options\<close>, \<open>Application\<close> (\<open>Src/app/\<close>, \<open>Src/main.cpp\<close>): the command line and the whole program, in which
    the models above are the components of the runtime: security of the gateway from the command line
    to the running server, and the exit codes.
  \<^item> \<open>Monitor_Client\<close>, \<open>Monitor_Laws\<close>, \<open>Monitor_Main\<close> (\<open>tools/opc-monitor/\<close>): the client, the invariant of its
    sessions, bounds of a browse, reconnection, the queue between reader and worker, and the way of a
    tag value from the gateway to an event of the monitor.
  \<^item> This theory: the properties that span the whole program. A value read from a device reaches the user
    of the monitor, with the quality of the read; a value written by a client reaches the device (contract
    \<open>register_memory\<close>, interpreted on the simulated slave) and comes back with the next poll.

  \<^bold>\<open>State, errors, concurrency.\<close> An operation on an object takes and returns its record. An error is a
  value of \<open>result\<close>, an exception that escapes is a value of the result of the operation. A mutex makes
  an operation one step; threads are interleavings of steps. Code that is not in the repository
  (sockets, Asio, SQLite, open62541, JSON text, files, clocks) is a record of functions that the
  operations take as an argument: \<open>udp_net\<close>, \<open>tcp_net\<close>, \<open>sqlite_api\<close>, \<open>ua_lib\<close>, \<open>ua_nodes\<close>, \<open>client_lib\<close>,
  \<open>otel_sdk\<close>, \<open>load_env\<close>, \<open>runtime_env\<close>, \<open>app_env\<close>, \<open>map_env\<close>.

  \<^bold>\<open>Bounds.\<close> No definition uses fuel: every loop has a measure. The loop of a flush ends because each round
  takes a write from the batch, a browse because its depth is limited to 16 levels. Machine integers are words, or
  \<open>int\<close> with the conversions at the place where the code converts; sums of \<open>int\<close> in the project doctor are taken
  without overflow. Numbers of tags and samples are below \<open>2 ^ 32\<close> and \<open>2 ^ 64\<close> where a statement says so.

  \<^bold>\<open>Not modelled.\<close> The log through spdlog, which configures that library; the log calls of the components
  are recorded in their states. What the OpenTelemetry SDK does with recorded values. Reads of the system clock:
  time is an argument. The vendored JSON parser, printer and schema validator. Destructors, apart from what stop
  does. A call of \<open>close\<close> on a TCP transport during a transaction. The text of usage messages. The studio
  frontend (TypeScript and Rust), the tests and the fuzzers.
\<close>

section \<open>From the device to the user\<close>

lemma typed_value_fills: "value_has_type ty v \<Longrightarrow> fill_variant ty v \<noteq> None"
  by (cases ty; cases v) simp_all

text \<open>The event of the monitor for a value with its two time stamps.\<close>

definition data_event :: "('c, 'n) client_lib \<Rightarrow> json \<Rightarrow> string \<Rightarrow> scalar_value \<Rightarrow> client_status \<Rightarrow> timestamp_ms \<Rightarrow> timestamp_ms \<Rightarrow> (string \<times> json) list" where
  "data_event lib sid node v status source server =
     [(''event'', JString ''dataChange''), (''subscriptionId'', sid), (''nodeId'', JString node), (''value'', scalar_as_json v)] @
     status_fields lib status @ [(''sourceTimestamp'', JInt source), (''serverTimestamp'', JInt server)]"

lemma stored_value_event:
  assumes "us_has_store srv" "get st (ctx_tag_id ctx) = Some tv" "value_has_type (ctx_type ctx) (tv_value tv)"
    "0 < tv_source_ts tv" "0 < tv_server_ts tv"
  shows "on_data_change lib ((sid, node), received f (data_source_read srv st ctx True)) m =
    emit (data_event lib sid node (tv_value tv) (f (quality_to_status (tv_quality tv) (tv_reason tv))) (tv_source_ts tv) (tv_server_ts tv)) m"
  unfolding monitor_sees_tag [OF assms(1,2) typed_value_fills [OF assms(3)] assms(4,5)] data_event_def
  using assms(1,2) by (simp add: data_source_read_def Let_def)

text \<open>
  C6: From the device to the user. After a poll of a tag, the monitor that receives the data value the
  OPC UA server reads for the tag emits: for a successful read and decode, the decoded value with status
  Good and the poll time as both time stamps; for a failed read, the last value of the tag with its
  own source time, the poll time as server time, and the Bad status of the failure.
\<close>

theorem device_value_reaches_monitor:
  assumes "d_has_store s" "d_has_clock s" "us_has_store srv" "0 < now"
    "ctx_tag_id ctx = tb_id b" "ctx_type ctx = tag_ty (tb_tag b)"
  shows "(\<forall>regs v. snd (area_read ops b (d_heap s a)) = Ok regs \<and> decode (tb_tag b) regs = Ok v \<longrightarrow>
      on_data_change lib ((sid, node), received f (data_source_read srv (d_store (fst (poll_tag ops b a now s))) ctx True)) m =
        emit (data_event lib sid node v (f UaGood) now now) m) \<and>
    (\<forall>e tv. snd (area_read ops b (d_heap s a)) = Err e \<and> tag_of s (tb_id b) = Some tv \<and>
        value_has_type (tag_ty (tb_tag b)) (tv_value tv) \<and> 0 < tv_source_ts tv \<longrightarrow>
      on_data_change lib ((sid, node), received f (data_source_read srv (d_store (fst (poll_tag ops b a now s))) ctx True)) m =
        emit (data_event lib sid node (tv_value tv) (f (quality_to_status Bad (poll_failure_reason b e))) (tv_source_ts tv) now) m)"
proof (intro conjI allI impI; elim conjE)
  note outcome = poll_tag_store [OF assms(1,2), of ops b a now] poll_tag_result(1) [OF assms(1,2), of ops b a now]
  note event = stored_value_event [OF assms(3), of "d_store (fst (poll_tag ops b a now s))" ctx]
  fix regs v
  assume r: "snd (area_read ops b (d_heap s a)) = Ok regs" "decode (tb_tag b) regs = Ok v"
  then have "get (d_store (fst (poll_tag ops b a now s))) (ctx_tag_id ctx) = Some (good_value v now)"
    using outcome assms(5) by (simp add: poll_outcome_def polled_value_def)
  then show "on_data_change lib ((sid, node), received f (data_source_read srv (d_store (fst (poll_tag ops b a now s))) ctx True)) m =
      emit (data_event lib sid node v (f UaGood) now now) m"
    using event [of "good_value v now"] decode_value_type [OF r(2)] assms(4,6) by (simp add: good_value_def)
next
  note outcome = poll_tag_store [OF assms(1,2), of ops b a now] poll_tag_result(1) [OF assms(1,2), of ops b a now]
  note event = stored_value_event [OF assms(3), of "d_store (fst (poll_tag ops b a now s))" ctx]
  fix e tv
  assume r: "snd (area_read ops b (d_heap s a)) = Err e" "tag_of s (tb_id b) = Some tv"
    "value_has_type (tag_ty (tb_tag b)) (tv_value tv)" "0 < tv_source_ts tv"
  then have "get (d_store (fst (poll_tag ops b a now s))) (ctx_tag_id ctx) = Some (with_quality (Some tv) Bad (poll_failure_reason b e) now)"
    using outcome assms(5) by (simp add: poll_outcome_def polled_value_def)
  then show "on_data_change lib ((sid, node), received f (data_source_read srv (d_store (fst (poll_tag ops b a now s))) ctx True)) m =
      emit (data_event lib sid node (tv_value tv) (f (quality_to_status Bad (poll_failure_reason b e))) (tv_source_ts tv) now) m"
    using event [of "with_quality (Some tv) Bad (poll_failure_reason b e) now"] r assms(4,6)
    by (simp add: with_quality_Some del: quality_to_status.simps)
qed

lemma lab_area_read: "snd (area_read fake_ops lab_binding (d_heap lab 0)) = Ok [0]"
  by (simp add: area_read_def lab_binding_def fake_ops_def fake_guarded_read_def consume_failure_def fake_read_def fake_new_def Let_def)

lemma lab_decode: "decode (tb_tag lab_binding) [0] = Ok (SBool False)"
  by (simp add: lab_binding_def decode_def ensure_count_def decode_bool_def Let_def)

theorem device_value_reaches_monitor_witness:
  "on_data_change lab_client ((JString ''a'', ''ns=1;i=7''), received (\<lambda>_. CsGood)
     (data_source_read (lab_server\<lparr>us_has_store := True\<rparr>) (d_store (fst (poll_tag fake_ops lab_binding 0 5 lab)))
        \<lparr>ctx_tag_id = tb_id lab_binding, ctx_type = tag_ty (tb_tag lab_binding), ctx_writable = True\<rparr> True)) lab_online =
   emit (data_event lab_client (JString ''a'') ''ns=1;i=7'' (SBool False) CsGood 5 5) lab_online"
proof -
  let ?srv = "lab_server\<lparr>us_has_store := True\<rparr>"
  let ?ctx = "\<lparr>ctx_tag_id = tb_id lab_binding, ctx_type = tag_ty (tb_tag lab_binding), ctx_writable = True\<rparr>"
  have 1: "d_has_store lab" "d_has_clock lab" "us_has_store ?srv" "0 < (5 :: timestamp_ms)"
    "ctx_tag_id ?ctx = tb_id lab_binding" "ctx_type ?ctx = tag_ty (tb_tag lab_binding)" by simp_all
  show ?thesis using device_value_reaches_monitor [OF 1, of fake_ops 0 lab_client "JString ''a''" "''ns=1;i=7''" "\<lambda>_. CsGood" lab_online]
      lab_area_read lab_decode by blast
qed

section \<open>From a write to the next poll\<close>

text \<open>A device that keeps what is written to its holding registers.\<close>

locale register_memory =
  fixes ops :: "'t transport_ops" and ready :: "'t \<Rightarrow> bool"
  assumes write_accepted: "ready t \<Longrightarrow> 1 \<le> length rs \<Longrightarrow> length rs \<le> 4 \<Longrightarrow> snd (write_registers ops u addr rs t) = Ok ()"
    and read_back: "ready t \<Longrightarrow> 1 \<le> length rs \<Longrightarrow> length rs \<le> 4 \<Longrightarrow>
      snd (tp_read_holding_registers ops (fst (write_registers ops u addr rs t)) u addr (of_nat (length rs))) = Ok rs"
begin

lemma flush_then_poll:
  assumes "d_has_store s" "d_has_clock s" "map_of (d_transports s) eid = Some (Some a)" "ready (d_heap s a)"
    "queue_of s eid = [\<lparr>pw_tag_id = tb_id b, pw_value = v\<rparr>]" "find_by_id (d_index s) (tb_id b) = Ok (Some b)"
    "tag_area (tb_tag b) = Holding" "tag_quantity (tb_tag b) = None" "unscaled (tb_tag b)" "order_ok (tb_tag b)"
    "value_has_type (tag_ty (tb_tag b)) v" "plain_value v"
  shows "snd (flush_writes ops eid s) = Ok () \<and>
    tag_of (fst (poll_tag ops b a now (fst (flush_writes ops eid s)))) (tb_id b) = Some (good_value v now)"
proof -
  let ?u = "tb_unit_id b" and ?addr = "word_of_int (tag_address (tb_tag b)) :: u16"
  obtain rs where rs: "encode (tb_tag b) v = Ok rs" "int (length rs) = register_count_for (tag_ty (tb_tag b))" "decode (tb_tag b) rs = Ok v"
    using encode_ok [OF assms(9-12)] assms(8) by (auto simp: quantity_fits_def)
  have n: "1 \<le> length rs" "length rs \<le> 4" using rs(2) register_count_bounds [of "tag_ty (tb_tag b)"] by simp_all
  have q: "word_of_int (regs_for (tb_tag b)) = (of_nat (length rs) :: u16)"
    using rs(2) assms(8) by (cases "tag_ty (tb_tag b)") (simp_all add: regs_for_def)
  have ne: "queue_of s eid \<noteq> []" by (simp add: assms(5))
  obtain t sp s3 where f: "flush_writes ops eid s = flush_loop ops eid a t sp (queue_of s eid) s3"
      "d_has_store s3 = d_has_store s" "d_index s3 = d_index s" "d_heap s3 = d_heap s"
    by (rule flush_writes_loop [OF ne assms(3), of ops])
  let ?s4 = "fst (on_transport (write_registers ops ?u ?addr rs) a s3)" and ?p = "\<lparr>pw_tag_id = tb_id b, pw_value = v\<rparr>"
  have w: "snd (on_transport (write_registers ops ?u ?addr rs) a s3) = Ok ()"
      "d_heap ?s4 a = fst (write_registers ops ?u ?addr rs (d_heap s a))"
    using write_accepted [OF assms(4) n] f(4) by (simp_all add: on_transport_def case_prod_unfold)
  have "write_head ops a ?p [] s3 = Sent ?s4 (Ok ()) [?p] []"
    using assms(6,7) rs(1) w(1) f(3) by (simp add: write_head_def Let_def case_prod_unfold)
  then have fl: "flush_writes ops eid s = (confirm_writes t [?p] ?s4, Ok ())" using f(1) assms(5) by simp
  have "snd (area_read ops b (d_heap (confirm_writes t [?p] ?s4) a)) = Ok rs"
    using read_back [OF assms(4) n] w(2) assms(7) q confirm_writes_frame_all [of t "[?p]" ?s4] by (simp add: area_read_def Let_def)
  moreover have "d_has_store (confirm_writes t [?p] ?s4)" "d_has_clock (confirm_writes t [?p] ?s4)"
    using flush_writes_frame(2,3) [of ops eid s] assms(1,2) unfolding fl by simp_all
  ultimately show ?thesis
    using poll_tag_store [of "confirm_writes t [?p] ?s4" ops b a now] poll_tag_result(1) [of "confirm_writes t [?p] ?s4" ops b a now] rs(3)
    unfolding fl by (simp add: poll_outcome_def polled_value_def)
qed

end

definition slave_ready :: "fake_transport \<Rightarrow> bool" where
  "slave_ready t \<longleftrightarrow> fk_connected t \<and> fk_next_error t = None"

interpretation slave: register_memory fake_ops slave_ready
proof unfold_locales
  fix t and rs :: "u16 list" and u addr
  assume a: "slave_ready t" "1 \<le> length rs" "length rs \<le> 4"
  show "snd (write_registers fake_ops u addr rs t) = Ok ()"
    using a(1) by (simp add: slave_ready_def write_registers_def fake_ops_def fake_write_single_register_def
        fake_write_multiple_registers_def fake_guarded_write_def consume_failure_def)
  have single: "write_registers fake_ops u addr rs t = tp_write_multiple_registers fake_ops t u addr rs"
    using a by (cases rs) (auto simp: slave_ready_def write_registers_def fake_ops_def fake_write_single_register_def
        fake_write_multiple_registers_def fake_guarded_write_def consume_failure_def)
  show "snd (tp_read_holding_registers fake_ops (fst (write_registers fake_ops u addr rs t)) u addr (of_nat (length rs))) = Ok rs"
    unfolding single using a by (intro fake_write_read) (simp_all add: slave_ready_def)
qed

text \<open>An accepted write of a client leaves the transports alone and is the only one in an empty queue.\<close>

lemma queue_of_store_publish [simp]: "queue_of (store_publish i v s) e = queue_of s e"
  by (rule queue_of_cong) simp

lemma accepted_write:
  assumes "find_by_id (d_index (sr_disp rt)) (tb_id b) = Ok (Some b)" "tag_writable (tb_tag b)"
    "queue_of (sr_disp rt) (tb_endpoint_id b) = []" "us_has_handler srv" "us_has_store srv"
    "variant_to_scalar (tag_ty (tb_tag b)) x = Some v"
  obtains rt' where "data_source_write srv \<lparr>ctx_tag_id = tb_id b, ctx_type = tag_ty (tb_tag b), ctx_writable = True\<rparr> (Some x) t rt = (srv, rt', UaGood)"
    "queue_of (sr_disp rt') (tb_endpoint_id b) = [\<lparr>pw_tag_id = tb_id b, pw_value = v\<rparr>]"
    "d_has_store (sr_disp rt') = d_has_store (sr_disp rt)" "d_has_clock (sr_disp rt') = d_has_clock (sr_disp rt)"
    "d_transports (sr_disp rt') = d_transports (sr_disp rt)" "d_heap (sr_disp rt') = d_heap (sr_disp rt)"
    "d_index (sr_disp rt') = d_index (sr_disp rt)"
proof -
  obtain rt1 r where e: "write_handler (tb_id b) v rt = (rt1, r)" by (rule prod.exhaust)
  let ?d = "metric (GaugeSet ''modbus_write_queue_depth'' 1)
      (set_queue (tb_endpoint_id b) [\<lparr>pw_tag_id = tb_id b, pw_value = v\<rparr>] (sr_disp rt))"
  have d: "sr_disp rt1 = ?d" "r = Ok ()"
    using write_handler_disp [of "tb_id b" v rt] assms(1-3) e by (simp_all add: enqueue_write_def Let_def kMaxWriteQueueDepth_def)
  show thesis
    by (rule that [of "on_disp (store_publish (tb_id b) (with_quality (get (d_store (sr_disp rt1)) (tb_id b)) Uncertain QR_WritePending t)) rt1"])
      (use assms(4-6) e d in \<open>simp_all add: data_source_write_def on_disp_def\<close>)
qed


definition echo_binding :: tag_binding where
  "echo_binding = \<lparr>tb_id = 1, tb_device_id = ''d'', tb_endpoint_id = ''e'', tb_unit_id = 1, tb_tag = default_tag\<lparr>tag_writable := True\<rparr>\<rparr>"

definition echo_runtime :: "(fake_transport, unit, unit, ring_historian) server_runtime" where
  "echo_runtime = lab_runtime\<lparr>sr_disp := lab\<lparr>d_index := (d_index lab)\<lparr>ri_tags := [echo_binding], ri_by_id := [(1, 0)]\<rparr>\<rparr>\<rparr>"

definition echo_server :: "unit ua_server" where
  "echo_server = lab_server\<lparr>us_has_handler := True, us_has_store := True\<rparr>"

definition echo_context :: node_context where
  "echo_context = \<lparr>ctx_tag_id = 1, ctx_type = TUInt16, ctx_writable = True\<rparr>"


end
